(* ===== verification/Prelude.thy ===== *)
theory Prelude
  imports Main "HOL-Library.Word"
begin

text \<open>
  Shared vocabulary of the semtext development: the machine integer types of the Rust
  sources (\<open>u8\<close>, \<open>u16\<close>), Rust's \<open>Option::or\<close>, and the lemmas that move \<open>u16\<close>
  arithmetic to \<open>nat\<close> where no wrap-around happens. The collection \<open>u16_nat\<close> gathers
  the rewrite rules the component proofs pass to \<open>simp\<close>.
\<close>

type_synonym u8 = "8 word"
type_synonym u16 = "16 word"

named_theorems u16_nat "rewrite rules from u16 arithmetic to nat arithmetic"

section \<open>Rust's Option::or\<close>

definition opt_or :: "'a option \<Rightarrow> 'a option \<Rightarrow> 'a option" where
  "opt_or x y = (case x of Some v \<Rightarrow> Some v | None \<Rightarrow> y)"

text \<open>The first non-empty element of a list, as a chain of \<open>or\<close> calls.\<close>

fun first_some :: "'a option list \<Rightarrow> 'a option" where
  "first_some [] = None"
| "first_some (x # xs) = opt_or x (first_some xs)"

lemma opt_or_simps [simp]:
  "opt_or None y = y"
  "opt_or (Some v) y = Some v"
  "opt_or x None = x"
  by (simp_all add: opt_or_def split: option.splits)

lemma opt_or_assoc: "opt_or (opt_or x y) z = opt_or x (opt_or y z)"
  by (simp add: opt_or_def split: option.splits)

lemma opt_or_None_iff [simp]: "opt_or x y = None \<longleftrightarrow> x = None \<and> y = None"
  by (simp add: opt_or_def split: option.splits)

lemma first_some_append: "first_some (xs @ ys) = opt_or (first_some xs) (first_some ys)"
  by (induction xs) (simp_all add: opt_or_assoc)

lemma first_some_None_iff: "first_some xs = None \<longleftrightarrow> (\<forall>x \<in> set xs. x = None)"
  by (induction xs) auto

lemma find_Some_mem: "find P xs = Some x \<Longrightarrow> x \<in> set xs \<and> P x"
  by (induction xs) (auto split: if_splits)

section \<open>u16 arithmetic without wrap-around\<close>

lemma unat_min_word [u16_nat]: "unat (min a b) = min (unat a) (unat b)"
  for a b :: "'a::len word"
  by (simp add: min_def word_le_nat_alt)

lemma unat_sub_min [u16_nat]: "unat (a - min a b) = unat a - unat b"
  for a b :: "'a::len word"
proof -
  have "min a b \<le> a" by simp
  then have "unat (a - min a b) = unat a - unat (min a b)" by (rule unat_sub)
  also have "\<dots> = unat a - unat b" by (simp add: unat_min_word min_def word_le_nat_alt)
  finally show ?thesis .
qed

lemma unat_sub_le [u16_nat]: "b \<le> a \<Longrightarrow> unat (a - b) = unat a - unat b"
  for a b :: "'a::len word"
  by (rule unat_sub)

lemma unat_add_nowrap: "unat a + unat b < 2 ^ LENGTH('a) \<Longrightarrow> unat (a + b) = unat a + unat b"
  for a b :: "'a::len word"
  by (simp add: unat_add_lem)

lemma unat_add_nowrap_u16 [u16_nat]:
  "unat a + unat b < 65536 \<Longrightarrow> unat (a + b) = unat a + unat b"
  for a b :: u16
  using unat_add_nowrap [of a b] by simp

lemma unat_u16_less [simp]: "unat (x :: u16) < 65536"
  using unsigned_less [of x] by simp

lemma unat_of_nat_u16 [u16_nat]: "n < 65536 \<Longrightarrow> unat (word_of_nat n :: u16) = n"
  by (simp add: unat_of_nat)

section \<open>Division\<close>

lemma lt_div_succ_mult: "n < (n div r + 1) * r" if "0 < (r :: nat)" for n
proof -
  have "n div r * r + n mod r = n" by (rule div_mult_mod_eq)
  moreover have "n mod r < r" using that by simp
  ultimately show ?thesis unfolding distrib_right mult_1_left by linarith
qed

end
