(* ===== verification/Grid.thy ===== *)
theory Grid
  imports Prelude
begin

text \<open>
  The grid template (spec 4.3; the layout module is not among the sources, so this theory
  is modelled from the spec). A template is a matrix of cell labels, row by row; the label
  \<open>''.''\<close> is the filler. Parsing scans the cells once in row-major order and records, for
  every other label, the bounding rectangle of its occurrences in first-occurrence order
  (\<open>note_cell\<close>, \<open>grid_scan\<close>); it then checks that every cell of each rectangle carries
  its label (\<open>Err_Span\<close>), that all rows are as long as the first (\<open>Err_Ragged\<close>), and
  resolves each label to a widget through the caller's mapping (\<open>Err_Unmapped\<close>).
  Rectangles are half-open ranges of track indices. The lemmas show that an accepted
  template is reproduced by drawing its rectangles back into a matrix (a round trip), that
  each label then occupies exactly its rectangle, and that a label whose occurrences are
  not a rectangle, or a ragged template, is rejected with an error naming the culprit.
\<close>

type_synonym glabel = string

definition filler :: glabel where
  "filler = ''.''"

record grid_rect =
  gc0 :: nat
  gr0 :: nat
  gc1 :: nat
  gr1 :: nat

datatype grid_error = Err_Ragged nat | Err_Span glabel | Err_Unmapped glabel

record 'w template =
  tpl_rows :: nat
  tpl_cols :: nat
  tpl_places :: "('w \<times> grid_rect) list"

definition rect_of :: "nat \<Rightarrow> nat \<Rightarrow> grid_rect" where
  "rect_of r c = \<lparr>gc0 = c, gr0 = r, gc1 = Suc c, gr1 = Suc r\<rparr>"

definition rect_extend :: "grid_rect \<Rightarrow> nat \<Rightarrow> nat \<Rightarrow> grid_rect" where
  "rect_extend rc r c =
     \<lparr>gc0 = min (gc0 rc) c, gr0 = min (gr0 rc) r, gc1 = max (gc1 rc) (Suc c), gr1 = max (gr1 rc) (Suc r)\<rparr>"

definition in_rect :: "grid_rect \<Rightarrow> nat \<Rightarrow> nat \<Rightarrow> bool" where
  "in_rect rc r c \<longleftrightarrow> gr0 rc \<le> r \<and> r < gr1 rc \<and> gc0 rc \<le> c \<and> c < gc1 rc"

definition cell_at :: "glabel list list \<Rightarrow> nat \<Rightarrow> nat \<Rightarrow> glabel option" where
  "cell_at m r c = (if r < length m \<and> c < length (m ! r) then Some (m ! r ! c) else None)"

text \<open>The cells of the matrix in row-major order, with their row and column.\<close>

definition grid_cells :: "glabel list list \<Rightarrow> (nat \<times> nat \<times> glabel) list" where
  "grid_cells m = concat (map (\<lambda>(r, row). map (\<lambda>(c, l). (r, c, l)) (enumerate 0 row)) (enumerate 0 m))"

text \<open>Step (1) for one cell: extend the label's rectangle, or append a new entry.\<close>

fun note_span :: "glabel \<Rightarrow> nat \<Rightarrow> nat \<Rightarrow> (glabel \<times> grid_rect) list \<Rightarrow> (glabel \<times> grid_rect) list" where
  "note_span l r c [] = [(l, rect_of r c)]"
| "note_span l r c ((l', rc) # acc) =
     (if l = l' then (l', rect_extend rc r c) # acc else (l', rc) # note_span l r c acc)"

definition note_cell :: "nat \<times> nat \<times> glabel \<Rightarrow> (glabel \<times> grid_rect) list \<Rightarrow> (glabel \<times> grid_rect) list" where
  "note_cell x acc = (case x of (r, c, l) \<Rightarrow> if l = filler then acc else note_span l r c acc)"

definition grid_scan :: "glabel list list \<Rightarrow> (glabel \<times> grid_rect) list" where
  "grid_scan m = fold note_cell (grid_cells m) []"

text \<open>Step (2): every cell inside the rectangle carries the label.\<close>

definition span_ok :: "glabel list list \<Rightarrow> glabel \<times> grid_rect \<Rightarrow> bool" where
  "span_ok m x = (case x of (l, rc) \<Rightarrow>
     list_all (\<lambda>r. list_all (\<lambda>c. cell_at m r c = Some l) [gc0 rc..<gc1 rc]) [gr0 rc..<gr1 rc])"

definition grid_spans :: "glabel list list \<Rightarrow> grid_error + (glabel \<times> grid_rect) list" where
  "grid_spans m =
     (let spans = grid_scan m
      in case find (\<lambda>x. \<not> span_ok m x) spans of
           Some (l, _) \<Rightarrow> Inl (Err_Span l)
         | None \<Rightarrow> (case find (\<lambda>i. length (m ! i) \<noteq> length (hd m)) [0..<length m] of
                     Some i \<Rightarrow> Inl (Err_Ragged i)
                   | None \<Rightarrow> Inr spans))"

text \<open>Step (4): resolve every label through the caller's mapping, in order.\<close>

fun resolve_spans :: "(glabel \<Rightarrow> 'w option) \<Rightarrow> (glabel \<times> grid_rect) list \<Rightarrow> grid_error + ('w \<times> grid_rect) list" where
  "resolve_spans lookup [] = Inr []"
| "resolve_spans lookup ((l, rc) # rest) =
     (case lookup l of
        None \<Rightarrow> Inl (Err_Unmapped l)
      | Some w \<Rightarrow> (case resolve_spans lookup rest of
                    Inl e \<Rightarrow> Inl e
                  | Inr ws \<Rightarrow> Inr ((w, rc) # ws)))"

definition grid_template :: "glabel list list \<Rightarrow> (glabel \<Rightarrow> 'w option) \<Rightarrow> grid_error + 'w template" where
  "grid_template m lookup =
     (case grid_spans m of
        Inl e \<Rightarrow> Inl e
      | Inr spans \<Rightarrow> (case resolve_spans lookup spans of
                       Inl e \<Rightarrow> Inl e
                     | Inr ws \<Rightarrow> Inr \<lparr>tpl_rows = length m, tpl_cols = (if m = [] then 0 else length (hd m)),
                                      tpl_places = ws\<rparr>))"

text \<open>Drawing a list of labelled rectangles back into a matrix: each cell takes the label
  of the first rectangle holding it, or the filler.\<close>

definition grid_render :: "nat \<Rightarrow> nat \<Rightarrow> (glabel \<times> grid_rect) list \<Rightarrow> glabel list list" where
  "grid_render rows cols spans =
     map (\<lambda>r. map (\<lambda>c. case find (\<lambda>(l, rc). in_rect rc r c) spans of
                          Some (l, _) \<Rightarrow> l
                        | None \<Rightarrow> filler) [0..<cols]) [0..<rows]"

text \<open>The abstract view: the cells a label occupies, the cells of a rectangle, and what a
  rectangle of cells is.\<close>

definition occ :: "glabel list list \<Rightarrow> glabel \<Rightarrow> (nat \<times> nat) set" where
  "occ m l = {(r, c). cell_at m r c = Some l}"

definition rect_cells :: "grid_rect \<Rightarrow> (nat \<times> nat) set" where
  "rect_cells rc = {gr0 rc..<gr1 rc} \<times> {gc0 rc..<gc1 rc}"

definition is_rect :: "(nat \<times> nat) set \<Rightarrow> bool" where
  "is_rect S \<longleftrightarrow> (\<exists>r0 r1 c0 c1. S = {r0..<r1} \<times> {c0..<c1})"

text \<open>Bounding rectangles: growing an optional rectangle by one cell, non-empty
  rectangles, and the occurrences of a label in row-major order.\<close>

fun ext_at :: "nat \<times> nat \<Rightarrow> grid_rect option \<Rightarrow> grid_rect option" where
  "ext_at (r, c) None = Some (rect_of r c)"
| "ext_at (r, c) (Some rc) = Some (rect_extend rc r c)"

definition rect_ne :: "grid_rect \<Rightarrow> bool" where
  "rect_ne rc \<longleftrightarrow> gr0 rc < gr1 rc \<and> gc0 rc < gc1 rc"

definition occ_list :: "glabel list list \<Rightarrow> glabel \<Rightarrow> (nat \<times> nat) list" where
  "occ_list m l = [(r, c). (r, c, x) \<leftarrow> grid_cells m, x = l]"

section \<open>The scan finds each label's bounding rectangle\<close>

lemma set_grid_cells: "(r, c, x) \<in> set (grid_cells m) \<longleftrightarrow> cell_at m r c = Some x"
proof
  assume "(r, c, x) \<in> set (grid_cells m)"
  then show "cell_at m r c = Some x"
    by (auto simp: grid_cells_def cell_at_def in_set_enumerate_eq)
next
  assume "cell_at m r c = Some x"
  then have "(r, m ! r) \<in> set (enumerate 0 m)" "(c, x) \<in> set (enumerate 0 (m ! r))"
    by (auto simp: cell_at_def in_set_enumerate_eq split: if_splits)
  then show "(r, c, x) \<in> set (grid_cells m)"
    unfolding grid_cells_def by force
qed

lemma map_of_note_span:
  "map_of (note_span l r c acc) l' = (if l' = l then ext_at (r, c) (map_of acc l) else map_of acc l')"
  by (induction acc) auto

lemma keys_note_span:
  "map fst (note_span l r c acc) = (if l \<in> set (map fst acc) then map fst acc else map fst acc @ [l])"
  by (induction acc) (auto simp: image_iff, fastforce)

lemma map_of_fold_note_cell:
  "map_of (fold note_cell xs acc) l =
     (if l = filler then map_of acc l else fold ext_at [(r, c). (r, c, x) \<leftarrow> xs, x = l] (map_of acc l))"
  by (induction xs arbitrary: acc) (auto simp: note_cell_def map_of_note_span)


lemma rect_of_cells [simp]: "rect_ne (rect_of r c)" "rect_cells (rect_of r c) = {(r, c)}"
  by (auto simp: rect_ne_def rect_of_def rect_cells_def)

lemma rect_extend_cells:
  assumes "rect_ne rc"
  shows "rect_ne (rect_extend rc r c)" "rect_cells rc \<subseteq> rect_cells (rect_extend rc r c)"
    "(r, c) \<in> rect_cells (rect_extend rc r c)"
  using assms by (auto simp: rect_ne_def rect_extend_def rect_cells_def)

lemma rect_extend_least:
  assumes "rect_ne rc" "is_rect S" "rect_cells rc \<subseteq> S" "(r, c) \<in> S"
  shows "rect_cells (rect_extend rc r c) \<subseteq> S"
proof -
  obtain r0 r1 c0 c1 where S: "S = {r0..<r1} \<times> {c0..<c1}" using assms(2) by (auto simp: is_rect_def)
  have "(gr0 rc, gc0 rc) \<in> S" "(gr1 rc - 1, gc1 rc - 1) \<in> S"
    using assms(1,3) by (auto simp: rect_ne_def rect_cells_def)
  then show ?thesis using assms(4) unfolding S by (auto simp: rect_extend_def rect_cells_def)
qed

lemma fold_ext_at_Some:
  assumes "rect_ne rc0"
  shows "\<exists>rc. fold ext_at ps (Some rc0) = Some rc \<and> rect_ne rc \<and> rect_cells rc0 \<union> set ps \<subseteq> rect_cells rc
    \<and> (\<forall>S. is_rect S \<longrightarrow> rect_cells rc0 \<union> set ps \<subseteq> S \<longrightarrow> rect_cells rc \<subseteq> S)"
  using assms
proof (induction ps arbitrary: rc0)
  case Nil
  then show ?case by simp
next
  case (Cons p ps)
  obtain r c where p: "p = (r, c)" by fastforce
  let ?rc1 = "rect_extend rc0 r c"
  have ne1: "rect_ne ?rc1" and sub1: "rect_cells rc0 \<subseteq> rect_cells ?rc1" and in1: "(r, c) \<in> rect_cells ?rc1"
    using rect_extend_cells [OF Cons.prems] by blast+
  obtain rc where rc: "fold ext_at ps (Some ?rc1) = Some rc" "rect_ne rc" "rect_cells ?rc1 \<union> set ps \<subseteq> rect_cells rc"
    and least: "\<forall>S. is_rect S \<longrightarrow> rect_cells ?rc1 \<union> set ps \<subseteq> S \<longrightarrow> rect_cells rc \<subseteq> S"
    using Cons.IH [OF ne1] by blast
  have "\<forall>S. is_rect S \<longrightarrow> rect_cells rc0 \<union> set (p # ps) \<subseteq> S \<longrightarrow> rect_cells rc \<subseteq> S"
    using least rect_extend_least [OF Cons.prems] by (simp add: p)
  then show ?case using rc sub1 in1 by (auto simp: p)
qed

lemma fold_ext_at_None:
  assumes "fold ext_at ps None = Some rc"
  shows "rect_ne rc \<and> set ps \<subseteq> rect_cells rc \<and> (\<forall>S. is_rect S \<longrightarrow> set ps \<subseteq> S \<longrightarrow> rect_cells rc \<subseteq> S)"
proof (cases ps)
  case Nil
  then show ?thesis using assms by simp
next
  case (Cons p ps')
  obtain r c where p: "p = (r, c)" by fastforce
  show ?thesis using fold_ext_at_Some [of "rect_of r c" ps'] assms by (auto simp: Cons p)
qed

lemma fold_ext_at_None_empty: "fold ext_at ps None = None \<longleftrightarrow> ps = []"
proof (cases ps)
  case (Cons p ps')
  obtain r c where p: "p = (r, c)" by fastforce
  show ?thesis using fold_ext_at_Some [of "rect_of r c" ps'] by (auto simp: Cons p)
qed simp


lemma set_occ_list: "set (occ_list m l) = occ m l"
  by (force simp: occ_list_def occ_def set_grid_cells [symmetric])

lemma map_of_grid_scan:
  "map_of (grid_scan m) l = (if l = filler then None else fold ext_at (occ_list m l) None)"
  by (simp add: grid_scan_def map_of_fold_note_cell occ_list_def)

lemma distinct_fold_note_cell: "distinct (map fst acc) \<Longrightarrow> distinct (map fst (fold note_cell xs acc))"
  by (induction xs arbitrary: acc) (auto simp: note_cell_def keys_note_span split: prod.splits)

lemma grid_scan_entry:
  assumes "(l, rc) \<in> set (grid_scan m)"
  shows "l \<noteq> filler \<and> occ m l \<noteq> {} \<and> occ m l \<subseteq> rect_cells rc
    \<and> (\<forall>S. is_rect S \<longrightarrow> occ m l \<subseteq> S \<longrightarrow> rect_cells rc \<subseteq> S)"
proof -
  have "distinct (map fst (grid_scan m))" unfolding grid_scan_def by (rule distinct_fold_note_cell) simp
  then have "map_of (grid_scan m) l = Some rc" using assms by simp
  then have l: "l \<noteq> filler" and f: "fold ext_at (occ_list m l) None = Some rc"
    by (simp_all add: map_of_grid_scan split: if_splits)
  have "occ m l \<noteq> {}" using f fold_ext_at_None_empty [of "occ_list m l"] set_occ_list [of m l] by auto
  then show ?thesis using l fold_ext_at_None [OF f] by (simp add: set_occ_list)
qed

lemma grid_scan_complete:
  assumes "l \<noteq> filler" "occ m l \<noteq> {}"
  shows "\<exists>rc. (l, rc) \<in> set (grid_scan m)"
proof -
  have "occ_list m l \<noteq> []" using assms(2) set_occ_list [of m l] by auto
  then obtain rc where "map_of (grid_scan m) l = Some rc"
    using assms(1) fold_ext_at_None_empty by (fastforce simp: map_of_grid_scan)
  then show ?thesis by (blast dest: map_of_SomeD)
qed

lemma span_ok_iff: "span_ok m (l, rc) \<longleftrightarrow> rect_cells rc \<subseteq> occ m l"
  by (auto simp: span_ok_def list_all_iff rect_cells_def occ_def)


section \<open>Validation\<close>

lemma in_rect_cells: "in_rect rc r c \<longleftrightarrow> (r, c) \<in> rect_cells rc"
  by (auto simp: in_rect_def rect_cells_def)

lemma rect_span_ok:
  assumes "(l, rc) \<in> set (grid_scan m)" "is_rect (occ m l)"
  shows "span_ok m (l, rc)"
  using grid_scan_entry [OF assms(1)] assms(2) by (simp add: span_ok_iff)

lemma grid_spans_Inr:
  assumes "grid_spans m = Inr sp"
  shows "sp = grid_scan m" "\<forall>x \<in> set sp. span_ok m x" "\<forall>i < length m. length (m ! i) = length (hd m)"
  using assms
  by (auto simp: grid_spans_def Let_def find_None_iff split: option.splits prod.splits)

lemma grid_spans_occ:
  assumes "grid_spans m = Inr sp" "(l, rc) \<in> set sp"
  shows "occ m l = rect_cells rc"
  using grid_scan_entry [of l rc m] grid_spans_Inr [OF assms(1)] assms(2)
  by (auto simp: span_ok_iff)

text \<open>A template in which some label's occurrences do not form a rectangle is
  rejected, and the error names a label whose occurrences are indeed not a rectangle.\<close>

lemma grid_span_error:
  assumes "l \<noteq> filler" "occ m l \<noteq> {}" "\<not> is_rect (occ m l)"
  shows "\<exists>l'. grid_spans m = Inl (Err_Span l') \<and> l' \<noteq> filler \<and> occ m l' \<noteq> {} \<and> \<not> is_rect (occ m l')"
proof -
  obtain rc where rc: "(l, rc) \<in> set (grid_scan m)" using grid_scan_complete [OF assms(1,2)] by blast
  have "\<not> span_ok m (l, rc)"
    using grid_scan_entry [OF rc] assms(3) by (auto simp: span_ok_iff is_rect_def rect_cells_def)
  then obtain l' rc' where f: "find (\<lambda>x. \<not> span_ok m x) (grid_scan m) = Some (l', rc')"
    using rc by (cases "find (\<lambda>x. \<not> span_ok m x) (grid_scan m)") (auto simp: find_None_iff)
  then have mem: "(l', rc') \<in> set (grid_scan m)" and bad: "\<not> span_ok m (l', rc')"
    by (auto dest: find_Some_mem)
  have "\<not> is_rect (occ m l')" using rect_span_ok [OF mem] bad by blast
  then show ?thesis using f grid_scan_entry [OF mem] by (auto simp: grid_spans_def Let_def)
qed

text \<open>A template whose labels all form rectangles but whose rows differ in length
  is rejected with \<open>Err_Ragged\<close> naming the first row whose length differs from the
  first row's.\<close>

lemma grid_ragged_error:
  assumes "\<forall>l. l \<noteq> filler \<longrightarrow> is_rect (occ m l)" "i < length m" "length (m ! i) \<noteq> length (hd m)"
  shows "\<exists>j. grid_spans m = Inl (Err_Ragged j) \<and> j < length m \<and> length (m ! j) \<noteq> length (hd m)
    \<and> (\<forall>k < j. length (m ! k) = length (hd m))"
proof -
  have ok: "find (\<lambda>x. \<not> span_ok m x) (grid_scan m) = None"
    using assms(1) rect_span_ok grid_scan_entry by (fastforce simp: find_None_iff)
  obtain j where f: "find (\<lambda>i. length (m ! i) \<noteq> length (hd m)) [0..<length m] = Some j"
    using assms(2,3) by (cases "find (\<lambda>i. length (m ! i) \<noteq> length (hd m)) [0..<length m]") (auto simp: find_None_iff)
  then have "j < length m \<and> length (m ! j) \<noteq> length (hd m) \<and> (\<forall>k < j. length (m ! k) = length (hd m))"
    by (auto simp: find_Some_iff)
  then show ?thesis using f ok by (simp add: grid_spans_def)
qed

text \<open>Round trip. Drawing the rectangles of an accepted template back into a matrix
  of its size gives the template: each cell is in the rectangle of its own label, and a
  filler cell is in none.\<close>

lemma grid_roundtrip:
  assumes "grid_spans m = Inr sp"
  shows "grid_render (length m) (length (hd m)) sp = m"
proof (rule nth_equalityI)
  show "length (grid_render (length m) (length (hd m)) sp) = length m" by (simp add: grid_render_def)
next
  fix r assume r: "r < length (grid_render (length m) (length (hd m)) sp)"
  then have r': "r < length m" by (simp add: grid_render_def)
  have len: "length (m ! r) = length (hd m)" using grid_spans_Inr(3) [OF assms] r' by blast
  have cell: "(case find (\<lambda>(l, rc). in_rect rc r c) sp of Some (l, _) \<Rightarrow> l | None \<Rightarrow> filler) = m ! r ! c"
    if c: "c < length (m ! r)" for c
  proof (cases "find (\<lambda>(l, rc). in_rect rc r c) sp")
    case None
    show ?thesis
    proof (rule ccontr)
      assume ne: "(case find (\<lambda>(l, rc). in_rect rc r c) sp of Some (l, _) \<Rightarrow> l | None \<Rightarrow> filler) \<noteq> m ! r ! c"
      have "(r, c) \<in> occ m (m ! r ! c)" using r' c by (simp add: occ_def cell_at_def)
      moreover have "m ! r ! c \<noteq> filler" using ne None by simp
      ultimately obtain rc where "(m ! r ! c, rc) \<in> set sp"
        using grid_scan_complete grid_spans_Inr(1) [OF assms] by blast
      moreover have "(r, c) \<in> occ m (m ! r ! c)" using r' c by (simp add: occ_def cell_at_def)
      ultimately show False using None grid_spans_occ [OF assms] by (fastforce simp: find_None_iff in_rect_cells)
    qed
  next
    case (Some x)
    obtain l rc where x: "x = (l, rc)" by fastforce
    have "(l, rc) \<in> set sp" "in_rect rc r c" using find_Some_mem [OF Some] by (auto simp: x)
    then have "(r, c) \<in> occ m l" using grid_spans_occ [OF assms] by (simp add: in_rect_cells)
    then have "cell_at m r c = Some l" by (simp add: occ_def)
    then show ?thesis using Some by (simp add: x cell_at_def split: if_splits)
  qed
  show "grid_render (length m) (length (hd m)) sp ! r = m ! r"
    using r' len cell by (auto simp: grid_render_def intro!: nth_equalityI)
qed

section \<open>Label resolution\<close>

text \<open>\<open>resolve_spans\<close> stops at the first unmapped label; it equals resolving every
  label when none is unmapped, and the error of the first unmapped one otherwise.\<close>

lemma resolve_spans_eq:
  "resolve_spans lookup sp =
     (case find (\<lambda>(l, rc). lookup l = None) sp of
        Some (l, _) \<Rightarrow> Inl (Err_Unmapped l)
      | None \<Rightarrow> Inr (map (\<lambda>(l, rc). (the (lookup l), rc)) sp))"
  by (induction lookup sp rule: resolve_spans.induct) (auto split: option.splits sum.splits)

lemma grid_template_Inr:
  assumes "grid_template m lookup = Inr t"
  shows "tpl_places t = map (\<lambda>(l, rc). (the (lookup l), rc)) (grid_scan m)"
    "\<forall>(l, rc) \<in> set (grid_scan m). lookup l \<noteq> None \<and> occ m l = rect_cells rc"
proof -
  obtain sp where sp: "grid_spans m = Inr sp" using assms by (auto simp: grid_template_def split: sum.splits)
  then have r: "resolve_spans lookup sp = Inr (tpl_places t)"
    using assms by (auto simp: grid_template_def split: sum.splits)
  have n: "find (\<lambda>(l, rc). lookup l = None) sp = None"
    using r by (auto simp: resolve_spans_eq split: option.splits)
  then show "tpl_places t = map (\<lambda>(l, rc). (the (lookup l), rc)) (grid_scan m)"
    using r grid_spans_Inr(1) [OF sp] by (simp add: resolve_spans_eq)
  show "\<forall>(l, rc) \<in> set (grid_scan m). lookup l \<noteq> None \<and> occ m l = rect_cells rc"
    using n grid_spans_Inr(1) [OF sp] grid_spans_occ [OF sp] by (auto simp: find_None_iff)
qed

lemma grid_template_places:
  assumes "grid_template m lookup = Inr t"
  shows "map snd (tpl_places t) = map snd (grid_scan m)
    \<and> (\<forall>(l, rc) \<in> set (grid_scan m). lookup l \<noteq> None \<and> occ m l = rect_cells rc)"
  using grid_template_Inr [OF assms] by (simp add: case_prod_unfold)

lemma distinct_grid_scan: "distinct (map fst (grid_scan m))"
  unfolding grid_scan_def by (rule distinct_fold_note_cell) simp

lemma occ_disjoint: "l \<noteq> l' \<Longrightarrow> occ m l \<inter> occ m l' = {}"
  by (auto simp: occ_def)

text \<open>Two different placements of an accepted template occupy disjoint rectangles, and an
  injective mapping gives every placement its own widget.\<close>

lemma grid_template_disjoint:
  assumes t: "grid_template m lookup = Inr t"
    and p: "x \<in> set (tpl_places t)" and p': "x' \<in> set (tpl_places t)" and ne: "x \<noteq> x'"
  shows "rect_cells (snd x) \<inter> rect_cells (snd x') = {}"
proof -
  let ?sc = "grid_scan m"
  have pl: "tpl_places t = map (\<lambda>(l, rc). (the (lookup l), rc)) ?sc" by (rule grid_template_Inr(1) [OF t])
  obtain i where i: "i < length ?sc" "x = (\<lambda>(l, rc). (the (lookup l), rc)) (?sc ! i)"
    using p by (auto simp: pl in_set_conv_nth)
  obtain j where j: "j < length ?sc" "x' = (\<lambda>(l, rc). (the (lookup l), rc)) (?sc ! j)"
    using p' by (auto simp: pl in_set_conv_nth)
  have "i \<noteq> j" using i j ne by auto
  then have neq: "fst (?sc ! i) \<noteq> fst (?sc ! j)"
    using distinct_grid_scan [of m] i(1) j(1) by (auto simp: distinct_conv_nth)
  have "occ m (fst (?sc ! i)) = rect_cells (snd (?sc ! i))" "occ m (fst (?sc ! j)) = rect_cells (snd (?sc ! j))"
    using grid_template_Inr(2) [OF t] nth_mem [OF i(1)] nth_mem [OF j(1)] by (auto simp: case_prod_unfold)
  then have "rect_cells (snd (?sc ! i)) \<inter> rect_cells (snd (?sc ! j)) = {}"
    using occ_disjoint [OF neq, of m] by simp
  then show ?thesis using i(2) j(2) by (simp add: case_prod_unfold)
qed

lemma grid_template_ids:
  assumes t: "grid_template m lookup = Inr t"
    and inj: "\<forall>l l' w. lookup l = Some w \<longrightarrow> lookup l' = Some w \<longrightarrow> l = l'"
  shows "distinct (map fst (tpl_places t))"
proof -
  let ?sc = "grid_scan m"
  have eq: "map fst (tpl_places t) = map (\<lambda>l. the (lookup l)) (map fst ?sc)"
    by (simp add: grid_template_Inr(1) [OF t] case_prod_unfold)
  have "inj_on (\<lambda>l. the (lookup l)) (set (map fst ?sc))"
  proof (rule inj_onI)
    fix l l' assume "l \<in> set (map fst ?sc)" "l' \<in> set (map fst ?sc)" and eq: "the (lookup l) = the (lookup l')"
    then have "lookup l \<noteq> None" "lookup l' \<noteq> None" using grid_template_Inr(2) [OF t] by auto
    then show "l = l'" using eq inj by auto
  qed
  then have "distinct (map (\<lambda>l. the (lookup l)) (map fst ?sc))"
    using distinct_grid_scan [of m] distinct_map by blast
  then show ?thesis unfolding eq .
qed

lemma grid_template_rects:
  assumes t: "grid_template m lookup = Inr t" and p: "(w, rc) \<in> set (tpl_places t)"
  shows "gc0 rc < gc1 rc \<and> gc1 rc \<le> tpl_cols t \<and> gr0 rc < gr1 rc \<and> gr1 rc \<le> tpl_rows t"
proof -
  obtain sp where sp: "grid_spans m = Inr sp" using t by (auto simp: grid_template_def split: sum.splits)
  have dims: "tpl_rows t = length m" "tpl_cols t = (if m = [] then 0 else length (hd m))"
    using t sp by (auto simp: grid_template_def split: sum.splits)
  have "rc \<in> set (map snd (tpl_places t))" using p by force
  then obtain l where l: "(l, rc) \<in> set (grid_scan m)" using grid_template_places [OF t] by auto
  have o: "occ m l = rect_cells rc" and ne: "occ m l \<noteq> {}"
    using grid_template_places [OF t] l grid_scan_entry [OF l] by auto
  have rows: "\<forall>i < length m. length (m ! i) = length (hd m)" using grid_spans_Inr(3) [OF sp] .
  have in_m: "r < length m \<and> c < length (hd m)" if "(r, c) \<in> rect_cells rc" for r c
    using that o rows by (auto simp: occ_def cell_at_def split: if_splits)
  have nr: "gr0 rc < gr1 rc \<and> gc0 rc < gc1 rc" using ne o by (auto simp: rect_cells_def)
  then have "(gr1 rc - 1, gc1 rc - 1) \<in> rect_cells rc" by (auto simp: rect_cells_def)
  then have "gr1 rc - 1 < length m \<and> gc1 rc - 1 < length (hd m)" by (rule in_m)
  then show ?thesis using nr dims by auto
qed

section \<open>Witnesses\<close>

lemma is_rect_corner: "is_rect S \<Longrightarrow> (a, b) \<in> S \<Longrightarrow> (c, d) \<in> S \<Longrightarrow> (a, d) \<in> S"
  by (auto simp: is_rect_def)

lemma is_rect_ivl: "is_rect ({a..<b} \<times> {c..<d})"
  by (auto simp: is_rect_def)

lemma grid_roundtrip_witness:
  "grid_spans [[''a'', ''a''], [''.'', ''b'']] = Inr [(''a'', \<lparr>gc0 = 0, gr0 = 0, gc1 = 2, gr1 = 1\<rparr>), (''b'', \<lparr>gc0 = 1, gr0 = 1, gc1 = 2, gr1 = 2\<rparr>)]
   \<and> grid_render (length [[''a'', ''a''], [''.'', ''b'']]) (length (hd [[''a'', ''a''], [''.'', ''b'']])) [(''a'', \<lparr>gc0 = 0, gr0 = 0, gc1 = 2, gr1 = 1\<rparr>), (''b'', \<lparr>gc0 = 1, gr0 = 1, gc1 = 2, gr1 = 2\<rparr>)]
       = [[''a'', ''a''], [''.'', ''b'']]"
proof -
  have s: "grid_spans [[''a'', ''a''], [''.'', ''b'']] = Inr [(''a'', \<lparr>gc0 = 0, gr0 = 0, gc1 = 2, gr1 = 1\<rparr>), (''b'', \<lparr>gc0 = 1, gr0 = 1, gc1 = 2, gr1 = 2\<rparr>)]"
    by code_simp
  show ?thesis using grid_roundtrip [OF s] s by (rule conjI [rotated])
qed

lemma grid_span_error_witness:
  "''a'' \<noteq> filler \<and> occ [[''a'', ''b''], [''b'', ''a'']] ''a'' \<noteq> {} \<and> \<not> is_rect (occ [[''a'', ''b''], [''b'', ''a'']] ''a'')
   \<and> (\<exists>l'. grid_spans [[''a'', ''b''], [''b'', ''a'']] = Inl (Err_Span l') \<and> l' \<noteq> filler
          \<and> occ [[''a'', ''b''], [''b'', ''a'']] l' \<noteq> {} \<and> \<not> is_rect (occ [[''a'', ''b''], [''b'', ''a'']] l'))"
proof -
  let ?m = "[[''a'', ''b''], [''b'', ''a'']]"
  have f: "''a'' \<noteq> filler" by (simp add: filler_def)
  have in1: "(0, 0) \<in> occ ?m ''a''" and in2: "(1, 1) \<in> occ ?m ''a''" and out: "(0, 1) \<notin> occ ?m ''a''"
    by (simp_all add: occ_def cell_at_def)
  then have ne: "occ ?m ''a'' \<noteq> {}" by blast
  have nr: "\<not> is_rect (occ ?m ''a'')" using is_rect_corner [OF _ in1 in2] out by blast
  show ?thesis using grid_span_error [OF f ne nr] f ne nr by blast
qed

lemma grid_ragged_error_witness:
  "(\<forall>l. l \<noteq> filler \<longrightarrow> is_rect (occ [[''a'', ''a''], [''b'']] l)) \<and> 1 < length [[''a'', ''a''], [''b'']]
   \<and> length ([[''a'', ''a''], [''b'']] ! 1) \<noteq> length (hd [[''a'', ''a''], [''b'']])
   \<and> (\<exists>j. grid_spans [[''a'', ''a''], [''b'']] = Inl (Err_Ragged j) \<and> j < length [[''a'', ''a''], [''b'']]
        \<and> length ([[''a'', ''a''], [''b'']] ! j) \<noteq> length (hd [[''a'', ''a''], [''b'']])
        \<and> (\<forall>k < j. length ([[''a'', ''a''], [''b'']] ! k) = length (hd [[''a'', ''a''], [''b'']])))"
proof -
  let ?m = "[[''a'', ''a''], [''b'']]"
  have occ_m: "occ ?m l = (if l = ''a'' then {0..<1} \<times> {0..<2} else if l = ''b'' then {1..<2} \<times> {0..<1} else {0..<0} \<times> {0..<0})" for l
    by (auto simp: occ_def cell_at_def less_Suc_eq nth_Cons split: nat.splits)
  have r: "\<forall>l. l \<noteq> filler \<longrightarrow> is_rect (occ ?m l)"
    using is_rect_ivl [of 0 1 0 2] is_rect_ivl [of 1 2 0 1] is_rect_ivl [of 0 0 0 0] unfolding occ_m by auto
  show ?thesis using grid_ragged_error [OF r, of 1] r by simp
qed

end
