(* ===== verification/Area.thy ===== *)
theory Area
  imports Prelude
begin

text \<open>
  Geometry of text-cell rectangles (src/area.rs). \<open>Edge\<close> is the \<open>bitflags\<close> struct
  over \<open>u8\<close>; \<open>Dim\<close> and \<open>Area\<close> are records of \<open>u16\<close> fields. Every method of
  \<open>Area\<close> is one definition, with Rust's \<open>u16\<close> arithmetic kept as \<open>16 word\<close>
  (so that \<open>+\<close> wraps as a release build does). \<open>split\<close> panics on an edge set that
  is not one of its six match arms; the panic is \<open>None\<close>. The abstract view of an area is
  the set of cells it covers (\<open>cells\<close>), and the lemmas show that \<open>split\<close> partitions
  that set and \<open>trim\<close> shrinks it, as long as the area does not reach past the last
  addressable column or row (\<open>area_wf\<close>).
\<close>

unbundle bit_operations_syntax

section \<open>Edges (bitflags over u8)\<close>

type_synonym edge = u8

definition Edge_NONE :: edge where "Edge_NONE = 0"
definition Edge_TOP :: edge where "Edge_TOP = 1"
definition Edge_BOTTOM :: edge where "Edge_BOTTOM = 2"
definition Edge_LEFT :: edge where "Edge_LEFT = 4"
definition Edge_RIGHT :: edge where "Edge_RIGHT = 8"
definition Edge_TOP_LEFT :: edge where "Edge_TOP_LEFT = Edge_TOP OR Edge_LEFT"
definition Edge_TOP_RIGHT :: edge where "Edge_TOP_RIGHT = Edge_TOP OR Edge_RIGHT"
definition Edge_BOTTOM_LEFT :: edge where "Edge_BOTTOM_LEFT = Edge_BOTTOM OR Edge_LEFT"
definition Edge_BOTTOM_RIGHT :: edge where "Edge_BOTTOM_RIGHT = Edge_BOTTOM OR Edge_RIGHT"
definition Edge_TOP_BOTTOM :: edge where "Edge_TOP_BOTTOM = Edge_TOP OR Edge_BOTTOM"
definition Edge_LEFT_RIGHT :: edge where "Edge_LEFT_RIGHT = Edge_LEFT OR Edge_RIGHT"
definition Edge_ALL :: edge where "Edge_ALL = Edge_TOP_BOTTOM OR Edge_LEFT_RIGHT"

text \<open>\<open>bitflags\<close>' \<open>contains\<close>: every bit of \<open>f\<close> is set in \<open>e\<close>.\<close>

definition edge_contains :: "edge \<Rightarrow> edge \<Rightarrow> bool" where
  "edge_contains e f \<longleftrightarrow> e AND f = f"

lemmas edge_defs = Edge_NONE_def Edge_TOP_def Edge_BOTTOM_def Edge_LEFT_def Edge_RIGHT_def
  Edge_TOP_LEFT_def Edge_TOP_RIGHT_def Edge_BOTTOM_LEFT_def Edge_BOTTOM_RIGHT_def
  Edge_TOP_BOTTOM_def Edge_LEFT_RIGHT_def Edge_ALL_def

section \<open>Dim and Area\<close>

record dim =
  width :: u16
  height :: u16

record area =
  col :: u16
  row :: u16
  dim :: dim

definition dim_new :: "u16 \<Rightarrow> u16 \<Rightarrow> dim" where
  "dim_new w h = \<lparr>width = w, height = h\<rparr>"

definition area_new :: "u16 \<Rightarrow> u16 \<Rightarrow> u16 \<Rightarrow> u16 \<Rightarrow> area" where
  "area_new c r w h = \<lparr>col = c, row = r, dim = dim_new w h\<rparr>"

definition area_width :: "area \<Rightarrow> u16" where
  "area_width a = width (dim a)"

definition area_height :: "area \<Rightarrow> u16" where
  "area_height a = height (dim a)"

definition set_width :: "area \<Rightarrow> u16 \<Rightarrow> area" where
  "set_width a w = a\<lparr>dim := (dim a)\<lparr>width := w\<rparr>\<rparr>"

definition set_height :: "area \<Rightarrow> u16 \<Rightarrow> area" where
  "set_height a h = a\<lparr>dim := (dim a)\<lparr>height := h\<rparr>\<rparr>"

section \<open>split\<close>

definition split_left :: "area \<Rightarrow> u16 \<Rightarrow> area \<times> area" where
  "split_left a w =
     (let left = set_width a (min (area_width a) w);
          right = set_width (a\<lparr>col := col a + area_width left\<rparr>) (area_width a - area_width left)
      in (left, right))"

definition split_right :: "area \<Rightarrow> u16 \<Rightarrow> area \<times> area" where
  "split_right a w =
     (let right0 = set_width a (min (area_width a) w);
          right = right0\<lparr>col := col a + area_width a - area_width right0\<rparr>;
          left = set_width a (area_width a - area_width right)
      in (right, left))"

definition split_horiz :: "area \<Rightarrow> area \<times> area" where
  "split_horiz a = split_left a (area_width a div 2)"

definition split_top :: "area \<Rightarrow> u16 \<Rightarrow> area \<times> area" where
  "split_top a h =
     (let top = set_height a (min (area_height a) h);
          bottom = set_height a (area_height a - area_height top)\<lparr>row := row a + area_height top\<rparr>
      in (top, bottom))"

definition split_bottom :: "area \<Rightarrow> u16 \<Rightarrow> area \<times> area" where
  "split_bottom a h =
     (let bottom0 = set_height a (min (area_height a) h);
          bottom = bottom0\<lparr>row := row a + area_height a - area_height bottom0\<rparr>;
          top = set_height a (area_height a - area_height bottom)
      in (bottom, top))"

definition split_vert :: "area \<Rightarrow> area \<times> area" where
  "split_vert a = split_top a (area_height a div 2)"

text \<open>\<open>split\<close> matches the edge set against six constants; any other set panics.\<close>

definition split :: "area \<Rightarrow> edge \<Rightarrow> u16 \<Rightarrow> (area \<times> area) option" where
  "split a e cells =
     (if e = Edge_LEFT then Some (split_left a cells)
      else if e = Edge_RIGHT then Some (split_right a cells)
      else if e = Edge_LEFT_RIGHT then Some (split_horiz a)
      else if e = Edge_TOP then Some (split_top a cells)
      else if e = Edge_BOTTOM then Some (split_bottom a cells)
      else if e = Edge_TOP_BOTTOM then Some (split_vert a)
      else None)"

section \<open>trim\<close>

definition trim_left :: "area \<Rightarrow> u16 \<Rightarrow> area" where
  "trim_left a n =
     (let c = min (area_width a) n in set_width (a\<lparr>col := col a + c\<rparr>) (area_width a - c))"

definition trim_right :: "area \<Rightarrow> u16 \<Rightarrow> area" where
  "trim_right a n = (let c = min (area_width a) n in set_width a (area_width a - c))"

definition trim_top :: "area \<Rightarrow> u16 \<Rightarrow> area" where
  "trim_top a n =
     (let c = min (area_height a) n in set_height (a\<lparr>row := row a + c\<rparr>) (area_height a - c))"

definition trim_bottom :: "area \<Rightarrow> u16 \<Rightarrow> area" where
  "trim_bottom a n = (let c = min (area_height a) n in set_height a (area_height a - c))"

definition trim :: "area \<Rightarrow> edge \<Rightarrow> u16 \<Rightarrow> area" where
  "trim a e n =
     (let a1 = (if edge_contains e Edge_LEFT then trim_left a n else a);
          a2 = (if edge_contains e Edge_RIGHT then trim_right a1 n else a1);
          a3 = (if edge_contains e Edge_TOP then trim_top a2 n else a2);
          a4 = (if edge_contains e Edge_BOTTOM then trim_bottom a3 n else a3)
      in a4)"

section \<open>Abstract view: the cells an area covers\<close>

definition cells :: "area \<Rightarrow> (nat \<times> nat) set" where
  "cells a = {unat (col a)..<unat (col a) + unat (area_width a)}
             \<times> {unat (row a)..<unat (row a) + unat (area_height a)}"

text \<open>An area that does not reach past the last addressable column and row: the
  \<open>u16\<close> sums the methods compute never wrap.\<close>

definition area_wf :: "area \<Rightarrow> bool" where
  "area_wf a \<longleftrightarrow> unat (col a) + unat (area_width a) < 65536
                 \<and> unat (row a) + unat (area_height a) < 65536"

lemma area_sel_simps [simp]:
  "area_width (set_width a w) = w" "area_height (set_width a w) = area_height a"
  "col (set_width a w) = col a" "row (set_width a w) = row a"
  "area_height (set_height a h) = h" "area_width (set_height a h) = area_width a"
  "col (set_height a h) = col a" "row (set_height a h) = row a"
  "area_width (a\<lparr>col := c\<rparr>) = area_width a" "area_height (a\<lparr>col := c\<rparr>) = area_height a"
  "area_width (a\<lparr>row := r\<rparr>) = area_width a" "area_height (a\<lparr>row := r\<rparr>) = area_height a"
  by (simp_all add: set_width_def set_height_def area_width_def area_height_def)

lemma area_new_sel [simp]:
  "col (area_new c r w h) = c" "row (area_new c r w h) = r"
  "area_width (area_new c r w h) = w" "area_height (area_new c r w h) = h"
  by (simp_all add: area_new_def dim_new_def area_width_def area_height_def)

lemma edge_values:
  "Edge_LEFT_RIGHT = 12" "Edge_TOP_BOTTOM = 3" "Edge_ALL = 15"
  "Edge_TOP_LEFT = 5" "Edge_TOP_RIGHT = 9" "Edge_BOTTOM_LEFT = 6" "Edge_BOTTOM_RIGHT = 10"
  by (simp_all add: edge_defs)

text \<open>C7: \<open>split\<close> panics (here: returns \<open>None\<close>) exactly for the edge sets that are not
  one of its six match arms: a single edge or an opposite pair.\<close>

lemma split_None_iff:
  "split a e n = None \<longleftrightarrow> e \<notin> {Edge_LEFT, Edge_RIGHT, Edge_LEFT_RIGHT, Edge_TOP, Edge_BOTTOM, Edge_TOP_BOTTOM}"
  by (simp add: split_def)

lemma split_left_sel:
  "split_left a n = (l, r) \<Longrightarrow>
     col l = col a \<and> row l = row a \<and> area_width l = min (area_width a) n \<and> area_height l = area_height a \<and>
     col r = col a + min (area_width a) n \<and> row r = row a \<and>
     area_width r = area_width a - min (area_width a) n \<and> area_height r = area_height a"
  by (auto simp: split_left_def Let_def)

lemma cells_split_cols:
  assumes "unat c + w < 65536" "m \<le> w" "unat c' = unat c + m"
  shows "{unat c..<unat c + m} \<union> {unat c'..<unat c' + (w - m)} = {unat c..<unat c + w}"
    and "{unat c..<unat c + m} \<inter> {unat c'..<unat c' + (w - m)} = {}"
  using assms by auto

lemma split_left_partition:
  assumes wf: "area_wf a" and s: "split_left a n = (l, r)"
  shows "cells l \<union> cells r = cells a \<and> cells l \<inter> cells r = {} \<and> area_wf l \<and> area_wf r"
proof -
  let ?m = "min (area_width a) n"
  have m: "unat ?m \<le> unat (area_width a)" by (simp add: u16_nat)
  with wf have c: "unat (col a + ?m) = unat (col a) + unat ?m"
    by (intro unat_add_nowrap_u16) (simp add: area_wf_def)
  from s have sel: "col l = col a" "row l = row a" "area_width l = ?m" "area_height l = area_height a"
     "col r = col a + ?m" "row r = row a" "area_width r = area_width a - ?m" "area_height r = area_height a"
    by (simp_all add: split_left_sel)
  have w: "unat (area_width a - ?m) = unat (area_width a) - unat ?m"
    by (simp add: unat_sub_le)
  show ?thesis using wf m c
    by (auto simp: cells_def area_wf_def sel w)
qed

lemma split_right_sel:
  "split_right a n = (r, l) \<Longrightarrow>
     col r = col a + area_width a - min (area_width a) n \<and> row r = row a \<and>
     area_width r = min (area_width a) n \<and> area_height r = area_height a \<and>
     col l = col a \<and> row l = row a \<and>
     area_width l = area_width a - min (area_width a) n \<and> area_height l = area_height a"
  by (auto simp: split_right_def Let_def)

lemma split_right_partition:
  assumes wf: "area_wf a" and s: "split_right a n = (r, l)"
  shows "cells r \<union> cells l = cells a \<and> cells r \<inter> cells l = {} \<and> area_wf r \<and> area_wf l"
proof -
  let ?m = "min (area_width a) n"
  have m: "unat ?m \<le> unat (area_width a)" by (simp add: u16_nat)
  from wf have e: "unat (col a + area_width a) = unat (col a) + unat (area_width a)"
    by (intro unat_add_nowrap_u16) (simp add: area_wf_def)
  with m have le: "?m \<le> col a + area_width a" by (simp add: word_le_nat_alt)
  have c: "unat (col a + area_width a - ?m) = unat (col a) + unat (area_width a) - unat ?m"
    using unat_sub_le [OF le] e by simp
  from s have sel: "col r = col a + area_width a - ?m" "row r = row a" "area_width r = ?m"
     "area_height r = area_height a" "col l = col a" "row l = row a"
     "area_width l = area_width a - ?m" "area_height l = area_height a"
    by (simp_all add: split_right_sel)
  have w: "unat (area_width a - ?m) = unat (area_width a) - unat ?m"
    by (simp add: unat_sub_le)
  show ?thesis using wf m c
    by (auto simp: cells_def area_wf_def sel w)
qed

lemma split_top_sel:
  "split_top a n = (t, b) \<Longrightarrow>
     col t = col a \<and> row t = row a \<and> area_width t = area_width a \<and> area_height t = min (area_height a) n \<and>
     col b = col a \<and> row b = row a + min (area_height a) n \<and>
     area_width b = area_width a \<and> area_height b = area_height a - min (area_height a) n"
  by (auto simp: split_top_def Let_def)

lemma split_top_partition:
  assumes wf: "area_wf a" and s: "split_top a n = (t, b)"
  shows "cells t \<union> cells b = cells a \<and> cells t \<inter> cells b = {} \<and> area_wf t \<and> area_wf b"
proof -
  let ?m = "min (area_height a) n"
  have m: "unat ?m \<le> unat (area_height a)" by (simp add: u16_nat)
  with wf have c: "unat (row a + ?m) = unat (row a) + unat ?m"
    by (intro unat_add_nowrap_u16) (simp add: area_wf_def)
  from s have sel: "col t = col a" "row t = row a" "area_width t = area_width a" "area_height t = ?m"
     "col b = col a" "row b = row a + ?m" "area_width b = area_width a" "area_height b = area_height a - ?m"
    by (simp_all add: split_top_sel)
  have h: "unat (area_height a - ?m) = unat (area_height a) - unat ?m"
    by (simp add: unat_sub_le)
  show ?thesis using wf m c
    by (auto simp: cells_def area_wf_def sel h)
qed

lemma split_bottom_sel:
  "split_bottom a n = (b, t) \<Longrightarrow>
     col b = col a \<and> row b = row a + area_height a - min (area_height a) n \<and>
     area_width b = area_width a \<and> area_height b = min (area_height a) n \<and>
     col t = col a \<and> row t = row a \<and>
     area_width t = area_width a \<and> area_height t = area_height a - min (area_height a) n"
  by (auto simp: split_bottom_def Let_def)

lemma split_bottom_partition:
  assumes wf: "area_wf a" and s: "split_bottom a n = (b, t)"
  shows "cells b \<union> cells t = cells a \<and> cells b \<inter> cells t = {} \<and> area_wf b \<and> area_wf t"
proof -
  let ?m = "min (area_height a) n"
  have m: "unat ?m \<le> unat (area_height a)" by (simp add: u16_nat)
  from wf have e: "unat (row a + area_height a) = unat (row a) + unat (area_height a)"
    by (intro unat_add_nowrap_u16) (simp add: area_wf_def)
  with m have le: "?m \<le> row a + area_height a" by (simp add: word_le_nat_alt)
  have c: "unat (row a + area_height a - ?m) = unat (row a) + unat (area_height a) - unat ?m"
    using unat_sub_le [OF le] e by simp
  from s have sel: "col b = col a" "row b = row a + area_height a - ?m" "area_width b = area_width a"
     "area_height b = ?m" "col t = col a" "row t = row a"
     "area_width t = area_width a" "area_height t = area_height a - ?m"
    by (simp_all add: split_bottom_sel)
  have h: "unat (area_height a - ?m) = unat (area_height a) - unat ?m"
    by (simp add: unat_sub_le)
  show ?thesis using wf m c
    by (auto simp: cells_def area_wf_def sel h)
qed


lemma split_Some_cases:
  assumes "split a e n = Some (p, q)"
  obtains "split_left a n = (p, q)" | "split_right a n = (p, q)"
    | "split_left a (area_width a div 2) = (p, q)" | "split_top a n = (p, q)"
    | "split_bottom a n = (p, q)" | "split_top a (area_height a div 2) = (p, q)"
  using assms unfolding split_def split_horiz_def split_vert_def
  by (cases "e = Edge_LEFT"; cases "e = Edge_RIGHT"; cases "e = Edge_LEFT_RIGHT";
      cases "e = Edge_TOP"; cases "e = Edge_BOTTOM"; cases "e = Edge_TOP_BOTTOM") simp_all

text \<open>C5: on an area that fits the \<open>u16\<close> coordinate space, every successful \<open>split\<close>
  partitions the area's cells into the two returned areas, and both again fit.\<close>

lemma split_partition:
  assumes wf: "area_wf a" and s: "split a e n = Some (p, q)"
  shows "cells p \<union> cells q = cells a \<and> cells p \<inter> cells q = {} \<and> area_wf p \<and> area_wf q"
  using s
proof (cases rule: split_Some_cases)
qed (auto dest: split_left_partition [OF wf] split_right_partition [OF wf]
       split_top_partition [OF wf] split_bottom_partition [OF wf])

lemma split_partition_witness:
  "area_wf (area_new 3 4 10 6) \<and> split (area_new 3 4 10 6) Edge_LEFT 4 = Some (area_new 3 4 4 6, area_new 7 4 6 6)
   \<and> cells (area_new 3 4 4 6) \<union> cells (area_new 7 4 6 6) = cells (area_new 3 4 10 6)
   \<and> cells (area_new 3 4 4 6) \<inter> cells (area_new 7 4 6 6) = {}"
proof -
  have wf: "area_wf (area_new 3 4 10 6)" by (simp add: area_wf_def)
  have s: "split (area_new 3 4 10 6) Edge_LEFT 4 = Some (area_new 3 4 4 6, area_new 7 4 6 6)"
    by (simp add: split_def split_left_def set_width_def area_new_def area_width_def dim_new_def)
  show ?thesis using split_partition [OF wf s] wf s by simp
qed

lemma trim_left_sel:
  "col (trim_left a n) = col a + min (area_width a) n" "row (trim_left a n) = row a"
  "area_width (trim_left a n) = area_width a - min (area_width a) n"
  "area_height (trim_left a n) = area_height a"
  by (simp_all add: trim_left_def Let_def)

lemma trim_right_sel:
  "col (trim_right a n) = col a" "row (trim_right a n) = row a"
  "area_width (trim_right a n) = area_width a - min (area_width a) n"
  "area_height (trim_right a n) = area_height a"
  by (simp_all add: trim_right_def Let_def)

lemma trim_top_sel:
  "col (trim_top a n) = col a" "row (trim_top a n) = row a + min (area_height a) n"
  "area_width (trim_top a n) = area_width a"
  "area_height (trim_top a n) = area_height a - min (area_height a) n"
  by (simp_all add: trim_top_def Let_def)

lemma trim_bottom_sel:
  "col (trim_bottom a n) = col a" "row (trim_bottom a n) = row a"
  "area_width (trim_bottom a n) = area_width a"
  "area_height (trim_bottom a n) = area_height a - min (area_height a) n"
  by (simp_all add: trim_bottom_def Let_def)

lemmas trim_sel = trim_left_sel trim_right_sel trim_top_sel trim_bottom_sel

text \<open>C9: the width left by \<open>trim\<close> is the width minus the cells trimmed on each
  requested side, saturating at zero (\<open>nat\<close> subtraction): never negative, never wrapped.\<close>

lemma trim_width:
  "unat (area_width (trim a e n)) =
     unat (area_width a) - (if edge_contains e Edge_LEFT then unat n else 0)
                         - (if edge_contains e Edge_RIGHT then unat n else 0)"
  by (simp add: trim_def Let_def trim_sel u16_nat)

lemma trim_height:
  "unat (area_height (trim a e n)) =
     unat (area_height a) - (if edge_contains e Edge_TOP then unat n else 0)
                          - (if edge_contains e Edge_BOTTOM then unat n else 0)"
  by (simp add: trim_def Let_def trim_sel u16_nat)

lemma trim_left_within:
  assumes "area_wf a"
  shows "cells (trim_left a n) \<subseteq> cells a \<and> area_wf (trim_left a n)"
proof -
  let ?m = "min (area_width a) n"
  have m: "unat ?m \<le> unat (area_width a)" by (simp add: u16_nat)
  with assms have c: "unat (col a + ?m) = unat (col a) + unat ?m"
    by (intro unat_add_nowrap_u16) (simp add: area_wf_def)
  show ?thesis using assms m
    by (auto simp: cells_def area_wf_def trim_left_sel c u16_nat)
qed

lemma trim_right_within:
  "area_wf a \<Longrightarrow> cells (trim_right a n) \<subseteq> cells a \<and> area_wf (trim_right a n)"
  by (auto simp: cells_def area_wf_def trim_right_sel u16_nat)

lemma trim_top_within:
  assumes "area_wf a"
  shows "cells (trim_top a n) \<subseteq> cells a \<and> area_wf (trim_top a n)"
proof -
  let ?m = "min (area_height a) n"
  have m: "unat ?m \<le> unat (area_height a)" by (simp add: u16_nat)
  with assms have c: "unat (row a + ?m) = unat (row a) + unat ?m"
    by (intro unat_add_nowrap_u16) (simp add: area_wf_def)
  show ?thesis using assms m
    by (auto simp: cells_def area_wf_def trim_top_sel c u16_nat)
qed

lemma trim_bottom_within:
  "area_wf a \<Longrightarrow> cells (trim_bottom a n) \<subseteq> cells a \<and> area_wf (trim_bottom a n)"
  by (auto simp: cells_def area_wf_def trim_bottom_sel u16_nat)

text \<open>C8: trimming keeps an area inside the original area, and keeps it well formed.\<close>

lemma trim_within:
  assumes "area_wf a"
  shows "cells (trim a e n) \<subseteq> cells a \<and> area_wf (trim a e n)"
proof -
  let ?a1 = "if edge_contains e Edge_LEFT then trim_left a n else a"
  let ?a2 = "if edge_contains e Edge_RIGHT then trim_right ?a1 n else ?a1"
  let ?a3 = "if edge_contains e Edge_TOP then trim_top ?a2 n else ?a2"
  have 1: "cells ?a1 \<subseteq> cells a \<and> area_wf ?a1" using assms trim_left_within by auto
  have 2: "cells ?a2 \<subseteq> cells a \<and> area_wf ?a2" using 1 trim_right_within [of ?a1 n] by auto
  have 3: "cells ?a3 \<subseteq> cells a \<and> area_wf ?a3" using 2 trim_top_within [of ?a2 n] by auto
  show ?thesis using 3 trim_bottom_within [of ?a3 n] unfolding trim_def Let_def by auto
qed

text \<open>The unit test \<open>area_trim\<close> of src/area.rs: trimming one cell from the left of
  a 5 by 7 area at the origin gives the 4 by 7 area at column 1.\<close>

lemma area_trim_test: "trim (area_new 0 0 5 7) Edge_LEFT 1 = area_new 1 0 4 7"
  by (simp add: trim_def trim_left_def edge_contains_def edge_defs set_width_def area_new_def
      area_width_def dim_new_def)

text \<open>C25: \<open>split_left\<close> computes the right part's column as a \<open>u16\<close> sum, which wraps:
  for every area and width it is the area's column plus the left width modulo 65536, and
  the right part starts before the area exactly when that sum passes column 65535. Since
  \<open>Area::new\<close> accepts such areas, the well-formedness hypothesis of C5 and C6 is needed.\<close>

lemma split_left_wraps:
  assumes "split a Edge_LEFT n = Some (l, r)"
  shows "unat (col r) = (unat (col a) + unat (area_width l)) mod 65536
    \<and> (col r < col a \<longleftrightarrow> 65536 \<le> unat (col a) + unat (area_width l))"
proof -
  from assms have p: "split_left a n = (l, r)" by (simp add: split_def)
  let ?s = "unat (col a) + unat (area_width l)"
  have c: "unat (col r) = ?s mod 65536"
    using split_left_sel [OF p] by (simp add: unat_word_ariths)
  have "?s < 65536 + 65536" using unat_u16_less [of "col a"] unat_u16_less [of "area_width l"] by linarith
  moreover have "unat (area_width l) < 65536" by (rule unat_u16_less)
  ultimately have "col r < col a \<longleftrightarrow> 65536 \<le> ?s"
    using c by (cases "65536 \<le> ?s") (simp_all add: word_less_nat_alt le_mod_geq del: unat_u16_less)
  with c show ?thesis by blast
qed

text \<open>C6: \<open>split\<close> from the left edge gives a left part as wide as requested (clamped to
  the area) at the area's column, and a right part starting right after it with the rest
  of the width; rows and heights are unchanged.\<close>

lemma split_left_exact:
  assumes wf: "area_wf a" and s: "split a Edge_LEFT n = Some (l, r)"
  shows "col l = col a \<and> unat (area_width l) = min (unat (area_width a)) (unat n)
    \<and> unat (area_width l) + unat (area_width r) = unat (area_width a)
    \<and> unat (col r) = unat (col l) + unat (area_width l)
    \<and> row l = row a \<and> row r = row a \<and> area_height l = area_height a \<and> area_height r = area_height a"
proof -
  let ?m = "min (area_width a) n"
  from s have p: "split_left a n = (l, r)" by (simp add: split_def)
  have m: "unat ?m \<le> unat (area_width a)" by (simp add: u16_nat)
  with wf have c: "unat (col a + ?m) = unat (col a) + unat ?m"
    by (intro unat_add_nowrap_u16) (simp add: area_wf_def)
  show ?thesis using split_left_sel [OF p] m c by (simp add: u16_nat)
qed

lemma split_left_exact_witness:
  "col (area_new 3 4 4 6) = col (area_new 3 4 10 6) \<and> unat (area_width (area_new 3 4 4 6)) = 4
   \<and> unat (col (area_new 7 4 6 6)) = 7"
proof -
  have wf: "area_wf (area_new 3 4 10 6)" by (simp add: area_wf_def)
  have s: "split (area_new 3 4 10 6) Edge_LEFT 4 = Some (area_new 3 4 4 6, area_new 7 4 6 6)"
    by (simp add: split_def split_left_def set_width_def area_new_def area_width_def dim_new_def)
  show ?thesis using split_left_exact [OF wf s] by simp
qed

text \<open>C24: \<open>split\<close> on the pair LEFT+RIGHT halves the width: the first part is the
  left one, at the area's column, with the width rounded down; the second starts right
  after it with the rest; rows and heights are unchanged.\<close>

lemma split_horiz_halves:
  assumes "split a Edge_LEFT_RIGHT n = Some (l, r)"
  shows "col l = col a \<and> unat (area_width l) = unat (area_width a) div 2
    \<and> col r = col a + area_width l \<and> unat (area_width r) = unat (area_width a) - unat (area_width a) div 2
    \<and> row l = row a \<and> row r = row a \<and> area_height l = area_height a \<and> area_height r = area_height a"
proof -
  from assms have p: "split_left a (area_width a div 2) = (l, r)"
    by (simp add: split_def split_horiz_def edge_values edge_defs)
  have le: "area_width a div 2 \<le> area_width a" by (simp add: word_le_nat_alt unat_div)
  then have "min (area_width a) (area_width a div 2) = area_width a div 2" by (simp add: min_def)
  then show ?thesis using split_left_sel [OF p] le by (simp add: unat_div u16_nat)
qed

lemma split_horiz_halves_witness:
  "split (area_new 2 0 7 1) Edge_LEFT_RIGHT 0 = Some (area_new 2 0 3 1, area_new 5 0 4 1)
   \<and> col (area_new 2 0 3 1) = col (area_new 2 0 7 1) \<and> unat (area_width (area_new 2 0 3 1)) = 7 div 2
   \<and> col (area_new 5 0 4 1) = col (area_new 2 0 7 1) + area_width (area_new 2 0 3 1)"
proof -
  have s: "split (area_new 2 0 7 1) Edge_LEFT_RIGHT 0 = Some (area_new 2 0 3 1, area_new 5 0 4 1)"
    by (simp add: split_def split_horiz_def split_left_def set_width_def area_new_def area_width_def
        dim_new_def edge_defs)
  show ?thesis using s split_horiz_halves [OF s] by simp
qed

lemma split_left_wraps_witness:
  "split (area_new 65000 0 1000 1) Edge_LEFT 600 = Some (area_new 65000 0 600 1, area_new 64 0 400 1)
   \<and> col (area_new 64 0 400 1) < col (area_new 65000 0 1000 1)
   \<and> \<not> area_wf (area_new 65000 0 1000 1)"
proof -
  have s: "split (area_new 65000 0 1000 1) Edge_LEFT 600 = Some (area_new 65000 0 600 1, area_new 64 0 400 1)"
    by (simp add: split_def split_left_def set_width_def area_new_def area_width_def dim_new_def)
  have "65536 \<le> unat (col (area_new 65000 0 1000 1)) + unat (area_width (area_new 65000 0 600 1))"
    by (simp add: area_new_def area_width_def dim_new_def)
  then show ?thesis using s split_left_wraps [OF s]
    by (simp add: area_wf_def area_new_def area_width_def dim_new_def)
qed

lemma trim_within_witness:
  "cells (trim (area_new 0 0 5 7) Edge_LEFT 1) \<subseteq> cells (area_new 0 0 5 7)"
proof -
  have wf: "area_wf (area_new 0 0 5 7)" by (simp add: area_wf_def)
  show ?thesis using trim_within [OF wf, of Edge_LEFT 1] by simp
qed

end
