(* ===== verification/Label.thy ===== *)
theory Label
  imports Prelude
begin

text \<open>
  The text label widget (src/widget/label.rs) and the size preference it reports.
  \<open>AreaBound\<close> (src/layout/bounds.rs, not among the sources) is modelled from the spec
  as inclusive column and row ranges. \<open>Label::bounds\<close> converts the text's display
  width to \<open>u16\<close> with \<open>as\<close>, which truncates modulo 65536; the rest of its arithmetic
  stays in range. The lemmas show that the reported minimum area holds the text and
  that the column range is at most 24 wide, and exhibit the truncation.
\<close>

record area_bound =
  col_min :: u16
  col_max :: u16
  row_min :: u16
  row_max :: u16

definition area_bound_default :: area_bound where
  "area_bound_default = \<lparr>col_min = 0, col_max = 65535, row_min = 0, row_max = 65535\<rparr>"

definition with_columns :: "area_bound \<Rightarrow> u16 \<Rightarrow> u16 \<Rightarrow> area_bound" where
  "with_columns b lo hi = b\<lparr>col_min := lo, col_max := hi\<rparr>"

definition with_rows :: "area_bound \<Rightarrow> u16 \<Rightarrow> u16 \<Rightarrow> area_bound" where
  "with_rows b lo hi = b\<lparr>row_min := lo, row_max := hi\<rparr>"

record label =
  label_txt :: string

definition label_new :: "string \<Rightarrow> label" where
  "label_new s = \<lparr>label_txt = s\<rparr>"

text \<open>\<open>UnicodeWidthStr::width\<close>: the display width; for the ASCII strings of the model
  every character is one column.\<close>

definition text_width :: "string \<Rightarrow> nat" where
  "text_width s = length s"

definition label_bounds :: "label \<Rightarrow> area_bound" where
  "label_bounds l =
     (let b = area_bound_default;
          w = (word_of_nat (text_width (label_txt l)) :: u16);
          rows = w div 24 + 1;
          cols = w div rows + 1
      in with_rows (with_columns b cols (cols + 2)) rows rows)"

lemma label_bounds_mod:
  "unat (row_min (label_bounds l)) = text_width (label_txt l) mod 65536 div 24 + 1
    \<and> unat (col_min (label_bounds l)) =
        text_width (label_txt l) mod 65536 div (text_width (label_txt l) mod 65536 div 24 + 1) + 1
    \<and> unat (col_max (label_bounds l)) = unat (col_min (label_bounds l)) + 2
    \<and> row_max (label_bounds l) = row_min (label_bounds l)"
proof -
  let ?n = "text_width (label_txt l) mod 65536"
  let ?w = "word_of_nat (text_width (label_txt l)) :: u16"
  have w: "unat ?w = ?n" by (simp add: unat_of_nat)
  have q: "?n div 24 < 65535" by (intro less_mult_imp_div_less) simp
  have r: "unat (?w div 24 + 1) = ?n div 24 + 1"
    using w q by (subst unat_add_nowrap_u16) (simp_all add: unat_div)
  have d: "?n div (?n div 24 + 1) < 24"
    by (simp add: div_less_iff_less_mult)
  have c: "unat (?w div (?w div 24 + 1) + 1) = ?n div (?n div 24 + 1) + 1"
    using w r d by (subst unat_add_nowrap_u16) (simp_all add: unat_div)
  have c2: "unat (?w div (?w div 24 + 1) + 1 + 2) = ?n div (?n div 24 + 1) + 3"
    using c d by (subst unat_add_nowrap_u16) simp_all
  show ?thesis using r c c2
    by (simp add: label_bounds_def Let_def with_rows_def with_columns_def)
qed

lemma label_bounds_nat:
  assumes "text_width (label_txt l) < 65536"
  shows "unat (row_min (label_bounds l)) = text_width (label_txt l) div 24 + 1
    \<and> unat (col_min (label_bounds l)) = text_width (label_txt l) div (text_width (label_txt l) div 24 + 1) + 1
    \<and> unat (col_max (label_bounds l)) = unat (col_min (label_bounds l)) + 2
    \<and> row_max (label_bounds l) = row_min (label_bounds l)"
  using label_bounds_mod [of l] assms by simp

text \<open>For a text narrower than 65536 columns, the minimum area a label asks for
  (columns times rows) is larger than the text's width, the minimum column count lies
  between 1 and 24, the column range is two wide and the row range is a single value.\<close>

lemma label_bounds_fit:
  assumes "text_width (label_txt l) < 65536"
  shows "text_width (label_txt l) < unat (col_min (label_bounds l)) * unat (row_min (label_bounds l))
    \<and> 1 \<le> unat (col_min (label_bounds l)) \<and> unat (col_min (label_bounds l)) \<le> 24
    \<and> unat (col_max (label_bounds l)) = unat (col_min (label_bounds l)) + 2
    \<and> row_max (label_bounds l) = row_min (label_bounds l)"
proof -
  let ?n = "text_width (label_txt l)"
  have d: "?n div (?n div 24 + 1) < 24" by (simp add: div_less_iff_less_mult)
  have f: "?n < (?n div (?n div 24 + 1) + 1) * (?n div 24 + 1)" by (rule lt_div_succ_mult) simp
  show ?thesis using label_bounds_nat [OF assms] d f by (simp add: mult.commute)
qed

text \<open>C23: the \<open>as u16\<close> conversion in \<open>Label::bounds\<close> reduces the text width
  modulo 65536, so the label asks for room for its text (more cells than the text is
  wide) exactly when the text is narrower than 65536 columns; every wider text gets fewer
  cells than it has columns.\<close>

lemma label_width_truncation:
  "text_width (label_txt l) < unat (col_min (label_bounds l)) * unat (row_min (label_bounds l))
     \<longleftrightarrow> text_width (label_txt l) < 65536"
proof
  assume lt: "text_width (label_txt l) < 65536"
  let ?n = "text_width (label_txt l)"
  have f: "?n < (?n div (?n div 24 + 1) + 1) * (?n div 24 + 1)" by (rule lt_div_succ_mult) simp
  show "?n < unat (col_min (label_bounds l)) * unat (row_min (label_bounds l))"
    using label_bounds_nat [OF lt] f by simp
next
  let ?n = "text_width (label_txt l)" and ?m = "text_width (label_txt l) mod 65536"
  let ?r = "?m div 24 + 1"
  assume fits: "?n < unat (col_min (label_bounds l)) * unat (row_min (label_bounds l))"
  have "(?m div ?r + 1) * ?r = ?m div ?r * ?r + ?r" by (simp add: algebra_simps)
  also have "\<dots> \<le> ?m + ?r" using div_times_less_eq_dividend [of ?m ?r] by linarith
  also have "\<dots> < ?m + 65536" by (intro add_strict_left_mono) (simp add: less_mult_imp_div_less)
  finally have "unat (col_min (label_bounds l)) * unat (row_min (label_bounds l)) < ?m + 65536"
    using label_bounds_mod [of l] by simp
  moreover have "?m + 65536 \<le> ?n" if big: "\<not> ?n < 65536"
  proof -
    have "1 \<le> ?n div 65536" using big by (simp add: div_greater_zero_iff)
    then have "65536 \<le> ?n div 65536 * 65536" by simp
    then show ?thesis using div_mult_mod_eq [of ?n 65536] by linarith
  qed
  ultimately show "?n < 65536" using fits by linarith
qed


lemma label_bounds_fit_witness:
  "text_width (label_txt (label_new ''hello'')) <
     unat (col_min (label_bounds (label_new ''hello''))) * unat (row_min (label_bounds (label_new ''hello'')))"
proof -
  have "text_width (label_txt (label_new ''hello'')) < 65536"
    by (simp add: label_new_def text_width_def)
  then show ?thesis using label_bounds_fit by blast
qed

end
