(* ===== verification/Solver.thy ===== *)
theory Solver
  imports Grid Area Label
begin

text \<open>
  The layout solver (spec 4.2 and 4.4; the layout module is not among the sources, so
  this theory is modelled from the spec). Each placement of a validated template gives,
  per axis, a span of tracks with the widget's minimum and whether its maximum is
  unbounded (\<open>axis_span\<close>, built by \<open>col_spans\<close> and \<open>row_spans\<close> from the widget's
  \<open>AreaBound\<close>; the default maximum 65535 stands for no maximum). A track's minimum is the
  largest share of a spanning widget's minimum, shares split evenly with the remainder on
  the first tracks (\<open>span_share\<close>, \<open>track_min\<close>); a track is flexible when a widget with
  no maximum crosses it (\<open>track_flex\<close>). \<open>solve_axis\<close> scales the minimums down when
  they exceed the extent (\<open>shrink\<close>: floored shares, remainder to the first tracks) and
  otherwise hands the leftover to the flexible tracks in equal shares (\<open>grow\<close>: remainder
  to the first flexible tracks). Because a flexible track has no maximum, the spec's
  further water-filling passes never start, and one pass is the whole loop. Ratios are
  exact (\<open>nat\<close> division) rather than floating point. \<open>offsets\<close> are the prefix sums,
  and \<open>solve_layout\<close> turns each placement's track ranges into an \<open>Area\<close> inside the
  box; \<open>layout\<close> composes it with the template parser.

  The lemmas show that the tracks fill the extent exactly when it is short or some track
  is flexible and never exceed it; that with enough room every track and every widget
  gets at least its minimum; that every resolved area lies inside the box; and the
  spec's three scenarios.
\<close>

record axis_span =
  sp_start :: nat
  sp_end :: nat
  sp_min :: nat
  sp_flex :: bool

definition span_has :: "axis_span \<Rightarrow> nat \<Rightarrow> bool" where
  "span_has sp t \<longleftrightarrow> sp_start sp \<le> t \<and> t < sp_end sp"

definition span_share :: "axis_span \<Rightarrow> nat \<Rightarrow> nat" where
  "span_share sp t =
     (let k = sp_end sp - sp_start sp
      in sp_min sp div k + (if t - sp_start sp < sp_min sp mod k then 1 else 0))"

definition track_min :: "axis_span list \<Rightarrow> nat \<Rightarrow> nat" where
  "track_min sps t = fold (\<lambda>sp m. if span_has sp t then max m (span_share sp t) else m) sps 0"

definition track_flex :: "axis_span list \<Rightarrow> nat \<Rightarrow> bool" where
  "track_flex sps t \<longleftrightarrow> list_ex (\<lambda>sp. span_has sp t \<and> sp_flex sp) sps"

fun shrink :: "nat \<Rightarrow> nat \<Rightarrow> nat \<Rightarrow> nat list \<Rightarrow> nat list" where
  "shrink avail tot r [] = []"
| "shrink avail tot r (m # ms) =
     (m * avail div tot + (if 0 < r then 1 else 0)) # shrink avail tot (r - 1) ms"

fun grow :: "nat \<Rightarrow> nat \<Rightarrow> (nat \<times> bool) list \<Rightarrow> nat list" where
  "grow q r [] = []"
| "grow q r ((m, f) # ts) =
     (if f then (m + q + (if 0 < r then 1 else 0)) # grow q (r - 1) ts else m # grow q r ts)"

definition solve_axis :: "nat list \<Rightarrow> bool list \<Rightarrow> nat \<Rightarrow> nat list" where
  "solve_axis mins flex avail =
     (let tot = sum_list mins
      in if avail < tot
         then shrink avail tot (avail - sum_list (map (\<lambda>m. m * avail div tot) mins)) mins
         else (let k = count_list flex True; left = avail - tot
               in if k = 0 then mins else grow (left div k) (left mod k) (zip mins flex)))"

fun offsets :: "nat \<Rightarrow> nat list \<Rightarrow> nat list" where
  "offsets base [] = [base]"
| "offsets base (x # xs) = base # offsets (base + x) xs"

definition axis_mins :: "axis_span list \<Rightarrow> nat \<Rightarrow> nat list" where
  "axis_mins sps n = map (track_min sps) [0..<n]"

definition axis_flex :: "axis_span list \<Rightarrow> nat \<Rightarrow> bool list" where
  "axis_flex sps n = map (track_flex sps) [0..<n]"

definition axis_solve :: "axis_span list \<Rightarrow> nat \<Rightarrow> nat \<Rightarrow> nat list" where
  "axis_solve sps n avail = solve_axis (axis_mins sps n) (axis_flex sps n) avail"

definition col_spans :: "('w \<Rightarrow> area_bound) \<Rightarrow> ('w \<times> grid_rect) list \<Rightarrow> axis_span list" where
  "col_spans bounds ps = map (\<lambda>(w, rc). \<lparr>sp_start = gc0 rc, sp_end = gc1 rc,
     sp_min = unat (col_min (bounds w)), sp_flex = (col_max (bounds w) = 65535)\<rparr>) ps"

definition row_spans :: "('w \<Rightarrow> area_bound) \<Rightarrow> ('w \<times> grid_rect) list \<Rightarrow> axis_span list" where
  "row_spans bounds ps = map (\<lambda>(w, rc). \<lparr>sp_start = gr0 rc, sp_end = gr1 rc,
     sp_min = unat (row_min (bounds w)), sp_flex = (row_max (bounds w) = 65535)\<rparr>) ps"

definition col_offsets :: "('w \<Rightarrow> area_bound) \<Rightarrow> area \<Rightarrow> 'w template \<Rightarrow> nat list" where
  "col_offsets bounds bb t =
     offsets 0 (axis_solve (col_spans bounds (tpl_places t)) (tpl_cols t) (unat (area_width bb)))"

definition row_offsets :: "('w \<Rightarrow> area_bound) \<Rightarrow> area \<Rightarrow> 'w template \<Rightarrow> nat list" where
  "row_offsets bounds bb t =
     offsets 0 (axis_solve (row_spans bounds (tpl_places t)) (tpl_rows t) (unat (area_height bb)))"

definition place_area :: "nat list \<Rightarrow> nat list \<Rightarrow> area \<Rightarrow> grid_rect \<Rightarrow> area" where
  "place_area co ro bb rc =
     area_new (col bb + word_of_nat (co ! gc0 rc)) (row bb + word_of_nat (ro ! gr0 rc))
              (word_of_nat (co ! gc1 rc - co ! gc0 rc)) (word_of_nat (ro ! gr1 rc - ro ! gr0 rc))"

definition solve_layout :: "('w \<Rightarrow> area_bound) \<Rightarrow> area \<Rightarrow> 'w template \<Rightarrow> ('w \<times> area) list" where
  "solve_layout bounds bb t =
     map (\<lambda>(w, rc). (w, place_area (col_offsets bounds bb t) (row_offsets bounds bb t) bb rc)) (tpl_places t)"

definition tpl_wf :: "'w template \<Rightarrow> bool" where
  "tpl_wf t \<longleftrightarrow> list_all (\<lambda>(w, rc). gc0 rc < gc1 rc \<and> gc1 rc \<le> tpl_cols t \<and> gr0 rc < gr1 rc \<and> gr1 rc \<le> tpl_rows t)
                   (tpl_places t)"

definition layout :: "glabel list list \<Rightarrow> (glabel \<Rightarrow> 'w option) \<Rightarrow> ('w \<Rightarrow> area_bound) \<Rightarrow> area
    \<Rightarrow> grid_error + ('w \<times> area) list" where
  "layout m lookup bounds bb =
     (case grid_template m lookup of Inl e \<Rightarrow> Inl e | Inr t \<Rightarrow> Inr (solve_layout bounds bb t))"

section \<open>Track arithmetic\<close>

lemma length_shrink [simp]: "length (shrink a t r ms) = length ms"
  by (induction a t r ms rule: shrink.induct) simp_all

lemma sum_shrink: "sum_list (shrink a t r ms) = sum_list (map (\<lambda>m. m * a div t) ms) + min r (length ms)"
  by (induction a t r ms rule: shrink.induct) (auto simp: min_def)

lemma floor_sum_bounds:
  assumes "0 < (t :: nat)"
  shows "sum_list (map (\<lambda>m. m * a div t) ms) * t \<le> a * sum_list ms"
    "ms \<noteq> [] \<Longrightarrow> a * sum_list ms < (sum_list (map (\<lambda>m. m * a div t) ms) + length ms) * t"
proof -
  have "sum_list (map (\<lambda>m. m * a div t * t) ms) \<le> sum_list (map (\<lambda>m. m * a) ms)"
    by (rule sum_list_mono) (rule div_times_less_eq_dividend)
  then show "sum_list (map (\<lambda>m. m * a div t) ms) * t \<le> a * sum_list ms"
    by (simp add: sum_list_mult_const sum_list_const_mult mult.commute)
  assume ne: "ms \<noteq> []"
  have "sum_list (map (\<lambda>m. m * a) ms) < sum_list (map (\<lambda>m. (m * a div t + 1) * t) ms)"
    using ne by (rule sum_list_strict_mono) (rule lt_div_succ_mult [OF assms])
  then show "a * sum_list ms < (sum_list (map (\<lambda>m. m * a div t) ms) + length ms) * t"
    by (simp add: sum_list_mult_const sum_list_const_mult sum_list_addf sum_list_triv mult.commute distrib_left)
qed

lemma shrink_remainder:
  assumes "a < sum_list ms"
  shows "sum_list (map (\<lambda>m. m * a div sum_list ms) ms) \<le> a"
    "a - sum_list (map (\<lambda>m. m * a div sum_list ms) ms) < length ms"
proof -
  let ?t = "sum_list ms" and ?F = "sum_list (map (\<lambda>m. m * a div sum_list ms) ms)"
  have t: "0 < ?t" using assms by simp
  have ne: "ms \<noteq> []" using assms by auto
  have b: "?F * ?t \<le> a * ?t" "a * ?t < (?F + length ms) * ?t"
    using floor_sum_bounds [OF t, where a = a and ms = ms] ne by auto
  then show "?F \<le> a" using t by simp
  have "a < ?F + length ms" using b(2) by (simp only: mult_less_cancel2)
  moreover have "0 < length ms" using ne by simp
  moreover have "\<And>x y z :: nat. x < y + z \<Longrightarrow> 0 < z \<Longrightarrow> x - y < z" by arith
  ultimately show "a - ?F < length ms" by blast
qed

lemma length_grow [simp]: "length (grow q r ts) = length ts"
  by (induction q r ts rule: grow.induct) simp_all

lemma sum_grow:
  "sum_list (grow q r ts) = sum_list (map fst ts) + q * count_list (map snd ts) True + min r (count_list (map snd ts) True)"
  by (induction q r ts rule: grow.induct) (auto simp: min_def)

lemma grow_ge_all: "list_all2 (\<le>) (map fst ts) (grow q r ts)"
  by (induction q r ts rule: grow.induct) simp_all

lemma grow_ge: "i < length ts \<Longrightarrow> fst (ts ! i) \<le> grow q r ts ! i"
  using list_all2_nthD [OF grow_ge_all [of ts q r], of i] by simp

lemma count_list_pos: "0 < count_list xs x \<longleftrightarrow> x \<in> set xs"
  by (induction xs) auto

lemma length_solve_axis [simp]: "length flex = length mins \<Longrightarrow> length (solve_axis mins flex avail) = length mins"
  by (simp add: solve_axis_def Let_def)

lemma sum_solve_axis:
  assumes "length flex = length mins"
  shows "sum_list (solve_axis mins flex avail) = (if avail < sum_list mins \<or> True \<in> set flex then avail else sum_list mins)"
proof (cases "avail < sum_list mins")
  case True
  then show ?thesis using shrink_remainder [OF True] by (simp add: solve_axis_def Let_def sum_shrink)
next
  case False
  let ?k = "count_list flex True" and ?l = "avail - sum_list mins"
  have z: "map snd (zip mins flex) = flex" "map fst (zip mins flex) = mins" using assms by simp_all
  show ?thesis
  proof (cases "True \<in> set flex")
    case True
    then have k: "0 < ?k" by (simp add: count_list_pos)
    then have "min (?l mod ?k) ?k = ?l mod ?k" by simp
    moreover have "?l div ?k * ?k + ?l mod ?k = ?l" by (rule div_mult_mod_eq)
    ultimately have "?l div ?k * ?k + min (?l mod ?k) ?k = ?l" by simp
    then show ?thesis using False True k by (simp add: solve_axis_def Let_def sum_grow z algebra_simps)
  next
    case nf: False
    then have "?k = 0" using count_list_pos [of flex True] by simp
    then show ?thesis using False nf by (simp add: solve_axis_def)
  qed
qed

lemma solve_axis_ge_min:
  assumes "length flex = length mins" "sum_list mins \<le> avail" "i < length mins"
  shows "mins ! i \<le> solve_axis mins flex avail ! i"
  using grow_ge [of i "zip mins flex"] assms by (simp add: solve_axis_def Let_def)

text \<open>One axis. The resolved tracks never take more than the available extent; they
  take all of it when the minimums do not fit (the scaled shares plus the remainder add
  up exactly) or when some track is flexible; and when the minimums fit, every track gets
  at least its minimum.\<close>

lemma solve_axis_fills:
  assumes "length flex = length mins"
  shows "sum_list (solve_axis mins flex avail) \<le> avail
    \<and> (avail < sum_list mins \<or> True \<in> set flex \<longrightarrow> sum_list (solve_axis mins flex avail) = avail)
    \<and> (sum_list mins \<le> avail \<longrightarrow> (\<forall>i < length mins. mins ! i \<le> solve_axis mins flex avail ! i))"
  using sum_solve_axis [OF assms, of avail] solve_axis_ge_min [OF assms] by auto

lemma length_offsets [simp]: "length (offsets b xs) = Suc (length xs)"
  by (induction b xs rule: offsets.induct) simp_all

lemma offsets_nth: "i \<le> length xs \<Longrightarrow> offsets b xs ! i = b + sum_list (take i xs)"
  by (induction b xs arbitrary: i rule: offsets.induct) (auto simp: nth_Cons split: nat.splits)

lemma fold_max_mono: "(m0 :: nat) \<le> fold (\<lambda>x m. if P x then max m (f x) else m) xs m0"
proof (induction xs arbitrary: m0)
  case (Cons a xs)
  have "m0 \<le> (if P a then max m0 (f a) else m0)" by simp
  then show ?case using Cons.IH [of "if P a then max m0 (f a) else m0"] by simp
qed simp

lemma fold_max_ge: "x \<in> set xs \<Longrightarrow> P x \<Longrightarrow> (f x :: nat) \<le> fold (\<lambda>x m. if P x then max m (f x) else m) xs m0"
proof (induction xs arbitrary: m0)
  case (Cons a xs)
  show ?case
  proof (cases "x = a")
    case True
    have "f x \<le> (if P a then max m0 (f a) else m0)" using Cons.prems True by simp
    then show ?thesis using fold_max_mono [of "if P a then max m0 (f a) else m0" P f xs] by simp
  next
    case False
    then show ?thesis using Cons by simp
  qed
qed simp

lemma track_min_ge: "sp \<in> set sps \<Longrightarrow> span_has sp t \<Longrightarrow> span_share sp t \<le> track_min sps t"
  unfolding track_min_def by (rule fold_max_ge)

lemma sum_indicator: "sum_list (map (\<lambda>t. if t - s < r then 1 else 0) [s..<s + k]) = min r (k :: nat)"
  by (induction k) (auto simp: min_def)

lemma sum_indicator_upt:
  "s \<le> e \<Longrightarrow> sum_list (map (\<lambda>t. if t - s < r then 1 else 0) [s..<e]) = min r (e - s :: nat)"
  using sum_indicator [of s r "e - s"] by simp

lemma sum_span_share:
  assumes "sp_start sp < sp_end sp"
  shows "sum_list (map (span_share sp) [sp_start sp..<sp_end sp]) = sp_min sp"
proof -
  let ?s = "sp_start sp" and ?e = "sp_end sp" and ?m = "sp_min sp"
  let ?k = "?e - ?s"
  have k: "0 < ?k" using assms by simp
  have eq: "span_share sp = (\<lambda>t. ?m div ?k + (if t - ?s < ?m mod ?k then 1 else 0))"
    by (rule ext) (simp add: span_share_def Let_def)
  have "sum_list (map (span_share sp) [?s..<?e])
      = sum_list (map (\<lambda>t. ?m div ?k) [?s..<?e]) + sum_list (map (\<lambda>t. if t - ?s < ?m mod ?k then 1 else 0) [?s..<?e])"
    unfolding eq by (rule sum_list_addf)
  also have "\<dots> = ?k * (?m div ?k) + min (?m mod ?k) ?k"
    using assms by (simp only: sum_list_triv sum_indicator_upt length_upt less_imp_le of_nat_id)
  also have "\<dots> = ?m" using k by simp
  finally show ?thesis .
qed

lemma sum_take_upt:
  "s \<le> e \<Longrightarrow> e \<le> length xs \<Longrightarrow> sum_list (take e xs) = sum_list (take s xs) + sum_list (map ((!) xs) [s..<e])"
proof (induction e)
  case 0
  then show ?case by simp
next
  case (Suc e)
  show ?case
  proof (cases "s = Suc e")
    case False
    then have "s \<le> e" using Suc.prems by simp
    then show ?thesis using Suc by (simp add: take_Suc_conv_app_nth add.assoc)
  qed simp
qed

lemma offsets_diff:
  assumes "s \<le> e" "e \<le> length xs"
  shows "offsets b xs ! e - offsets b xs ! s = sum_list (map ((!) xs) [s..<e])"
  using assms by (simp add: offsets_nth sum_take_upt)

lemma offsets_le_sum: "i \<le> length xs \<Longrightarrow> offsets b xs ! i \<le> b + sum_list xs"
proof -
  assume "i \<le> length xs"
  have "sum_list (take i xs) \<le> sum_list (take i xs) + sum_list (drop i xs)" by simp
  then show ?thesis using \<open>i \<le> length xs\<close> by (simp add: offsets_nth sum_list_append [symmetric])
qed

lemma length_axis [simp]: "length (axis_mins sps n) = n" "length (axis_flex sps n) = n"
  "length (axis_solve sps n avail) = n"
  by (simp_all add: axis_mins_def axis_flex_def axis_solve_def)

lemma axis_solve_sum_le: "sum_list (axis_solve sps n avail) \<le> avail"
  using sum_solve_axis [of "axis_flex sps n" "axis_mins sps n" avail] by (simp add: axis_solve_def)

lemma axis_extent_min:
  assumes "sp \<in> set sps" "sp_start sp < sp_end sp" "sp_end sp \<le> n" "sum_list (axis_mins sps n) \<le> avail"
  shows "sp_min sp \<le> offsets b (axis_solve sps n avail) ! sp_end sp - offsets b (axis_solve sps n avail) ! sp_start sp"
proof -
  let ?xs = "axis_solve sps n avail" and ?r = "[sp_start sp..<sp_end sp]"
  have "sp_min sp = sum_list (map (span_share sp) ?r)" using sum_span_share [OF assms(2)] by simp
  also have "\<dots> \<le> sum_list (map (track_min sps) ?r)"
    by (rule sum_list_mono) (use assms(1) track_min_ge in \<open>auto simp: span_has_def\<close>)
  also have "\<dots> \<le> sum_list (map ((!) ?xs) ?r)"
  proof (rule sum_list_mono)
    fix t assume "t \<in> set ?r"
    then have t: "t < n" using assms(3) by simp
    then show "track_min sps t \<le> ?xs ! t"
      using solve_axis_ge_min [of "axis_flex sps n" "axis_mins sps n" avail t] assms(4)
      by (simp add: axis_solve_def axis_mins_def)
  qed
  also have "\<dots> = offsets b ?xs ! sp_end sp - offsets b ?xs ! sp_start sp"
    using assms(2,3) by (simp add: offsets_diff)
  finally show ?thesis .
qed


lemma offsets_mono: "s \<le> e \<Longrightarrow> e \<le> length xs \<Longrightarrow> offsets b xs ! s \<le> offsets b xs ! e"
  by (simp add: offsets_nth sum_take_upt)

lemma axis_extent:
  fixes ext :: u16
  assumes "sum_list xs \<le> unat ext" "s \<le> e" "e \<le> length xs"
  shows "unat (word_of_nat (offsets 0 xs ! e - offsets 0 xs ! s) :: u16) = offsets 0 xs ! e - offsets 0 xs ! s"
    "offsets 0 xs ! e \<le> unat ext"
proof -
  have "offsets 0 xs ! e \<le> sum_list xs" using offsets_le_sum [OF assms(3), of 0] by simp
  then show le: "offsets 0 xs ! e \<le> unat ext" using assms(1) by simp
  then have "offsets 0 xs ! e - offsets 0 xs ! s < 65536" using unat_u16_less [of ext] by linarith
  then show "unat (word_of_nat (offsets 0 xs ! e - offsets 0 xs ! s) :: u16) = offsets 0 xs ! e - offsets 0 xs ! s"
    by (rule unat_of_nat_u16)
qed

lemma axis_start:
  fixes base ext :: u16
  assumes "unat base + unat ext < 65536" "sum_list xs \<le> unat ext" "s \<le> length xs"
  shows "unat (base + word_of_nat (offsets 0 xs ! s)) = unat base + offsets 0 xs ! s"
proof -
  have le: "offsets 0 xs ! s \<le> unat ext" using axis_extent(2) [OF assms(2) order_refl assms(3)] .
  then have "offsets 0 xs ! s < 65536" using unat_u16_less [of ext] by linarith
  then have u: "unat (word_of_nat (offsets 0 xs ! s) :: u16) = offsets 0 xs ! s" by (rule unat_of_nat_u16)
  show ?thesis using assms(1) le by (simp add: unat_add_nowrap_u16 u)
qed

lemma solve_layout_mem:
  assumes "(w, a) \<in> set (solve_layout bounds bb t)"
  obtains rc where "(w, rc) \<in> set (tpl_places t)"
    "a = place_area (col_offsets bounds bb t) (row_offsets bounds bb t) bb rc"
  using assms by (auto simp: solve_layout_def)

lemma tpl_wf_mem:
  "tpl_wf t \<Longrightarrow> (w, rc) \<in> set (tpl_places t)
   \<Longrightarrow> gc0 rc < gc1 rc \<and> gc1 rc \<le> tpl_cols t \<and> gr0 rc < gr1 rc \<and> gr1 rc \<le> tpl_rows t"
  by (auto simp: tpl_wf_def list_all_iff)

lemma spans_mem:
  assumes "(w, rc) \<in> set ps"
  shows "\<lparr>sp_start = gc0 rc, sp_end = gc1 rc, sp_min = unat (col_min (bounds w)),
           sp_flex = (col_max (bounds w) = 65535)\<rparr> \<in> set (col_spans bounds ps)"
    "\<lparr>sp_start = gr0 rc, sp_end = gr1 rc, sp_min = unat (row_min (bounds w)),
           sp_flex = (row_max (bounds w) = 65535)\<rparr> \<in> set (row_spans bounds ps)"
  using assms by (force simp: col_spans_def row_spans_def)+

section \<open>Resolved areas\<close>

text \<open>C31: when the box is wide and tall enough for the summed track minimums, every
  resolved area is at least as wide and as tall as its widget's declared minimum, also
  for widgets spanning several tracks.\<close>

lemma solve_layout_min:
  assumes wf: "tpl_wf t"
    and cs: "sum_list (axis_mins (col_spans bounds (tpl_places t)) (tpl_cols t)) \<le> unat (area_width bb)"
    and rs: "sum_list (axis_mins (row_spans bounds (tpl_places t)) (tpl_rows t)) \<le> unat (area_height bb)"
    and mem: "(w, a) \<in> set (solve_layout bounds bb t)"
  shows "unat (col_min (bounds w)) \<le> unat (area_width a) \<and> unat (row_min (bounds w)) \<le> unat (area_height a)"
proof -
  obtain rc where p: "(w, rc) \<in> set (tpl_places t)"
    and a: "a = place_area (col_offsets bounds bb t) (row_offsets bounds bb t) bb rc"
    using mem by (rule solve_layout_mem)
  note b = tpl_wf_mem [OF wf p]
  let ?cx = "axis_solve (col_spans bounds (tpl_places t)) (tpl_cols t) (unat (area_width bb))"
  let ?rx = "axis_solve (row_spans bounds (tpl_places t)) (tpl_rows t) (unat (area_height bb))"
  have cw: "unat (area_width a) = offsets 0 ?cx ! gc1 rc - offsets 0 ?cx ! gc0 rc"
    using axis_extent(1) [OF axis_solve_sum_le, of "gc0 rc" "gc1 rc"] b
    by (simp add: a place_area_def area_new_def dim_new_def area_width_def col_offsets_def less_imp_le)
  have rh: "unat (area_height a) = offsets 0 ?rx ! gr1 rc - offsets 0 ?rx ! gr0 rc"
    using axis_extent(1) [OF axis_solve_sum_le, of "gr0 rc" "gr1 rc"] b
    by (simp add: a place_area_def area_new_def dim_new_def area_height_def row_offsets_def less_imp_le)
  show ?thesis
    using axis_extent_min [OF spans_mem(1) [OF p] _ _ cs, where b = 0] axis_extent_min [OF spans_mem(2) [OF p] _ _ rs, where b = 0] b
    by (simp add: cw rh)
qed

text \<open>The area of one placement in \<open>nat\<close>: it starts at the box's corner plus the
  offsets of its first tracks and spans the offsets up to its last tracks.\<close>

lemma place_area_nat:
  assumes wf: "tpl_wf t" and bw: "area_wf bb" and p: "(w, rc) \<in> set (tpl_places t)"
    and a: "a = place_area (col_offsets bounds bb t) (row_offsets bounds bb t) bb rc"
  shows "unat (col a) = unat (col bb) + col_offsets bounds bb t ! gc0 rc"
    "unat (area_width a) = col_offsets bounds bb t ! gc1 rc - col_offsets bounds bb t ! gc0 rc"
    "col_offsets bounds bb t ! gc0 rc \<le> col_offsets bounds bb t ! gc1 rc"
    "col_offsets bounds bb t ! gc1 rc \<le> unat (area_width bb)"
    "unat (row a) = unat (row bb) + row_offsets bounds bb t ! gr0 rc"
    "unat (area_height a) = row_offsets bounds bb t ! gr1 rc - row_offsets bounds bb t ! gr0 rc"
    "row_offsets bounds bb t ! gr0 rc \<le> row_offsets bounds bb t ! gr1 rc"
    "row_offsets bounds bb t ! gr1 rc \<le> unat (area_height bb)"
proof -
  note b = tpl_wf_mem [OF wf p]
  let ?cx = "axis_solve (col_spans bounds (tpl_places t)) (tpl_cols t) (unat (area_width bb))"
  let ?rx = "axis_solve (row_spans bounds (tpl_places t)) (tpl_rows t) (unat (area_height bb))"
  have cb: "unat (col bb) + unat (area_width bb) < 65536" and rb: "unat (row bb) + unat (area_height bb) < 65536"
    using bw by (simp_all add: area_wf_def)
  show "unat (col a) = unat (col bb) + col_offsets bounds bb t ! gc0 rc"
    using axis_start [OF cb axis_solve_sum_le, of "gc0 rc"] b by (simp add: a place_area_def area_new_def col_offsets_def)
  show "unat (row a) = unat (row bb) + row_offsets bounds bb t ! gr0 rc"
    using axis_start [OF rb axis_solve_sum_le, of "gr0 rc"] b by (simp add: a place_area_def area_new_def row_offsets_def)
  show "unat (area_width a) = col_offsets bounds bb t ! gc1 rc - col_offsets bounds bb t ! gc0 rc"
    "col_offsets bounds bb t ! gc1 rc \<le> unat (area_width bb)"
    using axis_extent [OF axis_solve_sum_le, of "gc0 rc" "gc1 rc"] b
    by (simp_all add: a place_area_def area_new_def dim_new_def area_width_def col_offsets_def less_imp_le)
  show "unat (area_height a) = row_offsets bounds bb t ! gr1 rc - row_offsets bounds bb t ! gr0 rc"
    "row_offsets bounds bb t ! gr1 rc \<le> unat (area_height bb)"
    using axis_extent [OF axis_solve_sum_le, of "gr0 rc" "gr1 rc"] b
    by (simp_all add: a place_area_def area_new_def dim_new_def area_height_def row_offsets_def less_imp_le)
  show "col_offsets bounds bb t ! gc0 rc \<le> col_offsets bounds bb t ! gc1 rc"
    using offsets_mono [of "gc0 rc" "gc1 rc" ?cx 0] b by (simp add: col_offsets_def less_imp_le)
  show "row_offsets bounds bb t ! gr0 rc \<le> row_offsets bounds bb t ! gr1 rc"
    using offsets_mono [of "gr0 rc" "gr1 rc" ?rx 0] b by (simp add: row_offsets_def less_imp_le)
qed

text \<open>C30: every area the solver resolves for a well-formed template lies inside the
  box it was given and stays inside the addressable range.\<close>

lemma solve_layout_within:
  assumes wf: "tpl_wf t" and bw: "area_wf bb" and mem: "(w, a) \<in> set (solve_layout bounds bb t)"
  shows "cells a \<subseteq> cells bb \<and> area_wf a"
proof -
  obtain rc where p: "(w, rc) \<in> set (tpl_places t)"
    and a: "a = place_area (col_offsets bounds bb t) (row_offsets bounds bb t) bb rc"
    using mem by (rule solve_layout_mem)
  have cb: "unat (col bb) + unat (area_width bb) < 65536" and rb: "unat (row bb) + unat (area_height bb) < 65536"
    using bw by (simp_all add: area_wf_def)
  show ?thesis using place_area_nat [OF wf bw p a] cb rb by (auto simp: cells_def area_wf_def)
qed

text \<open>Placements whose track rectangles do not overlap get areas that do not overlap:
  disjoint rectangles are separated along one axis, and the offsets are monotone.\<close>

lemma rect_cells_disjoint:
  assumes "gc0 rc < gc1 rc" "gr0 rc < gr1 rc" "gc0 rc' < gc1 rc'" "gr0 rc' < gr1 rc'"
    and "rect_cells rc \<inter> rect_cells rc' = {}"
  shows "gc1 rc \<le> gc0 rc' \<or> gc1 rc' \<le> gc0 rc \<or> gr1 rc \<le> gr0 rc' \<or> gr1 rc' \<le> gr0 rc"
proof (rule ccontr)
  assume "\<not> ?thesis"
  then have "(max (gr0 rc) (gr0 rc'), max (gc0 rc) (gc0 rc')) \<in> rect_cells rc \<inter> rect_cells rc'"
    using assms(1-4) by (auto simp: rect_cells_def)
  then show False using assms(5) by blast
qed

lemma solve_layout_disjoint:
  assumes wf: "tpl_wf t" and bw: "area_wf bb"
    and p: "(w, rc) \<in> set (tpl_places t)" and p': "(w', rc') \<in> set (tpl_places t)"
    and d: "rect_cells rc \<inter> rect_cells rc' = {}"
  shows "cells (place_area (col_offsets bounds bb t) (row_offsets bounds bb t) bb rc)
       \<inter> cells (place_area (col_offsets bounds bb t) (row_offsets bounds bb t) bb rc') = {}"
proof -
  let ?co = "col_offsets bounds bb t" and ?ro = "row_offsets bounds bb t"
  let ?a = "place_area ?co ?ro bb rc" and ?a' = "place_area ?co ?ro bb rc'"
  note n = place_area_nat [OF wf bw p refl] and n' = place_area_nat [OF wf bw p' refl]
  note b = tpl_wf_mem [OF wf p] and b' = tpl_wf_mem [OF wf p']
  have lc: "length ?co = Suc (tpl_cols t)" "length ?ro = Suc (tpl_rows t)"
    by (simp_all add: col_offsets_def row_offsets_def)
  have sep: "gc1 rc \<le> gc0 rc' \<or> gc1 rc' \<le> gc0 rc \<or> gr1 rc \<le> gr0 rc' \<or> gr1 rc' \<le> gr0 rc"
    using rect_cells_disjoint [OF _ _ _ _ d] b b' by blast
  show ?thesis
  proof (rule equals0I)
    fix z assume z: "z \<in> cells ?a \<inter> cells ?a'"
    obtain x y where xy: "z = (x, y)" by fastforce
    have in_a: "unat (col bb) + ?co ! gc0 rc \<le> x" "x < unat (col bb) + ?co ! gc1 rc"
        "unat (row bb) + ?ro ! gr0 rc \<le> y" "y < unat (row bb) + ?ro ! gr1 rc"
      and in_a': "unat (col bb) + ?co ! gc0 rc' \<le> x" "x < unat (col bb) + ?co ! gc1 rc'"
        "unat (row bb) + ?ro ! gr0 rc' \<le> y" "y < unat (row bb) + ?ro ! gr1 rc'"
      using z n n' by (auto simp: cells_def xy)
    show False
      using sep
    proof (elim disjE)
      assume "gc1 rc \<le> gc0 rc'"
      then have "?co ! gc1 rc \<le> ?co ! gc0 rc'" using offsets_mono b' lc by (simp add: col_offsets_def less_imp_le)
      then show False using in_a in_a' by linarith
    next
      assume "gc1 rc' \<le> gc0 rc"
      then have "?co ! gc1 rc' \<le> ?co ! gc0 rc" using offsets_mono b lc by (simp add: col_offsets_def less_imp_le)
      then show False using in_a in_a' by linarith
    next
      assume "gr1 rc \<le> gr0 rc'"
      then have "?ro ! gr1 rc \<le> ?ro ! gr0 rc'" using offsets_mono b' lc by (simp add: row_offsets_def less_imp_le)
      then show False using in_a in_a' by linarith
    next
      assume "gr1 rc' \<le> gr0 rc"
      then have "?ro ! gr1 rc' \<le> ?ro ! gr0 rc" using offsets_mono b lc by (simp add: row_offsets_def less_imp_le)
      then show False using in_a in_a' by linarith
    qed
  qed
qed

lemma grid_template_wf: "grid_template m lookup = Inr t \<Longrightarrow> tpl_wf t"
  using grid_template_rects by (fastforce simp: tpl_wf_def list_all_iff)


section \<open>The spec's scenarios\<close>

text \<open>The scenarios of spec section 8. A template \<open>[a b]\<close> with \<open>a\<close> fixed at 10
  columns and \<open>b\<close> flexible, against 30 columns, puts \<open>a\<close> at columns [0,10) and \<open>b\<close> at
  [10,30); against 5 columns \<open>a\<close> is scaled to 5 and \<open>b\<close> to 0; and the spanning template
  \<open>[a a][. b]\<close> on a 4 by 2 box puts \<open>a\<close> at columns [0,4) of row 0 and \<open>b\<close> at columns
  [2,4) of row 1.\<close>

lemma layout_scenarios:
  "layout [[''a'', ''b'']] Some (\<lambda>w. if w = ''a'' then with_columns area_bound_default 10 10 else area_bound_default)
      (area_new 0 0 30 1) = Inr [(''a'', area_new 0 0 10 1), (''b'', area_new 10 0 20 1)]
   \<and> layout [[''a'', ''b'']] Some (\<lambda>w. if w = ''a'' then with_columns area_bound_default 10 10 else area_bound_default)
      (area_new 0 0 5 1) = Inr [(''a'', area_new 0 0 5 1), (''b'', area_new 5 0 0 1)]
   \<and> layout [[''a'', ''a''], [''.'', ''b'']] Some (\<lambda>w. area_bound_default)
      (area_new 0 0 4 2) = Inr [(''a'', area_new 0 0 4 1), (''b'', area_new 2 1 2 1)]"
proof (intro conjI)
  show "layout [[''a'', ''b'']] Some (\<lambda>w. if w = ''a'' then with_columns area_bound_default 10 10 else area_bound_default)
      (area_new 0 0 30 1) = Inr [(''a'', area_new 0 0 10 1), (''b'', area_new 10 0 20 1)]" by code_simp
  show "layout [[''a'', ''b'']] Some (\<lambda>w. if w = ''a'' then with_columns area_bound_default 10 10 else area_bound_default)
      (area_new 0 0 5 1) = Inr [(''a'', area_new 0 0 5 1), (''b'', area_new 5 0 0 1)]" by code_simp
  show "layout [[''a'', ''a''], [''.'', ''b'']] Some (\<lambda>w. area_bound_default)
      (area_new 0 0 4 2) = Inr [(''a'', area_new 0 0 4 1), (''b'', area_new 2 1 2 1)]" by code_simp
qed

text \<open>Spec section 8 also asks that every resolved area lie within its widget's declared
  bound whenever the extent suffices. The spec's own rule for flexible tracks breaks the
  maximum: in \<open>[a][b]\<close> the column is flexible because \<open>b\<close> has no maximum, so \<open>a\<close>,
  whose maximum is 10 columns, is stretched to the whole 30.\<close>

lemma layout_exceeds_max:
  "layout [[''a''], [''b'']] Some (\<lambda>w. if w = ''a'' then with_columns area_bound_default 0 10 else area_bound_default)
      (area_new 0 0 30 2) = Inr [(''a'', area_new 0 0 30 1), (''b'', area_new 0 1 30 1)]"
  by code_simp

section \<open>Witnesses\<close>

lemma solve_axis_fills_witness:
  "length [False, False, False] = length [0, 3, 3 :: nat]
   \<and> sum_list (solve_axis [0, 3, 3] [False, False, False] 5) \<le> 5
   \<and> (5 < sum_list [0, 3, 3 :: nat] \<or> True \<in> set [False, False, False]
        \<longrightarrow> sum_list (solve_axis [0, 3, 3] [False, False, False] 5) = 5)
   \<and> (sum_list [0, 3, 3 :: nat] \<le> 5 \<longrightarrow> (\<forall>i < length [0, 3, 3 :: nat]. [0, 3, 3] ! i \<le> solve_axis [0, 3, 3] [False, False, False] 5 ! i))"
  using solve_axis_fills [of "[False, False, False]" "[0, 3, 3]" 5] by simp

lemma solve_layout_min_witness:
  "tpl_wf \<lparr>tpl_rows = 1, tpl_cols = 2, tpl_places = [(''a'', \<lparr>gc0 = 0, gr0 = 0, gc1 = 1, gr1 = 1\<rparr>), (''b'', \<lparr>gc0 = 1, gr0 = 0, gc1 = 2, gr1 = 1\<rparr>)]\<rparr>
   \<and> unat (col_min (with_columns area_bound_default 10 10)) \<le> unat (area_width (area_new 0 0 10 1))
   \<and> unat (row_min (with_columns area_bound_default 10 10)) \<le> unat (area_height (area_new 0 0 10 1))"
proof -
  let ?b = "\<lambda>w. if w = ''a'' then with_columns area_bound_default 10 10 else area_bound_default"
  let ?t = "\<lparr>tpl_rows = 1, tpl_cols = 2, tpl_places = [(''a'', \<lparr>gc0 = 0, gr0 = 0, gc1 = 1, gr1 = 1\<rparr>), (''b'', \<lparr>gc0 = 1, gr0 = 0, gc1 = 2, gr1 = 1\<rparr>)]\<rparr>"
  have wf: "tpl_wf ?t" by (simp add: tpl_wf_def)
  have c: "sum_list (axis_mins (col_spans ?b (tpl_places ?t)) (tpl_cols ?t)) \<le> unat (area_width (area_new 0 0 30 1))"
    by code_simp
  have r: "sum_list (axis_mins (row_spans ?b (tpl_places ?t)) (tpl_rows ?t)) \<le> unat (area_height (area_new 0 0 30 1))"
    by code_simp
  have m: "(''a'', area_new 0 0 10 1) \<in> set (solve_layout ?b (area_new 0 0 30 1) ?t)" by code_simp
  show ?thesis using solve_layout_min [OF wf c r m] wf by simp
qed

lemma solve_layout_within_witness:
  "cells (area_new 2 1 2 1) \<subseteq> cells (area_new 0 0 4 2) \<and> area_wf (area_new 2 1 2 1)"
proof -
  let ?t = "\<lparr>tpl_rows = 2, tpl_cols = 2, tpl_places = [(''a'', \<lparr>gc0 = 0, gr0 = 0, gc1 = 2, gr1 = 1\<rparr>), (''b'', \<lparr>gc0 = 1, gr0 = 1, gc1 = 2, gr1 = 2\<rparr>)]\<rparr>"
  have wf: "tpl_wf ?t" by (simp add: tpl_wf_def)
  have bw: "area_wf (area_new 0 0 4 2)" by (simp add: area_wf_def)
  have m: "(''b'', area_new 2 1 2 1) \<in> set (solve_layout (\<lambda>w. area_bound_default) (area_new 0 0 4 2) ?t)" by code_simp
  show ?thesis using solve_layout_within [OF wf bw m] .
qed

end
