(* ===== verification/Input.thy ===== *)
theory Input
  imports Area
begin

text \<open>
  The input and layout vocabulary that src/screen.rs and the widgets share. Its Rust
  modules (src/input/*, src/layout/bbox.rs) are not among the sources, so everything
  here is modelled from the spec: mouse buttons and events, focus events, modifier keys,
  keys, the \<open>Action\<close> a step returns, the decoded \<open>Event\<close>, the key map, a cell
  position and \<open>BBox::within\<close>, which is \<open>Area\<close> of src/area.rs under its later name.
\<close>

datatype mouse_button = Left_Button | Right_Button | Middle_Button

datatype mouse_event =
    ButtonDown mouse_button
  | ButtonUp mouse_button
  | Drag "mouse_button option"

datatype focus_event = Offer | Take | HoverInside | HoverOutside

record mod_keys =
  shift :: bool
  ctrl :: bool
  alt :: bool

abbreviation no_mods :: mod_keys where
  "no_mods \<equiv> \<lparr>shift = False, ctrl = False, alt = False\<rparr>"

datatype key = Key_Char char | Key_Named string

datatype action = Redraw | Resize dim | Quit | Custom string

record pos =
  pos_col :: u16
  pos_row :: u16

datatype event =
    Ev_Resize dim
  | Ev_Key key mod_keys
  | Ev_Mouse mouse_event mod_keys pos

text \<open>The key map: an application-supplied map from a key with modifiers to an action.\<close>

type_synonym keymap = "(key \<times> mod_keys) \<rightharpoonup> action"

definition keymap_lookup :: "keymap \<Rightarrow> key \<Rightarrow> mod_keys \<Rightarrow> action option" where
  "keymap_lookup km k m = km (k, m)"

text \<open>\<open>BBox::within\<close>: the position relative to the box's corner, when the box holds it.
  The comparison subtracts the corner first, so it cannot wrap.\<close>

definition within :: "area \<Rightarrow> pos \<Rightarrow> pos option" where
  "within a p =
     (if col a \<le> pos_col p \<and> pos_col p - col a < area_width a
         \<and> row a \<le> pos_row p \<and> pos_row p - row a < area_height a
      then Some \<lparr>pos_col = pos_col p - col a, pos_row = pos_row p - row a\<rparr>
      else None)"

lemma within_cells: "within a p \<noteq> None \<longleftrightarrow> (unat (pos_col p), unat (pos_row p)) \<in> cells a"
  by (auto simp: within_def cells_def word_le_nat_alt word_less_nat_alt unat_sub_le)

text \<open>In a well-formed area, \<open>within\<close> inverts the translation of a position inside the
  area to the absolute position: the two are the decode and encode of a round trip.\<close>

lemma within_Some_iff:
  assumes "area_wf a"
  shows "within a p = Some q \<longleftrightarrow>
           pos_col q < area_width a \<and> pos_row q < area_height a
         \<and> pos_col p = col a + pos_col q \<and> pos_row p = row a + pos_row q"
proof -
  have c: "col a \<le> col a + x \<and> col a + x - col a = x" if "x < area_width a" for x
    using assms that unat_add_nowrap_u16 [of "col a" x]
    by (simp add: area_wf_def word_le_nat_alt word_less_nat_alt)
  have r: "row a \<le> row a + y \<and> row a + y - row a = y" if "y < area_height a" for y
    using assms that unat_add_nowrap_u16 [of "row a" y]
    by (simp add: area_wf_def word_le_nat_alt word_less_nat_alt)
  show ?thesis
    using c r by (cases p; cases q) (auto simp: within_def)
qed

end
