(* ===== verification/Style.thy ===== *)
theory Style
  imports Prelude
begin

text \<open>
  Text styles (src/text/style.rs). \<open>Weight\<close>, \<open>Appearance\<close> and \<open>TextStyle\<close> are a
  datatype and two records; crossterm's \<open>Attributes\<close> bit set is a set of the
  \<open>attribute\<close> constructors the code uses. \<open>Appearance::changed\<close> computes the
  attributes to send so that a terminal showing \<open>before\<close> shows \<open>self\<close>. To say what
  "shows" means, a small terminal model applies SGR attributes one by one
  (\<open>sgr_apply\<close>) in a given emission order. The lemmas show that \<open>changed\<close> is
  correct when resets are emitted before sets, and that it emits contradictory pairs
  (\<open>Italic\<close> with \<open>NoItalic\<close>) whenever an attribute stays on, so that with sets
  emitted first, as crossterm's enum order does, the attribute is switched off.
\<close>

section \<open>Colors (src/text/color.rs, not among the sources)\<close>

datatype intensity = Normal_Intensity | Bright

datatype color =
    Black intensity | Red intensity | Green intensity | Yellow intensity
  | Blue intensity | Magenta intensity | Cyan intensity | White intensity

section \<open>Attributes (crossterm's Attribute, the constructors used)\<close>

datatype attribute =
    Attr_Bold | Attr_Dim | Attr_Italic | Attr_Underlined | Attr_Reverse | Attr_CrossedOut
  | Attr_NormalIntensity | Attr_NoItalic | Attr_NoUnderline | Attr_NoReverse
  | Attr_NotCrossedOut

section \<open>Weight, Appearance, TextStyle\<close>

datatype weight = Normal | Bold | Thin

record appearance =
  attributes :: "attribute set"
  weight :: weight

record text_style =
  background :: color
  foreground :: color
  appearance :: appearance

definition weight_default :: weight where
  "weight_default = Normal"

definition appearance_default :: appearance where
  "appearance_default = \<lparr>attributes = {}, weight = weight_default\<rparr>"

fun weight_attribute :: "weight \<Rightarrow> attribute option" where
  "weight_attribute Bold = Some Attr_Bold"
| "weight_attribute Thin = Some Attr_Dim"
| "weight_attribute Normal = None"

definition with_weight :: "appearance \<Rightarrow> weight \<Rightarrow> appearance" where
  "with_weight a w = a\<lparr>weight := w\<rparr>"

definition set_attr :: "appearance \<Rightarrow> attribute \<Rightarrow> bool \<Rightarrow> appearance" where
  "set_attr a x enable =
     (if enable then a\<lparr>attributes := insert x (attributes a)\<rparr>
      else a\<lparr>attributes := attributes a - {x}\<rparr>)"

definition with_italic :: "appearance \<Rightarrow> bool \<Rightarrow> appearance" where
  "with_italic a enable = set_attr a Attr_Italic enable"

definition with_strikethrough :: "appearance \<Rightarrow> bool \<Rightarrow> appearance" where
  "with_strikethrough a enable = set_attr a Attr_CrossedOut enable"

definition with_underline :: "appearance \<Rightarrow> bool \<Rightarrow> appearance" where
  "with_underline a enable = set_attr a Attr_Underlined enable"

definition with_reverse :: "appearance \<Rightarrow> bool \<Rightarrow> appearance" where
  "with_reverse a enable = set_attr a Attr_Reverse enable"

text \<open>\<open>Appearance::changed(&self, before)\<close>, statement by statement.\<close>

definition changed :: "appearance \<Rightarrow> appearance \<Rightarrow> attribute set" where
  "changed self before =
     (let attr0 = attributes self;
          attr1 = (if weight self \<noteq> weight before
                   then (case weight_attribute (weight self) of
                           Some w \<Rightarrow> insert w attr0
                         | None \<Rightarrow> insert Attr_NormalIntensity attr0)
                   else attr0);
          attr2 = (if Attr_Italic \<in> attributes before then insert Attr_NoItalic attr1 else attr1);
          attr3 = (if Attr_CrossedOut \<in> attributes before then insert Attr_NotCrossedOut attr2 else attr2);
          attr4 = (if Attr_Underlined \<in> attributes before then insert Attr_NoUnderline attr3 else attr3);
          attr5 = (if Attr_Reverse \<in> attributes before then insert Attr_NoReverse attr4 else attr4)
      in attr5)"

definition text_style_default :: text_style where
  "text_style_default =
     \<lparr>background = Black Normal_Intensity, foreground = White Bright, appearance = appearance_default\<rparr>"

definition with_background :: "text_style \<Rightarrow> color \<Rightarrow> text_style" where
  "with_background s c = s\<lparr>background := c\<rparr>"

definition with_foreground :: "text_style \<Rightarrow> color \<Rightarrow> text_style" where
  "with_foreground s c = s\<lparr>foreground := c\<rparr>"

definition with_appearance :: "text_style \<Rightarrow> appearance \<Rightarrow> text_style" where
  "with_appearance s a = s\<lparr>appearance := a\<rparr>"

section \<open>Terminal model of SGR attributes\<close>

record term_attrs =
  t_weight :: weight
  t_italic :: bool
  t_underline :: bool
  t_reverse :: bool
  t_crossed :: bool

fun sgr_apply :: "attribute \<Rightarrow> term_attrs \<Rightarrow> term_attrs" where
  "sgr_apply Attr_Bold t = t\<lparr>t_weight := Bold\<rparr>"
| "sgr_apply Attr_Dim t = t\<lparr>t_weight := Thin\<rparr>"
| "sgr_apply Attr_NormalIntensity t = t\<lparr>t_weight := Normal\<rparr>"
| "sgr_apply Attr_Italic t = t\<lparr>t_italic := True\<rparr>"
| "sgr_apply Attr_NoItalic t = t\<lparr>t_italic := False\<rparr>"
| "sgr_apply Attr_Underlined t = t\<lparr>t_underline := True\<rparr>"
| "sgr_apply Attr_NoUnderline t = t\<lparr>t_underline := False\<rparr>"
| "sgr_apply Attr_Reverse t = t\<lparr>t_reverse := True\<rparr>"
| "sgr_apply Attr_NoReverse t = t\<lparr>t_reverse := False\<rparr>"
| "sgr_apply Attr_CrossedOut t = t\<lparr>t_crossed := True\<rparr>"
| "sgr_apply Attr_NotCrossedOut t = t\<lparr>t_crossed := False\<rparr>"

text \<open>A set of attributes is emitted in some fixed order of the constructors.\<close>

definition apply_attrs :: "attribute list \<Rightarrow> attribute set \<Rightarrow> term_attrs \<Rightarrow> term_attrs" where
  "apply_attrs order xs t = fold (\<lambda>x t. if x \<in> xs then sgr_apply x t else t) order t"

definition resets_first :: "attribute list" where
  "resets_first = [Attr_NormalIntensity, Attr_NoItalic, Attr_NoUnderline, Attr_NoReverse,
     Attr_NotCrossedOut, Attr_Bold, Attr_Dim, Attr_Italic, Attr_Underlined, Attr_Reverse,
     Attr_CrossedOut]"

text \<open>crossterm's \<open>Attribute\<close> enum order (sets before resets), which its
  \<open>SetAttributes\<close> command follows.\<close>

definition crossterm_order :: "attribute list" where
  "crossterm_order = [Attr_Bold, Attr_Dim, Attr_Italic, Attr_Underlined, Attr_Reverse,
     Attr_CrossedOut, Attr_NormalIntensity, Attr_NoItalic, Attr_NoUnderline, Attr_NoReverse,
     Attr_NotCrossedOut]"

definition shown :: "appearance \<Rightarrow> term_attrs" where
  "shown a = \<lparr>t_weight = weight a, t_italic = Attr_Italic \<in> attributes a,
     t_underline = Attr_Underlined \<in> attributes a, t_reverse = Attr_Reverse \<in> attributes a,
     t_crossed = Attr_CrossedOut \<in> attributes a\<rparr>"

text \<open>The attributes an appearance can hold: the builders only ever set these four.\<close>

definition appearance_wf :: "appearance \<Rightarrow> bool" where
  "appearance_wf a \<longleftrightarrow>
     attributes a \<subseteq> {Attr_Italic, Attr_CrossedOut, Attr_Underlined, Attr_Reverse}"

lemma apply_resets_first_fields:
  "t_weight (apply_attrs resets_first X t) =
     (if Attr_Dim \<in> X then Thin else if Attr_Bold \<in> X then Bold
      else if Attr_NormalIntensity \<in> X then Normal else t_weight t)"
  "t_italic (apply_attrs resets_first X t) =
     (Attr_Italic \<in> X \<or> (Attr_NoItalic \<notin> X \<and> t_italic t))"
  "t_underline (apply_attrs resets_first X t) =
     (Attr_Underlined \<in> X \<or> (Attr_NoUnderline \<notin> X \<and> t_underline t))"
  "t_reverse (apply_attrs resets_first X t) =
     (Attr_Reverse \<in> X \<or> (Attr_NoReverse \<notin> X \<and> t_reverse t))"
  "t_crossed (apply_attrs resets_first X t) =
     (Attr_CrossedOut \<in> X \<or> (Attr_NotCrossedOut \<notin> X \<and> t_crossed t))"
  by (simp_all add: apply_attrs_def resets_first_def)

lemma apply_crossterm_fields:
  "t_italic (apply_attrs crossterm_order X t) =
     (Attr_NoItalic \<notin> X \<and> (Attr_Italic \<in> X \<or> t_italic t))"
  "t_underline (apply_attrs crossterm_order X t) =
     (Attr_NoUnderline \<notin> X \<and> (Attr_Underlined \<in> X \<or> t_underline t))"
  "t_reverse (apply_attrs crossterm_order X t) =
     (Attr_NoReverse \<notin> X \<and> (Attr_Reverse \<in> X \<or> t_reverse t))"
  "t_crossed (apply_attrs crossterm_order X t) =
     (Attr_NotCrossedOut \<notin> X \<and> (Attr_CrossedOut \<in> X \<or> t_crossed t))"
  by (simp_all add: apply_attrs_def crossterm_order_def)

lemma changed_members:
  "x \<in> {Attr_Italic, Attr_CrossedOut, Attr_Underlined, Attr_Reverse} \<Longrightarrow>
     x \<in> changed a b \<longleftrightarrow> x \<in> attributes a"
  "Attr_NoItalic \<in> changed a b \<longleftrightarrow> Attr_NoItalic \<in> attributes a \<or> Attr_Italic \<in> attributes b"
  "Attr_NoUnderline \<in> changed a b \<longleftrightarrow> Attr_NoUnderline \<in> attributes a \<or> Attr_Underlined \<in> attributes b"
  "Attr_NoReverse \<in> changed a b \<longleftrightarrow> Attr_NoReverse \<in> attributes a \<or> Attr_Reverse \<in> attributes b"
  "Attr_NotCrossedOut \<in> changed a b \<longleftrightarrow> Attr_NotCrossedOut \<in> attributes a \<or> Attr_CrossedOut \<in> attributes b"
  "Attr_Dim \<in> changed a b \<longleftrightarrow> Attr_Dim \<in> attributes a \<or> (weight a \<noteq> weight b \<and> weight a = Thin)"
  "Attr_Bold \<in> changed a b \<longleftrightarrow> Attr_Bold \<in> attributes a \<or> (weight a \<noteq> weight b \<and> weight a = Bold)"
  "Attr_NormalIntensity \<in> changed a b \<longleftrightarrow>
     Attr_NormalIntensity \<in> attributes a \<or> (weight a \<noteq> weight b \<and> weight a = Normal)"
  by (cases "weight a"; auto simp: changed_def Let_def)+

lemma apply_changed_shown:
  assumes "appearance_wf a" "appearance_wf b"
  shows "apply_attrs resets_first (changed a b) (shown b) = shown a"
proof (rule term_attrs.equality)
  show "t_weight (apply_attrs resets_first (changed a b) (shown b)) = t_weight (shown a)"
    using assms by (cases "weight a") (auto simp: apply_resets_first_fields changed_members
        shown_def appearance_wf_def)
qed (use assms in \<open>auto simp: apply_resets_first_fields changed_members shown_def appearance_wf_def\<close>)

text \<open>C20: \<open>Appearance::changed\<close> is correct for a terminal that applies the reset
  attributes before the set ones: starting from what \<open>before\<close> shows, applying the
  changed attributes shows \<open>self\<close> (weight and all four attributes).\<close>

lemma changed_correct:
  assumes "appearance_wf a" "appearance_wf b"
  shows "apply_attrs resets_first (changed a b) (shown b) = shown a"
  using assms by (rule apply_changed_shown)

text \<open>When an attribute (here italic) is on both before and after, \<open>changed\<close> emits
  both \<open>Italic\<close> and \<open>NoItalic\<close>: the result depends on the emission order.\<close>

lemma changed_contradictory:
  "Attr_Italic \<in> attributes a \<Longrightarrow> Attr_Italic \<in> attributes b \<Longrightarrow>
     Attr_Italic \<in> changed a b \<and> Attr_NoItalic \<in> changed a b"
  by (simp add: changed_members)

text \<open>C21: emitted in crossterm's order (sets before resets), the attributes \<open>changed\<close>
  computes do not take a terminal showing \<open>before\<close> to \<open>self\<close>. For every appearance
  \<open>self\<close> the builders can make and every \<open>before\<close>, each of italic, underline, reverse
  and crossed-out ends up on exactly when \<open>self\<close> has it and \<open>before\<close> did not: an
  attribute that both have is turned off.\<close>

lemma crossterm_order_toggles:
  assumes "appearance_wf a"
  shows "t_italic (apply_attrs crossterm_order (changed a b) (shown b))
           = (Attr_Italic \<in> attributes a \<and> Attr_Italic \<notin> attributes b)
    \<and> t_underline (apply_attrs crossterm_order (changed a b) (shown b))
           = (Attr_Underlined \<in> attributes a \<and> Attr_Underlined \<notin> attributes b)
    \<and> t_reverse (apply_attrs crossterm_order (changed a b) (shown b))
           = (Attr_Reverse \<in> attributes a \<and> Attr_Reverse \<notin> attributes b)
    \<and> t_crossed (apply_attrs crossterm_order (changed a b) (shown b))
           = (Attr_CrossedOut \<in> attributes a \<and> Attr_CrossedOut \<notin> attributes b)"
proof -
  have n: "Attr_NoItalic \<notin> attributes a" "Attr_NoUnderline \<notin> attributes a"
    "Attr_NoReverse \<notin> attributes a" "Attr_NotCrossedOut \<notin> attributes a"
    using assms by (auto simp: appearance_wf_def)
  show ?thesis
    using n by (auto simp: apply_crossterm_fields changed_members shown_def)
qed

lemma set_attr_wf:
  "appearance_wf a \<Longrightarrow> x \<in> {Attr_Italic, Attr_CrossedOut, Attr_Underlined, Attr_Reverse} \<Longrightarrow>
     appearance_wf (set_attr a x e)"
  by (auto simp: appearance_wf_def set_attr_def)

lemma appearance_builders_wf:
  "appearance_wf appearance_default"
  "appearance_wf a \<Longrightarrow> appearance_wf (with_weight a w)"
  "appearance_wf a \<Longrightarrow> appearance_wf (with_italic a e)"
  "appearance_wf a \<Longrightarrow> appearance_wf (with_strikethrough a e)"
  "appearance_wf a \<Longrightarrow> appearance_wf (with_underline a e)"
  "appearance_wf a \<Longrightarrow> appearance_wf (with_reverse a e)"
  by (simp_all add: appearance_wf_def appearance_default_def with_weight_def with_italic_def
      with_strikethrough_def with_underline_def with_reverse_def set_attr_wf [unfolded appearance_wf_def])


lemma changed_correct_witness:
  "apply_attrs resets_first (changed (with_italic appearance_default True) (with_weight appearance_default Bold))
     (shown (with_weight appearance_default Bold)) = shown (with_italic appearance_default True)"
proof -
  have "appearance_wf (with_italic appearance_default True)"
    "appearance_wf (with_weight appearance_default Bold)"
    using appearance_builders_wf by blast+
  then show ?thesis by (rule changed_correct)
qed

lemma changed_contradictory_witness:
  "Attr_Italic \<in> changed (with_italic appearance_default True) (with_italic appearance_default True)
   \<and> Attr_NoItalic \<in> changed (with_italic appearance_default True) (with_italic appearance_default True)"
proof -
  have "Attr_Italic \<in> attributes (with_italic appearance_default True)"
    by (simp add: with_italic_def set_attr_def)
  then show ?thesis using changed_contradictory by blast
qed

lemma crossterm_order_toggles_witness:
  "appearance_wf (with_italic appearance_default True)
   \<and> t_italic (apply_attrs crossterm_order
       (changed (with_italic appearance_default True) (with_italic appearance_default True))
       (shown (with_italic appearance_default True))) = False"
proof -
  have wf: "appearance_wf (with_italic appearance_default True)" using appearance_builders_wf by blast
  have i: "Attr_Italic \<in> attributes (with_italic appearance_default True)"
    by (simp add: with_italic_def set_attr_def)
  show ?thesis using crossterm_order_toggles [OF wf, of "with_italic appearance_default True"] wf i by simp
qed

end
