(* ===== verification/Button.thy ===== *)
theory Button
  imports Input Style Label
begin

text \<open>
  The button widget (src/widget/button.rs): a label and an interior-mutable state
  (\<open>Cell<State>\<close>), modelled as a record whose \<open>state\<close> field the operations return
  updated. \<open>Widget::focus\<close> and \<open>Widget::mouse_event\<close> are the two transition
  functions of the button's state machine; each returns the new button and the optional
  action. The theme and border types (src/text/theme.rs, src/widget/border.rs) are not
  among the sources and are modelled from the spec as plain data.
\<close>

datatype button_state = Disabled | Enabled | Hovered | Focused | Pressed

record button =
  lbl :: label
  state :: button_state

record theme =
  th_background :: color
  th_foreground :: color
  th_dark_shadow :: color
  th_secondary :: color
  th_tertiary :: color

datatype border_height = Raised | Lowered

datatype border_style = Border_Empty | Bevel border_height

record border =
  border_style :: border_style

definition border_new :: "border_style \<Rightarrow> border" where
  "border_new s = \<lparr>border_style = s\<rparr>"

definition button_new :: "string \<Rightarrow> button" where
  "button_new t = \<lparr>lbl = label_new t, state = Enabled\<rparr>"

definition button_disable :: "button \<Rightarrow> button" where
  "button_disable b = b\<lparr>state := Disabled\<rparr>"

definition button_enable :: "button \<Rightarrow> button" where
  "button_enable b = (if state b = Disabled then b\<lparr>state := Enabled\<rparr> else b)"

definition button_style :: "button \<Rightarrow> theme \<Rightarrow> text_style" where
  "button_style b th =
     (case state b of
        Disabled \<Rightarrow> with_foreground (with_background text_style_default (th_background th)) (th_dark_shadow th)
      | Enabled \<Rightarrow> with_foreground (with_background text_style_default (th_background th)) (th_foreground th)
      | Focused \<Rightarrow> with_foreground (with_background text_style_default (th_secondary th)) (th_background th)
      | Hovered \<Rightarrow> with_foreground (with_background text_style_default (th_background th)) (th_secondary th)
      | Pressed \<Rightarrow> with_foreground (with_background text_style_default (th_tertiary th)) (th_background th))"

definition button_bounds :: "button \<Rightarrow> area_bound" where
  "button_bounds b = label_bounds (lbl b)"

definition button_border :: "button \<Rightarrow> border option" where
  "button_border b =
     Some (case state b of
             Disabled \<Rightarrow> border_new Border_Empty
           | Pressed \<Rightarrow> border_new (Bevel Lowered)
           | _ \<Rightarrow> border_new (Bevel Raised))"

definition button_focus :: "button \<Rightarrow> focus_event \<Rightarrow> button \<times> action option" where
  "button_focus b fev =
     (case (fev, state b) of
        (Offer, Enabled) \<Rightarrow> (b\<lparr>state := Focused\<rparr>, Some Redraw)
      | (Take, Focused) \<Rightarrow> (b\<lparr>state := Enabled\<rparr>, Some Redraw)
      | (Take, Hovered) \<Rightarrow> (b\<lparr>state := Enabled\<rparr>, Some Redraw)
      | (Take, Pressed) \<Rightarrow> (b\<lparr>state := Enabled\<rparr>, Some Redraw)
      | (HoverInside, Enabled) \<Rightarrow> (b\<lparr>state := Hovered\<rparr>, Some Redraw)
      | (HoverOutside, Pressed) \<Rightarrow> (b\<lparr>state := Focused\<rparr>, Some Redraw)
      | (HoverOutside, Hovered) \<Rightarrow> (b\<lparr>state := Enabled\<rparr>, Some Redraw)
      | _ \<Rightarrow> (b, None))"

text \<open>The state the mouse event asks for, before the \<open>and_then\<close> that compares it with
  the current one.\<close>

definition mouse_target :: "mouse_event \<Rightarrow> button_state \<Rightarrow> button_state option" where
  "mouse_target mev s =
     (case (mev, s) of
        (_, Disabled) \<Rightarrow> None
      | (ButtonDown _, _) \<Rightarrow> Some Pressed
      | (ButtonUp _, Pressed) \<Rightarrow> Some Focused
      | _ \<Rightarrow> None)"

definition button_mouse_event :: "button \<Rightarrow> mouse_event \<Rightarrow> mod_keys \<Rightarrow> pos \<Rightarrow> button \<times> action option" where
  "button_mouse_event b mev mods p =
     (case mouse_target mev (state b) of
        Some s \<Rightarrow> (if s \<noteq> state b then (b\<lparr>state := s\<rparr>, Some Redraw) else (b, None))
      | None \<Rightarrow> (b, None))"

text \<open>Everything that can happen to a button, and a run of such inputs.\<close>

datatype button_input =
    In_Focus focus_event | In_Mouse mouse_event mod_keys pos | In_Enable | In_Disable

fun button_apply :: "button \<Rightarrow> button_input \<Rightarrow> button" where
  "button_apply b (In_Focus fev) = fst (button_focus b fev)"
| "button_apply b (In_Mouse mev mods p) = fst (button_mouse_event b mev mods p)"
| "button_apply b In_Enable = button_enable b"
| "button_apply b In_Disable = button_disable b"

definition button_run :: "button \<Rightarrow> button_input list \<Rightarrow> button" where
  "button_run b ins = fold (\<lambda>i b. button_apply b i) ins b"

lemma mouse_target_simps [simp]:
  "mouse_target mev Disabled = None"
  "s \<noteq> Disabled \<Longrightarrow> mouse_target (ButtonDown btn) s = Some Pressed"
  "mouse_target (ButtonUp btn) Pressed = Some Focused"
  "s \<noteq> Pressed \<Longrightarrow> mouse_target (ButtonUp btn) s = None"
  "mouse_target (Drag d) s = None"
  by (cases mev; simp add: mouse_target_def; cases s; simp)+

text \<open>C10: \<open>Widget::focus\<close> of a button returns \<open>Redraw\<close> exactly when it changes the
  button's state, and nothing otherwise; the label is never touched.\<close>

lemma button_focus_redraw:
  "snd (button_focus b fev) = (if state (fst (button_focus b fev)) = state b then None else Some Redraw)
   \<and> lbl (fst (button_focus b fev)) = lbl b"
  by (cases fev; cases "state b"; simp add: button_focus_def)

text \<open>C11: \<open>Widget::mouse_event\<close> of a button returns \<open>Redraw\<close> exactly when it changes the
  button's state, and nothing otherwise; the label is never touched.\<close>

lemma button_mouse_redraw:
  "snd (button_mouse_event b mev mods p) =
     (if state (fst (button_mouse_event b mev mods p)) = state b then None else Some Redraw)
   \<and> lbl (fst (button_mouse_event b mev mods p)) = lbl b"
  by (cases "mouse_target mev (state b)") (auto simp: button_mouse_event_def)

text \<open>C17: a disabled button ignores every focus and mouse event: the button is unchanged
  and no action is returned.\<close>

lemma button_disabled_inert:
  assumes "state b = Disabled"
  shows "button_focus b fev = (b, None) \<and> button_mouse_event b mev mods p = (b, None)"
  using assms by (cases fev) (simp_all add: button_focus_def button_mouse_event_def)

text \<open>C18: after \<open>FocusEvent::Take\<close> a button is neither hovered, focused nor pressed.\<close>

lemma button_take_releases:
  "state (fst (button_focus b Take)) \<in> {Enabled, Disabled}"
  by (cases "state b") (simp_all add: button_focus_def)

text \<open>C19: from any state, enabling the button and taking focus away brings it back to
  \<open>Enabled\<close>: no state is a trap.\<close>

lemma button_recovers:
  "state (button_run b [In_Enable, In_Focus Take]) = Enabled"
  by (cases "state b") (simp_all add: button_run_def button_enable_def button_focus_def)

lemma button_mouse_down_presses:
  "state b \<noteq> Disabled \<Longrightarrow> state (fst (button_mouse_event b (ButtonDown btn) mods p)) = Pressed"
  by (simp add: button_mouse_event_def)


lemma button_disabled_inert_witness:
  "button_focus (button_disable (button_new ''OK'')) Offer = (button_disable (button_new ''OK''), None)"
proof -
  have "state (button_disable (button_new ''OK'')) = Disabled" by (simp add: button_disable_def)
  then show ?thesis using button_disabled_inert by blast
qed

end
