(* ===== verification/Screen.thy ===== *)
theory Screen
  imports Button
begin

text \<open>
  The render-and-dispatch loop of src/screen.rs. Widgets are reached through the
  \<open>Widget\<close> trait; the model makes the trait an interface record \<open>'w widget_ops\<close>
  holding the two methods the dispatch calls (\<open>focus\<close>, \<open>mouse_event\<close>), so the
  dispatch lemmas hold for every widget type. The widgets' interior-mutable state lives
  in a store indexed by widget identity (\<open>'w store\<close>), and the resolved layout is a list
  of (identity, box) pairs, as the spec's design note describes; two boxes naming the same
  identity share the widget, as two references to one \<open>Cell\<close> do. \<open>mouse_action\<close>
  follows the Rust loop entry by entry (\<open>dispatch_one\<close>); \<open>event_action\<close> routes one
  event; \<open>step_events\<close> is the loop of \<open>Screen::step\<close> over a finite event stream,
  where the end of the stream is the panic of \<open>unwrap\<close> (\<open>None\<close>) and a stream error is
  \<open>Error::Crossterm\<close>. Buttons are plugged into the interface by \<open>button_ops\<close>.
\<close>

section \<open>Errors (src/error.rs)\<close>

text \<open>The underlying crossterm and I/O errors are opaque codes.\<close>

datatype error = Crossterm nat | Io nat

section \<open>The widget interface and the widget store\<close>

record 'w widget_ops =
  w_focus :: "'w \<Rightarrow> focus_event \<Rightarrow> 'w \<times> action option"
  w_mouse :: "'w \<Rightarrow> mouse_event \<Rightarrow> mod_keys \<Rightarrow> dim \<Rightarrow> pos \<Rightarrow> 'w \<times> action option"

type_synonym wid = nat
type_synonym 'w store = "wid \<Rightarrow> 'w"
type_synonym widget_boxes = "(wid \<times> area) list"

section \<open>Mouse dispatch (mouse_action)\<close>

text \<open>The focus notification a widget receives, from the event and whether the pointer is
  inside its box: the \<open>match (mev, bbox.within(pos))\<close> of \<open>mouse_action\<close>.\<close>

fun focus_of_mouse :: "mouse_event \<Rightarrow> bool \<Rightarrow> focus_event option" where
  "focus_of_mouse (ButtonDown _) True = Some Offer"
| "focus_of_mouse (ButtonDown _) False = Some Take"
| "focus_of_mouse (Drag None) True = Some HoverInside"
| "focus_of_mouse (Drag _) False = Some HoverOutside"
| "focus_of_mouse (ButtonUp _) True = Some HoverInside"
| "focus_of_mouse (ButtonUp _) False = Some HoverOutside"
| "focus_of_mouse _ _ = None"

text \<open>One iteration of the loop body for one (widget, box) pair: the focus call, then the
  raw mouse event for a widget whose box holds the pointer. The result is the widget's
  new state, the mouse action and the focus action.\<close>

definition dispatch_one :: "'w widget_ops \<Rightarrow> mouse_event \<Rightarrow> mod_keys \<Rightarrow> pos \<Rightarrow> area \<Rightarrow> 'w
    \<Rightarrow> 'w \<times> action option \<times> action option" where
  "dispatch_one ops mev mods p bb w =
     (let (w1, r) = (case focus_of_mouse mev (within bb p \<noteq> None) of
                       Some fev \<Rightarrow> w_focus ops w fev
                     | None \<Rightarrow> (w, None));
          (w2, a) = (case within bb p of
                       Some q \<Rightarrow> w_mouse ops w1 mev mods (dim bb) q
                     | None \<Rightarrow> (w1, None))
      in (w2, a, r))"

fun mouse_action_go :: "'w widget_ops \<Rightarrow> mouse_event \<Rightarrow> mod_keys \<Rightarrow> pos \<Rightarrow> widget_boxes
    \<Rightarrow> 'w store \<Rightarrow> action option \<Rightarrow> action option \<Rightarrow> 'w store \<times> action option \<times> action option" where
  "mouse_action_go ops mev mods p [] st action redraw = (st, action, redraw)"
| "mouse_action_go ops mev mods p ((i, bb) # wbs) st action redraw =
     (let (w', a, r) = dispatch_one ops mev mods p bb (st i)
      in mouse_action_go ops mev mods p wbs (st(i := w')) (opt_or action a) (opt_or redraw r))"

definition mouse_action :: "'w widget_ops \<Rightarrow> mouse_event \<Rightarrow> mod_keys \<Rightarrow> pos \<Rightarrow> widget_boxes
    \<Rightarrow> 'w store \<Rightarrow> 'w store \<times> action option" where
  "mouse_action ops mev mods p wbs st =
     (let (st', action, redraw) = mouse_action_go ops mev mods p wbs st None None
      in (st', opt_or action redraw))"

section \<open>The screen and event routing\<close>

text \<open>The parts of \<open>Screen\<close> the loop reads and writes: the dimensions, the current
  text style and the key map (the output handle and the event stream are the loop's
  input and are not state here).\<close>

text \<open>The commands queued to the output sink (crossterm's \<open>queue!\<close> commands).\<close>

datatype command =
    Cmd_SetBackground color | Cmd_SetForeground color | Cmd_SetAttributes "attribute set"
  | Cmd_Clear | Cmd_MoveTo u16 u16 | Cmd_MoveRight u16 | Cmd_PrintChar char
  | Cmd_PrintStr string | Cmd_SetTitle string
  | Cmd_EnterAlternateScreen | Cmd_LeaveAlternateScreen | Cmd_HideCursor | Cmd_ShowCursor
  | Cmd_DisableLineWrap | Cmd_EnableLineWrap | Cmd_EnableMouseCapture | Cmd_DisableMouseCapture
  | Cmd_ResetColor

record screen =
  scr_dim :: dim
  scr_theme :: theme
  scr_style :: "text_style option"
  scr_keymap :: keymap
  scr_out :: "command list"

definition queue :: "screen \<Rightarrow> command \<Rightarrow> screen" where
  "queue scr c = scr\<lparr>scr_out := scr_out scr @ [c]\<rparr>"

definition set_title :: "screen \<Rightarrow> string \<Rightarrow> screen" where
  "set_title scr t = queue scr (Cmd_SetTitle t)"

definition clear :: "screen \<Rightarrow> screen" where
  "clear scr = queue scr Cmd_Clear"

definition set_background_color :: "screen \<Rightarrow> color \<Rightarrow> screen" where
  "set_background_color scr c =
     (if (case scr_style scr of None \<Rightarrow> True | Some s \<Rightarrow> background s \<noteq> c)
      then queue scr (Cmd_SetBackground c) else scr)"

definition set_foreground_color :: "screen \<Rightarrow> color \<Rightarrow> screen" where
  "set_foreground_color scr c =
     (if (case scr_style scr of None \<Rightarrow> True | Some s \<Rightarrow> foreground s \<noteq> c)
      then queue scr (Cmd_SetForeground c) else scr)"

definition set_appearance :: "screen \<Rightarrow> appearance \<Rightarrow> screen" where
  "set_appearance scr app =
     (let attrs = changed app (case scr_style scr of None \<Rightarrow> appearance_default | Some s \<Rightarrow> appearance s)
      in if attrs \<noteq> {} then queue scr (Cmd_SetAttributes attrs) else scr)"

definition set_style :: "screen \<Rightarrow> text_style \<Rightarrow> screen" where
  "set_style scr st =
     (let scr1 = set_background_color scr (background st);
          scr2 = set_foreground_color scr1 (foreground st);
          scr3 = set_appearance scr2 (appearance st)
      in scr3\<lparr>scr_style := Some st\<rparr>)"

definition move_to :: "screen \<Rightarrow> u16 \<Rightarrow> u16 \<Rightarrow> screen" where
  "move_to scr c r = queue scr (Cmd_MoveTo c r)"

definition move_right :: "screen \<Rightarrow> u16 \<Rightarrow> screen" where
  "move_right scr c = queue scr (Cmd_MoveRight c)"

definition print_char :: "screen \<Rightarrow> char \<Rightarrow> screen" where
  "print_char scr ch = queue scr (Cmd_PrintChar ch)"

definition print_str :: "screen \<Rightarrow> string \<Rightarrow> screen" where
  "print_str scr t = queue scr (Cmd_PrintStr t)"

text \<open>What the terminal shows: colours and SGR attributes, after a sequence of commands,
  with attributes applied in a given order (see Style). \<open>ResetColor\<close> (SGR 0) resets the
  attributes; the colour model has no terminal default colour, so it keeps the colours.\<close>

record terminal =
  term_bg :: color
  term_fg :: color
  term_attrs :: term_attrs

fun term_apply :: "attribute list \<Rightarrow> command \<Rightarrow> terminal \<Rightarrow> terminal" where
  "term_apply order (Cmd_SetBackground c) t = t\<lparr>term_bg := c\<rparr>"
| "term_apply order (Cmd_SetForeground c) t = t\<lparr>term_fg := c\<rparr>"
| "term_apply order (Cmd_SetAttributes xs) t = t\<lparr>term_attrs := apply_attrs order xs (term_attrs t)\<rparr>"
| "term_apply order Cmd_ResetColor t = t\<lparr>term_attrs := shown appearance_default\<rparr>"
| "term_apply order _ t = t"

definition term_run :: "attribute list \<Rightarrow> command list \<Rightarrow> terminal \<Rightarrow> terminal" where
  "term_run order cs t = fold (term_apply order) cs t"

text \<open>The style cache agrees with the terminal: with no cached style the attributes are at
  their default, with a cached style the terminal shows it.\<close>

definition style_cache_ok :: "screen \<Rightarrow> terminal \<Rightarrow> bool" where
  "style_cache_ok scr t \<longleftrightarrow>
     (case scr_style scr of
        None \<Rightarrow> term_attrs t = shown appearance_default
      | Some s \<Rightarrow> appearance_wf (appearance s) \<and> term_bg t = background s
                 \<and> term_fg t = foreground s \<and> term_attrs t = shown (appearance s))"

text \<open>\<open>BBox::clip\<close> (spec-modelled): the intersection of two boxes, computed in \<open>nat\<close>;
  \<open>Dim::is_empty\<close>; and \<open>Screen::cells\<close>: the part of a box on the screen, if any.\<close>

definition clip :: "area \<Rightarrow> area \<Rightarrow> area" where
  "clip a b =
     (let c0 = max (unat (col a)) (unat (col b));
          r0 = max (unat (row a)) (unat (row b));
          c1 = min (unat (col a) + unat (area_width a)) (unat (col b) + unat (area_width b));
          r1 = min (unat (row a) + unat (area_height a)) (unat (row b) + unat (area_height b))
      in area_new (word_of_nat c0) (word_of_nat r0) (word_of_nat (c1 - c0)) (word_of_nat (r1 - r0)))"

definition dim_is_empty :: "dim \<Rightarrow> bool" where
  "dim_is_empty d \<longleftrightarrow> width d = 0 \<or> height d = 0"


definition set_keymap :: "screen \<Rightarrow> keymap \<Rightarrow> screen" where
  "set_keymap scr km = scr\<lparr>scr_keymap := km\<rparr>"

definition set_theme :: "screen \<Rightarrow> theme \<Rightarrow> screen" where
  "set_theme scr th = scr\<lparr>scr_theme := th\<rparr>"

definition screen_bbox :: "screen \<Rightarrow> area" where
  "screen_bbox scr = area_new 0 0 (width (scr_dim scr)) (height (scr_dim scr))"

definition screen_cells :: "screen \<Rightarrow> area \<Rightarrow> area option" where
  "screen_cells scr bb =
     (let b = clip (screen_bbox scr) bb in if dim_is_empty (dim b) then None else Some b)"

definition event_action :: "'w widget_ops \<Rightarrow> screen \<Rightarrow> 'w store \<Rightarrow> event \<Rightarrow> widget_boxes
    \<Rightarrow> screen \<times> 'w store \<times> action option" where
  "event_action ops scr st ev wbs =
     (case ev of
        Ev_Resize d \<Rightarrow> (scr\<lparr>scr_dim := d\<rparr>, st, Some (Resize d))
      | Ev_Key k mods \<Rightarrow> (scr, st, keymap_lookup (scr_keymap scr) k mods)
      | Ev_Mouse mev mods p \<Rightarrow>
          (let (st', a) = mouse_action ops mev mods p wbs st in (scr, st', a)))"

section \<open>The event loop of Screen::step\<close>

text \<open>The stream yields crossterm results: an error code or a decoded event. The loop
  awaits events until one produces an action; an error is returned through \<open>?\<close>; a
  stream that ends makes \<open>unwrap\<close> panic.\<close>

fun step_events :: "'w widget_ops \<Rightarrow> screen \<Rightarrow> 'w store \<Rightarrow> widget_boxes \<Rightarrow> (nat + event) list
    \<Rightarrow> (error + screen \<times> 'w store \<times> action \<times> (nat + event) list) option" where
  "step_events ops scr st wbs [] = None"
| "step_events ops scr st wbs (Inl e # evs) = Some (Inl (Crossterm e))"
| "step_events ops scr st wbs (Inr ev # evs) =
     (case event_action ops scr st ev wbs of
        (scr', st', Some a) \<Rightarrow> Some (Inr (scr', st', a, evs))
      | (scr', st', None) \<Rightarrow> step_events ops scr' st' wbs evs)"

text \<open>\<open>Screen::step\<close>: resolve the layout against the screen's box and theme
  (\<open>GridArea::widget_boxes(self.bbox(), &self.theme)\<close>), then run the loop (drawing is
  output only; the Render theory adds it).\<close>

definition step :: "'w widget_ops \<Rightarrow> screen \<Rightarrow> 'w store \<Rightarrow> (theme \<Rightarrow> area \<Rightarrow> widget_boxes)
    \<Rightarrow> (nat + event) list \<Rightarrow> (error + screen \<times> 'w store \<times> action \<times> (nat + event) list) option" where
  "step ops scr st layout evs = step_events ops scr st (layout (scr_theme scr) (screen_bbox scr)) evs"

section \<open>Buttons as widgets\<close>

text \<open>button.rs implements \<open>mouse_event(mev, mods, pos)\<close> without the box dimensions
  that screen.rs passes; the instance drops them.\<close>

definition button_ops :: "button widget_ops" where
  "button_ops = \<lparr>w_focus = button_focus, w_mouse = (\<lambda>b mev mods d p. button_mouse_event b mev mods p)\<rparr>"

section \<open>Focus over runs of a button layout\<close>

text \<open>A button holds the focus when it is focused or pressed; the invariant is that at most
  one button of the layout does, and the runs are the states reachable by mouse events
  (\<open>mouse_action\<close>) and the application's \<open>enable\<close>/\<open>disable\<close> calls.\<close>

definition holds_focus :: "button \<Rightarrow> bool" where
  "holds_focus b \<longleftrightarrow> state b = Focused \<or> state b = Pressed"

definition single_focus :: "widget_boxes \<Rightarrow> button store \<Rightarrow> bool" where
  "single_focus wbs st \<longleftrightarrow>
     (\<forall>i \<in> fst ` set wbs. \<forall>j \<in> fst ` set wbs. holds_focus (st i) \<and> holds_focus (st j) \<longrightarrow> i = j)"

definition layout_disjoint :: "widget_boxes \<Rightarrow> bool" where
  "layout_disjoint wbs \<longleftrightarrow> distinct (map fst wbs)
     \<and> (\<forall>(i, a) \<in> set wbs. \<forall>(j, b) \<in> set wbs. i \<noteq> j \<longrightarrow> cells a \<inter> cells b = {})"

inductive ui_reach :: "widget_boxes \<Rightarrow> button store \<Rightarrow> bool" for wbs where
  start: "(\<forall>i. state (st i) = Enabled) \<Longrightarrow> ui_reach wbs st"
| mouse: "ui_reach wbs st \<Longrightarrow> ui_reach wbs (fst (mouse_action button_ops mev mods p wbs st))"
| disable: "ui_reach wbs st \<Longrightarrow> ui_reach wbs (st(i := button_disable (st i)))"
| enable: "ui_reach wbs st \<Longrightarrow> ui_reach wbs (st(i := button_enable (st i)))"

section \<open>Dispatch and loop lemmas\<close>

lemma map_upd_other_entries:
  assumes "j \<notin> fst ` set wbs"
  shows "map (\<lambda>(i, bb). f bb ((st(j := w)) i)) wbs = map (\<lambda>(i, bb). f bb (st i)) wbs"
  using assms by (induction wbs) auto

lemma mouse_action_go_eq:
  assumes "distinct (map fst wbs)"
  shows "mouse_action_go ops mev mods p wbs st act rd =
    ((\<lambda>i. case map_of wbs i of Some bb \<Rightarrow> fst (dispatch_one ops mev mods p bb (st i)) | None \<Rightarrow> st i),
     opt_or act (first_some (map (\<lambda>(i, bb). fst (snd (dispatch_one ops mev mods p bb (st i)))) wbs)),
     opt_or rd (first_some (map (\<lambda>(i, bb). snd (snd (dispatch_one ops mev mods p bb (st i)))) wbs)))"
  using assms
proof (induction wbs arbitrary: st act rd)
  case Nil
  then show ?case by simp
next
  case (Cons e wbs)
  obtain j bb where e: "e = (j, bb)" by fastforce
  obtain w' a r where d: "dispatch_one ops mev mods p bb (st j) = (w', a, r)" by (metis prod_cases3)
  from Cons.prems e have j: "j \<notin> fst ` set wbs" and dist: "distinct (map fst wbs)" by auto
  have IH: "mouse_action_go ops mev mods p wbs (st(j := w')) (opt_or act a) (opt_or rd r) =
    ((\<lambda>i. case map_of wbs i of Some bb \<Rightarrow> fst (dispatch_one ops mev mods p bb ((st(j := w')) i))
                             | None \<Rightarrow> (st(j := w')) i),
     opt_or (opt_or act a) (first_some (map (\<lambda>(i, bb). fst (snd (dispatch_one ops mev mods p bb ((st(j := w')) i)))) wbs)),
     opt_or (opt_or rd r) (first_some (map (\<lambda>(i, bb). snd (snd (dispatch_one ops mev mods p bb ((st(j := w')) i)))) wbs)))"
    using Cons.IH [OF dist] by blast
  have none: "map_of wbs j = None" using j by (simp add: map_of_eq_None_iff)
  have other: "\<And>i bb'. map_of wbs i = Some bb' \<Longrightarrow> i \<noteq> j"
    using j by (force dest: map_of_SomeD)
  have m1: "map (\<lambda>(i, bb). fst (snd (dispatch_one ops mev mods p bb ((st(j := w')) i)))) wbs =
      map (\<lambda>(i, bb). fst (snd (dispatch_one ops mev mods p bb (st i)))) wbs"
    by (rule map_upd_other_entries [OF j])
  have m2: "map (\<lambda>(i, bb). snd (snd (dispatch_one ops mev mods p bb ((st(j := w')) i)))) wbs =
      map (\<lambda>(i, bb). snd (snd (dispatch_one ops mev mods p bb (st i)))) wbs"
    by (rule map_upd_other_entries [OF j])
  show ?case
    unfolding e using d IH [unfolded m1 m2] none other
    by (auto simp: opt_or_assoc fun_eq_iff split: option.splits)
qed

lemma dispatch_one_parts:
  "fst (dispatch_one ops mev mods p bb w) =
     (let w1 = (case focus_of_mouse mev (within bb p \<noteq> None) of
                  Some fev \<Rightarrow> fst (w_focus ops w fev) | None \<Rightarrow> w)
      in case within bb p of Some q \<Rightarrow> fst (w_mouse ops w1 mev mods (dim bb) q) | None \<Rightarrow> w1)"
  by (simp add: dispatch_one_def split: option.splits prod.splits)

lemma mouse_action_eq:
  assumes "distinct (map fst wbs)"
  shows "mouse_action ops mev mods p wbs st =
    ((\<lambda>i. case map_of wbs i of Some bb \<Rightarrow> fst (dispatch_one ops mev mods p bb (st i)) | None \<Rightarrow> st i),
     opt_or (first_some (map (\<lambda>(i, bb). fst (snd (dispatch_one ops mev mods p bb (st i)))) wbs))
            (first_some (map (\<lambda>(i, bb). snd (snd (dispatch_one ops mev mods p bb (st i)))) wbs)))"
  by (simp add: mouse_action_def mouse_action_go_eq [OF assms])

text \<open>C1: mouse dispatch: after a mouse event every widget of the layout (identities
  distinct) has received the focus notification for its side of the pointer, and only a
  widget whose box holds the pointer has received the raw mouse event, at the position
  relative to its box.\<close>

lemma mouse_action_dispatch:
  assumes "distinct (map fst wbs)" and "(i, bb) \<in> set wbs"
  shows "fst (mouse_action ops mev mods p wbs st) i =
    (let w1 = (case focus_of_mouse mev (within bb p \<noteq> None) of
                 Some fev \<Rightarrow> fst (w_focus ops (st i) fev) | None \<Rightarrow> st i)
     in case within bb p of Some q \<Rightarrow> fst (w_mouse ops w1 mev mods (dim bb) q) | None \<Rightarrow> w1)"
proof -
  have "map_of wbs i = Some bb" using assms by (rule map_of_is_SomeI)
  then show ?thesis by (simp add: mouse_action_eq [OF assms(1)] dispatch_one_parts)
qed

text \<open>C2: the action of a mouse event is the first action a widget's mouse handler returned,
  in layout order, and otherwise the first action a focus notification returned.\<close>

lemma mouse_action_result:
  assumes "distinct (map fst wbs)"
  shows "snd (mouse_action ops mev mods p wbs st) =
     opt_or (first_some (map (\<lambda>(i, bb). fst (snd (dispatch_one ops mev mods p bb (st i)))) wbs))
            (first_some (map (\<lambda>(i, bb). snd (snd (dispatch_one ops mev mods p bb (st i)))) wbs))"
  by (simp add: mouse_action_eq [OF assms])

lemma button_state_after_down:
  "state (fst (dispatch_one button_ops (ButtonDown btn) mods p bb b)) =
     (if state b = Disabled then Disabled else if within bb p = None then Enabled else Pressed)"
  by (cases "state b"; cases "within bb p")
     (simp_all add: dispatch_one_parts button_ops_def button_focus_def button_mouse_event_def)

text \<open>C3: after a button press, every enabled button outside the pointer's box is back to
  \<open>Enabled\<close>, every enabled button under the pointer is \<open>Pressed\<close>, and disabled buttons
  stay disabled.\<close>

lemma button_down_focus:
  assumes "distinct (map fst wbs)" and "(i, bb) \<in> set wbs"
  shows "state (fst (mouse_action button_ops (ButtonDown btn) mods p wbs st) i) =
     (if state (st i) = Disabled then Disabled else if within bb p = None then Enabled else Pressed)"
proof -
  have "map_of wbs i = Some bb" using assms by (rule map_of_is_SomeI)
  then show ?thesis by (simp add: mouse_action_eq [OF assms(1)] button_state_after_down)
qed


text \<open>C4: when the boxes of a layout do not overlap, a button press leaves at most one
  button pressed.\<close>

lemma button_down_unique_press:
  assumes "distinct (map fst wbs)" and "(i, a) \<in> set wbs" and "(j, b) \<in> set wbs"
    and "cells a \<inter> cells b = {} \<or> i = j"
    and "state (fst (mouse_action button_ops (ButtonDown btn) mods p wbs st) i) = Pressed"
    and "state (fst (mouse_action button_ops (ButtonDown btn) mods p wbs st) j) = Pressed"
  shows "i = j"
proof -
  have "map_of wbs i = Some a" "map_of wbs j = Some b"
    using assms(1-3) by (simp_all add: map_of_is_SomeI)
  then have "within a p \<noteq> None" "within b p \<noteq> None"
    using assms(5,6) by (simp_all add: mouse_action_eq [OF assms(1)] button_state_after_down split: if_splits)
  then have "(unat (pos_col p), unat (pos_row p)) \<in> cells a \<inter> cells b"
    by (simp add: within_cells [symmetric])
  then show ?thesis using assms(4) by auto
qed

text \<open>C13: a resize event ends the wait with \<open>Resize\<close> of the new dimensions, without touching
  any widget, and the next frame is laid out in a box of the new size.\<close>

lemma step_events_resize:
  "step_events ops scr st wbs (Inr (Ev_Resize d) # evs) = Some (Inr (scr\<lparr>scr_dim := d\<rparr>, st, Resize d, evs))
   \<and> screen_bbox (scr\<lparr>scr_dim := d\<rparr>) = area_new 0 0 (width d) (height d)"
  by (simp add: event_action_def screen_bbox_def)

text \<open>C12: the event loop of \<open>step\<close> returns (does not reach the end of the stream and
  panic) as soon as the stream holds a resize event or a stream error.\<close>

lemma step_events_returns:
  assumes "(\<exists>d. Inr (Ev_Resize d) \<in> set evs) \<or> (\<exists>e. Inl e \<in> set evs)"
  shows "step_events ops scr st wbs evs \<noteq> None"
  using assms
proof (induction evs arbitrary: scr st)
  case Nil
  then show ?case by simp
next
  case (Cons x evs)
  show ?case
  proof (cases x)
    case (Inl e)
    then show ?thesis by simp
  next
    case (Inr ev)
    show ?thesis
    proof (cases "event_action ops scr st ev wbs")
      case (fields scr' st' a)
      show ?thesis
      proof (cases a)
        case None
        with Inr fields have "\<forall>d. ev \<noteq> Ev_Resize d"
          by (auto simp: event_action_def)
        with Cons.prems Inr have "(\<exists>d. Inr (Ev_Resize d) \<in> set evs) \<or> (\<exists>e. Inl e \<in> set evs)" by auto
        then have "step_events ops scr' st' wbs evs \<noteq> None" by (rule Cons.IH)
        with Inr fields None show ?thesis by simp
      next
        case (Some act)
        with Inr fields show ?thesis by simp
      qed
    qed
  qed
qed


text \<open>C14: a key the key map does not know is dropped: the loop goes on with the next event.\<close>

lemma step_events_unmapped_key:
  "keymap_lookup (scr_keymap scr) k mods = None \<Longrightarrow>
     step_events ops scr st wbs (Inr (Ev_Key k mods) # evs) = step_events ops scr st wbs evs"
  by (simp add: event_action_def)

text \<open>C15: a key the key map knows ends the wait with its action, leaving screen and
  widgets unchanged.\<close>

lemma step_events_mapped_key:
  "keymap_lookup (scr_keymap scr) k mods = Some a \<Longrightarrow>
     step_events ops scr st wbs (Inr (Ev_Key k mods) # evs) = Some (Inr (scr, st, a, evs))"
  by (simp add: event_action_def)

text \<open>C16: a returning loop hands back exactly the events after the one that produced
  the action: the events split into a prefix, the deciding event and the rest, where the
  prefix alone produces no action and no error (the loop would run off its end), and the
  prefix with the deciding event produces the same screen, widgets and action with nothing
  left over.\<close>

lemma step_events_suffix:
  "step_events ops scr st wbs evs = Some (Inr (scr', st', a, rest)) \<Longrightarrow>
     \<exists>pre ev. evs = pre @ Inr ev # rest \<and> step_events ops scr st wbs pre = None
       \<and> step_events ops scr st wbs (pre @ [Inr ev]) = Some (Inr (scr', st', a, []))"
proof (induction ops scr st wbs evs rule: step_events.induct)
  case (3 ops scr st wbs ev evs)
  obtain s1 t1 a1 where ea: "event_action ops scr st ev wbs = (s1, t1, a1)" by (metis prod_cases3)
  show ?case
  proof (cases a1)
    case None
    with ea "3.prems" have "step_events ops s1 t1 wbs evs = Some (Inr (scr', st', a, rest))" by simp
    with "3.IH" [OF ea [symmetric] refl None] obtain pre e where
      "evs = pre @ Inr e # rest" "step_events ops s1 t1 wbs pre = None"
      "step_events ops s1 t1 wbs (pre @ [Inr e]) = Some (Inr (scr', st', a, []))" by blast
    then show ?thesis using ea None by (intro exI [of _ "Inr ev # pre"] exI [of _ e]) simp
  next
    case (Some b)
    with ea "3.prems" have "rest = evs" "s1 = scr'" "t1 = st'" "b = a" by simp_all
    then show ?thesis using ea Some by (intro exI [of _ "[]"] exI [of _ ev]) simp
  qed
qed simp_all


section \<open>Witnesses on a two-button layout\<close>

lemma demo_layout_facts:
  "distinct (map fst [(0::nat, area_new 0 0 5 1), (1, area_new 5 0 5 1)])"
  "(0::nat, area_new 0 0 5 1) \<in> set [(0::nat, area_new 0 0 5 1), (1, area_new 5 0 5 1)]"
  "within (area_new 0 0 5 1) \<lparr>pos_col = 2, pos_row = 0\<rparr> = Some \<lparr>pos_col = 2, pos_row = 0\<rparr>"
  "within (area_new 5 0 5 1) \<lparr>pos_col = 2, pos_row = 0\<rparr> = None"
  by (simp_all add: within_def)

lemma mouse_action_dispatch_witness:
  "fst (mouse_action button_ops (ButtonDown Left_Button) no_mods
      \<lparr>pos_col = 2, pos_row = 0\<rparr> [(0, area_new 0 0 5 1), (1, area_new 5 0 5 1)] (\<lambda>_. button_new ''OK'')) 0
   = fst (button_mouse_event (fst (button_focus (button_new ''OK'') Offer)) (ButtonDown Left_Button)
      no_mods \<lparr>pos_col = 2, pos_row = 0\<rparr>)"
  using mouse_action_dispatch [OF demo_layout_facts(1,2), of button_ops "ButtonDown Left_Button" no_mods
      "\<lparr>pos_col = 2, pos_row = 0\<rparr>" "\<lambda>_. button_new ''OK''"]
  by (simp add: demo_layout_facts(3) button_ops_def)

lemma mouse_action_result_witness:
  "snd (mouse_action button_ops (Drag None) no_mods
      \<lparr>pos_col = 2, pos_row = 0\<rparr> [(0, area_new 0 0 5 1), (1, area_new 5 0 5 1)] (\<lambda>_. button_new ''OK''))
   = opt_or (first_some (map (\<lambda>(i, bb). fst (snd (dispatch_one button_ops (Drag None)
        no_mods \<lparr>pos_col = 2, pos_row = 0\<rparr> bb (button_new ''OK''))))
        [(0::nat, area_new 0 0 5 1), (1, area_new 5 0 5 1)]))
     (first_some (map (\<lambda>(i, bb). snd (snd (dispatch_one button_ops (Drag None)
        no_mods \<lparr>pos_col = 2, pos_row = 0\<rparr> bb (button_new ''OK''))))
        [(0::nat, area_new 0 0 5 1), (1, area_new 5 0 5 1)]))"
  using mouse_action_result [OF demo_layout_facts(1)] by simp

lemma button_down_focus_witness:
  "state (fst (mouse_action button_ops (ButtonDown Left_Button) no_mods
      \<lparr>pos_col = 2, pos_row = 0\<rparr> [(0, area_new 0 0 5 1), (1, area_new 5 0 5 1)] (\<lambda>_. button_new ''OK'')) 0)
   = Pressed"
proof -
  have "state (fst (mouse_action button_ops (ButtonDown Left_Button) no_mods
      \<lparr>pos_col = 2, pos_row = 0\<rparr> [(0, area_new 0 0 5 1), (1, area_new 5 0 5 1)] (\<lambda>_. button_new ''OK'')) 0)
    = (if state ((\<lambda>_. button_new ''OK'') 0) = Disabled then Disabled
       else if within (area_new 0 0 5 1) \<lparr>pos_col = 2, pos_row = 0\<rparr> = None then Enabled else Pressed)"
    by (rule button_down_focus [OF demo_layout_facts(1,2)])
  also have "\<dots> = Pressed" by (simp add: demo_layout_facts(3) button_new_def)
  finally show ?thesis .
qed

lemma button_down_unique_press_witness:
  "state (fst (mouse_action button_ops (ButtonDown Left_Button) no_mods \<lparr>pos_col = 2, pos_row = 0\<rparr>
      [(0, area_new 0 0 5 1), (1, area_new 5 0 5 1)] (\<lambda>_. button_new ''OK'')) 0) = Pressed
   \<and> (0::nat) = 0"
proof -
  let ?wbs = "[(0::nat, area_new 0 0 5 1), (1, area_new 5 0 5 1)]"
  let ?st = "fst (mouse_action button_ops (ButtonDown Left_Button) no_mods
      \<lparr>pos_col = 2, pos_row = 0\<rparr> ?wbs (\<lambda>_. button_new ''OK''))"
  have "map_of ?wbs 0 = Some (area_new 0 0 5 1)" by simp
  then have p: "state (?st 0) = Pressed"
    unfolding mouse_action_eq [OF demo_layout_facts(1)]
    by (simp add: button_state_after_down demo_layout_facts(3) button_new_def)
  show ?thesis using button_down_unique_press [OF demo_layout_facts(1,2,2) _ p p] p by simp
qed

lemma step_events_returns_witness:
  "step_events button_ops \<lparr>scr_dim = dim_new 80 24, scr_theme = \<lparr>th_background = Black Normal_Intensity, th_foreground = White Bright,
        th_dark_shadow = Black Bright, th_secondary = Cyan Normal_Intensity, th_tertiary = Yellow Bright\<rparr>,
        scr_style = None, scr_keymap = Map.empty, scr_out = []\<rparr> (\<lambda>_. button_new ''OK'') [] [Inr (Ev_Key (Key_Char CHR ''x'') no_mods),
     Inr (Ev_Resize (dim_new 80 24))] \<noteq> None"
  by (rule step_events_returns) auto

lemma step_events_unmapped_key_witness:
  "step_events button_ops \<lparr>scr_dim = dim_new 80 24, scr_theme = \<lparr>th_background = Black Normal_Intensity, th_foreground = White Bright,
        th_dark_shadow = Black Bright, th_secondary = Cyan Normal_Intensity, th_tertiary = Yellow Bright\<rparr>,
        scr_style = None, scr_keymap = Map.empty, scr_out = []\<rparr>
     (\<lambda>_. button_new ''OK'') [] [Inr (Ev_Key (Key_Char CHR ''x'') no_mods)] =
   step_events button_ops \<lparr>scr_dim = dim_new 80 24, scr_theme = \<lparr>th_background = Black Normal_Intensity, th_foreground = White Bright,
        th_dark_shadow = Black Bright, th_secondary = Cyan Normal_Intensity, th_tertiary = Yellow Bright\<rparr>,
        scr_style = None, scr_keymap = Map.empty, scr_out = []\<rparr>
     (\<lambda>_. button_new ''OK'') [] []"
  by (rule step_events_unmapped_key) (simp add: keymap_lookup_def)

lemma step_events_mapped_key_witness:
  "step_events button_ops
     \<lparr>scr_dim = dim_new 80 24, scr_theme = \<lparr>th_background = Black Normal_Intensity, th_foreground = White Bright,
        th_dark_shadow = Black Bright, th_secondary = Cyan Normal_Intensity, th_tertiary = Yellow Bright\<rparr>,
        scr_style = None, scr_keymap = [(Key_Named ''Esc'', no_mods) \<mapsto> Quit], scr_out = []\<rparr>
     (\<lambda>_. button_new ''OK'') [] [Inr (Ev_Key (Key_Named ''Esc'') no_mods)] =
   Some (Inr (\<lparr>scr_dim = dim_new 80 24, scr_theme = \<lparr>th_background = Black Normal_Intensity, th_foreground = White Bright,
        th_dark_shadow = Black Bright, th_secondary = Cyan Normal_Intensity, th_tertiary = Yellow Bright\<rparr>,
        scr_style = None, scr_keymap = [(Key_Named ''Esc'', no_mods) \<mapsto> Quit], scr_out = []\<rparr>,
     (\<lambda>_. button_new ''OK''), Quit, []))"
  by (rule step_events_mapped_key) (simp add: keymap_lookup_def)

lemma step_events_suffix_witness:
  "\<exists>pre ev. [Inr (Ev_Resize (dim_new 80 24)) :: nat + event, Inr (Ev_Key (Key_Char CHR ''x'') no_mods)] =
       pre @ Inr ev # [Inr (Ev_Key (Key_Char CHR ''x'') no_mods)]
     \<and> step_events button_ops \<lparr>scr_dim = dim_new 80 24, scr_theme = \<lparr>th_background = Black Normal_Intensity, th_foreground = White Bright,
        th_dark_shadow = Black Bright, th_secondary = Cyan Normal_Intensity, th_tertiary = Yellow Bright\<rparr>,
        scr_style = None, scr_keymap = Map.empty, scr_out = []\<rparr> (\<lambda>_. button_new ''OK'') [] pre = None
     \<and> step_events button_ops \<lparr>scr_dim = dim_new 80 24, scr_theme = \<lparr>th_background = Black Normal_Intensity, th_foreground = White Bright,
        th_dark_shadow = Black Bright, th_secondary = Cyan Normal_Intensity, th_tertiary = Yellow Bright\<rparr>,
        scr_style = None, scr_keymap = Map.empty, scr_out = []\<rparr> (\<lambda>_. button_new ''OK'') [] (pre @ [Inr ev]) =
       Some (Inr (\<lparr>scr_dim = dim_new 80 24, scr_theme = \<lparr>th_background = Black Normal_Intensity, th_foreground = White Bright,
        th_dark_shadow = Black Bright, th_secondary = Cyan Normal_Intensity, th_tertiary = Yellow Bright\<rparr>,
        scr_style = None, scr_keymap = Map.empty, scr_out = []\<rparr>, (\<lambda>_. button_new ''OK''), Resize (dim_new 80 24), []))"
proof -
  have h: "step_events button_ops \<lparr>scr_dim = dim_new 80 24, scr_theme = \<lparr>th_background = Black Normal_Intensity, th_foreground = White Bright,
        th_dark_shadow = Black Bright, th_secondary = Cyan Normal_Intensity, th_tertiary = Yellow Bright\<rparr>,
        scr_style = None, scr_keymap = Map.empty, scr_out = []\<rparr> (\<lambda>_. button_new ''OK'') []
      [Inr (Ev_Resize (dim_new 80 24)), Inr (Ev_Key (Key_Char CHR ''x'') no_mods)] =
    Some (Inr (\<lparr>scr_dim = dim_new 80 24, scr_theme = \<lparr>th_background = Black Normal_Intensity, th_foreground = White Bright,
        th_dark_shadow = Black Bright, th_secondary = Cyan Normal_Intensity, th_tertiary = Yellow Bright\<rparr>,
        scr_style = None, scr_keymap = Map.empty, scr_out = []\<rparr>, (\<lambda>_. button_new ''OK''), Resize (dim_new 80 24),
      [Inr (Ev_Key (Key_Char CHR ''x'') no_mods)]))"
    by (simp add: event_action_def)
  show ?thesis using step_events_suffix [OF h] by blast
qed

section \<open>The style cache and clipping\<close>

lemma term_run_append: "term_run order (xs @ ys) t = term_run order ys (term_run order xs t)"
  by (simp add: term_run_def)

lemma term_run_queue: "term_run order (scr_out (queue scr c)) t = term_apply order c (term_run order (scr_out scr) t)"
  by (simp add: queue_def term_run_def)

lemma apply_attrs_empty: "apply_attrs order {} t = t"
proof -
  have "fold (\<lambda>x t. if x \<in> {} then sgr_apply x t else t) order t = t" by (induction order arbitrary: t) simp_all
  then show ?thesis by (simp add: apply_attrs_def)
qed

lemma queue_sel [simp]: "scr_style (queue scr c) = scr_style scr" "scr_dim (queue scr c) = scr_dim scr"
  by (simp_all add: queue_def)

text \<open>C27: on a terminal that applies the attribute resets of one \<open>SetAttributes\<close>
  before its sets (\<open>resets_first\<close>, an explicit hypothesis of the statement), the style
  cache of \<open>Screen\<close> refines the terminal: if the cached style agrees with what the
  terminal shows after the output queued so far, it still agrees after \<open>set_style\<close> and
  the commands it queues (colours are sent only when they differ from the cache,
  attributes as computed by \<open>changed\<close>). crossterm emits sets before resets; under that
  order the refinement fails when an attribute is kept, as the Style theory's
  \<open>crossterm_order_toggles\<close> shows for every appearance.\<close>

lemma set_style_refines:
  assumes ok: "style_cache_ok scr (term_run resets_first (scr_out scr) t0)"
    and wf: "appearance_wf (appearance st)"
  shows "style_cache_ok (set_style scr st) (term_run resets_first (scr_out (set_style scr st)) t0)"
proof -
  let ?T = "term_run resets_first (scr_out scr) t0"
  let ?before = "case scr_style scr of None \<Rightarrow> appearance_default | Some s \<Rightarrow> appearance s"
  let ?s1 = "set_background_color scr (background st)"
  let ?s2 = "set_foreground_color ?s1 (foreground st)"
  let ?s3 = "set_appearance ?s2 (appearance st)"
  have bwf: "appearance_wf ?before" and battr: "term_attrs ?T = shown ?before"
    using ok by (auto simp: style_cache_ok_def appearance_wf_def appearance_default_def split: option.splits)
  have st12: "scr_style ?s1 = scr_style scr" "scr_style ?s2 = scr_style scr"
    by (simp_all add: set_background_color_def set_foreground_color_def)
  have bg1: "term_bg (term_run resets_first (scr_out ?s1) t0) = background st"
    using ok by (auto simp: set_background_color_def term_run_queue style_cache_ok_def split: option.splits)
  have at1: "term_attrs (term_run resets_first (scr_out ?s1) t0) = term_attrs ?T"
    by (auto simp: set_background_color_def term_run_queue)
  have fg1: "term_fg (term_run resets_first (scr_out ?s1) t0) = term_fg ?T"
    by (auto simp: set_background_color_def term_run_queue)
  have fg2: "term_fg (term_run resets_first (scr_out ?s2) t0) = foreground st"
    using ok st12 fg1 by (auto simp: set_foreground_color_def term_run_queue style_cache_ok_def split: option.splits)
  have bg2: "term_bg (term_run resets_first (scr_out ?s2) t0) = background st"
    using bg1 by (auto simp: set_foreground_color_def term_run_queue)
  have at2: "term_attrs (term_run resets_first (scr_out ?s2) t0) = shown ?before"
    using at1 battr by (auto simp: set_foreground_color_def term_run_queue)
  have sh: "apply_attrs resets_first (changed (appearance st) ?before) (shown ?before) = shown (appearance st)"
    using wf bwf by (rule apply_changed_shown)
  have at3: "term_attrs (term_run resets_first (scr_out ?s3) t0) = shown (appearance st)"
    using at2 sh st12 by (auto simp: set_appearance_def term_run_queue Let_def apply_attrs_empty)
  have c3: "term_bg (term_run resets_first (scr_out ?s3) t0) = background st
     \<and> term_fg (term_run resets_first (scr_out ?s3) t0) = foreground st"
    using bg2 fg2 by (auto simp: set_appearance_def term_run_queue Let_def)
  show ?thesis using wf at3 c3
    by (simp add: set_style_def Let_def style_cache_ok_def)
qed

lemma ivl_of_nat_u16:
  assumes "c1 < 65536" and "c0 < 65536"
  shows "{unat (word_of_nat c0 :: u16)..<unat (word_of_nat c0 :: u16) + unat (word_of_nat (c1 - c0) :: u16)}
       = {c0..<c1}"
proof -
  have a: "unat (word_of_nat c0 :: u16) = c0" using assms(2) by (simp add: unat_of_nat)
  have b: "unat (word_of_nat (c1 - c0) :: u16) = c1 - c0" using assms by (simp add: unat_of_nat)
  show ?thesis by (auto simp: a b)
qed

lemma clip_cells:
  assumes "area_wf a"
  shows "cells (clip a b) = cells a \<inter> cells b"
proof -
  let ?c0 = "max (unat (col a)) (unat (col b))"
  let ?r0 = "max (unat (row a)) (unat (row b))"
  let ?c1 = "min (unat (col a) + unat (area_width a)) (unat (col b) + unat (area_width b))"
  let ?r1 = "min (unat (row a) + unat (area_height a)) (unat (row b) + unat (area_height b))"
  have c: "?c1 < 65536" "?r1 < 65536" using assms by (auto simp: area_wf_def)
  have m: "?c0 < 65536" "?r0 < 65536" by (simp_all add: max_def)
  show ?thesis
    by (simp add: clip_def cells_def Let_def ivl_of_nat_u16 [OF c(1) m(1)] ivl_of_nat_u16 [OF c(2) m(2)]
        Times_Int_Times Int_atLeastLessThan)
qed

lemma screen_bbox_wf: "area_wf (screen_bbox scr)"
  by (simp add: screen_bbox_def area_wf_def)

text \<open>C28: \<open>Screen::cells\<close> hands a widget exactly the part of its box that lies on
  the screen, and only when that part is not empty: drawing never leaves the screen or the
  widget's box.\<close>

lemma screen_cells_within:
  assumes "screen_cells scr bb = Some b"
  shows "cells b = cells (screen_bbox scr) \<inter> cells bb \<and> cells b \<noteq> {}"
proof -
  from assms have b: "b = clip (screen_bbox scr) bb" and ne: "\<not> dim_is_empty (dim b)"
    by (auto simp: screen_cells_def Let_def split: if_splits)
  have "cells b \<noteq> {}"
    using ne by (simp add: cells_def dim_is_empty_def area_width_def area_height_def unat_gt_0)
  then show ?thesis using b clip_cells [OF screen_bbox_wf] by simp
qed


lemma drag_held_inside_no_focus: "focus_of_mouse (Drag (Some btn)) True = None"
  by simp

lemma set_style_refines_witness:
  "style_cache_ok
     (set_style \<lparr>scr_dim = dim_new 80 24, scr_theme = \<lparr>th_background = Black Normal_Intensity, th_foreground = White Bright,
        th_dark_shadow = Black Bright, th_secondary = Cyan Normal_Intensity, th_tertiary = Yellow Bright\<rparr>,
        scr_style = None, scr_keymap = Map.empty, scr_out = []\<rparr>
        text_style_default)
     (term_run resets_first (scr_out (set_style
        \<lparr>scr_dim = dim_new 80 24, scr_theme = \<lparr>th_background = Black Normal_Intensity, th_foreground = White Bright,
        th_dark_shadow = Black Bright, th_secondary = Cyan Normal_Intensity, th_tertiary = Yellow Bright\<rparr>,
        scr_style = None, scr_keymap = Map.empty, scr_out = []\<rparr> text_style_default))
        \<lparr>term_bg = Red Bright, term_fg = Red Bright, term_attrs = shown appearance_default\<rparr>)"
proof -
  have ok: "style_cache_ok \<lparr>scr_dim = dim_new 80 24, scr_theme = \<lparr>th_background = Black Normal_Intensity, th_foreground = White Bright,
        th_dark_shadow = Black Bright, th_secondary = Cyan Normal_Intensity, th_tertiary = Yellow Bright\<rparr>,
        scr_style = None, scr_keymap = Map.empty, scr_out = []\<rparr>
      (term_run resets_first (scr_out \<lparr>scr_dim = dim_new 80 24, scr_theme = \<lparr>th_background = Black Normal_Intensity, th_foreground = White Bright,
        th_dark_shadow = Black Bright, th_secondary = Cyan Normal_Intensity, th_tertiary = Yellow Bright\<rparr>,
        scr_style = None, scr_keymap = Map.empty, scr_out = []\<rparr>)
        \<lparr>term_bg = Red Bright, term_fg = Red Bright, term_attrs = shown appearance_default\<rparr>)"
    by (simp add: style_cache_ok_def term_run_def)
  have wf: "appearance_wf (appearance text_style_default)"
    by (simp add: text_style_default_def appearance_wf_def appearance_default_def)
  show ?thesis by (rule set_style_refines [OF ok wf])
qed

lemma screen_cells_within_witness:
  "cells (area_new 70 20 10 4) =
     cells (screen_bbox \<lparr>scr_dim = dim_new 80 24, scr_theme = \<lparr>th_background = Black Normal_Intensity, th_foreground = White Bright,
        th_dark_shadow = Black Bright, th_secondary = Cyan Normal_Intensity, th_tertiary = Yellow Bright\<rparr>,
        scr_style = None, scr_keymap = Map.empty, scr_out = []\<rparr>)
     \<inter> cells (area_new 70 20 20 10)"
proof -
  have "screen_cells \<lparr>scr_dim = dim_new 80 24, scr_theme = \<lparr>th_background = Black Normal_Intensity, th_foreground = White Bright,
        th_dark_shadow = Black Bright, th_secondary = Cyan Normal_Intensity, th_tertiary = Yellow Bright\<rparr>,
        scr_style = None, scr_keymap = Map.empty, scr_out = []\<rparr>
      (area_new 70 20 20 10) = Some (area_new 70 20 10 4)"
    by (simp add: screen_cells_def clip_def screen_bbox_def dim_is_empty_def dim_new_def area_new_def
        area_width_def area_height_def)
  then show ?thesis using screen_cells_within by blast
qed

section \<open>At most one focused button\<close>

lemma dispatch_focus_mono:
  assumes "\<forall>btn. mev \<noteq> ButtonDown btn"
    and "holds_focus (fst (dispatch_one button_ops mev mods p bb b))"
  shows "holds_focus b"
proof (cases mev)
  case (ButtonDown btn)
  then show ?thesis using assms(1) by blast
next
  case (ButtonUp btn)
  then show ?thesis using assms(2)
    by (cases "state b"; cases "within bb p")
       (auto simp: holds_focus_def dispatch_one_parts button_ops_def button_focus_def button_mouse_event_def)
next
  case (Drag d)
  then show ?thesis using assms(2)
    by (cases d; cases "state b"; cases "within bb p")
       (auto simp: holds_focus_def dispatch_one_parts button_ops_def button_focus_def button_mouse_event_def)
qed

lemma dispatch_down_focus_inside:
  "holds_focus (fst (dispatch_one button_ops (ButtonDown btn) mods p bb b)) \<Longrightarrow> within bb p \<noteq> None"
  by (auto simp: holds_focus_def button_state_after_down split: if_splits)

lemma single_focus_mouse:
  assumes lay: "layout_disjoint wbs" and sf: "single_focus wbs st"
  shows "single_focus wbs (fst (mouse_action button_ops mev mods p wbs st))"
  unfolding single_focus_def
proof (intro ballI impI)
  fix i j
  assume i: "i \<in> fst ` set wbs" and j: "j \<in> fst ` set wbs"
    and h: "holds_focus (fst (mouse_action button_ops mev mods p wbs st) i)
          \<and> holds_focus (fst (mouse_action button_ops mev mods p wbs st) j)"
  have dist: "distinct (map fst wbs)" using lay by (simp add: layout_disjoint_def)
  obtain a where ia: "(i, a) \<in> set wbs" using i by auto
  obtain b where jb: "(j, b) \<in> set wbs" using j by auto
  have a: "map_of wbs i = Some a" using dist ia by (rule map_of_is_SomeI)
  have b: "map_of wbs j = Some b" using dist jb by (rule map_of_is_SomeI)
  have hi: "holds_focus (fst (dispatch_one button_ops mev mods p a (st i)))"
    and hj: "holds_focus (fst (dispatch_one button_ops mev mods p b (st j)))"
    using h a b by (simp_all add: mouse_action_eq [OF dist])
  show "i = j"
  proof (cases "\<exists>btn. mev = ButtonDown btn")
    case True
    then obtain btn where mev: "mev = ButtonDown btn" by blast
    have "within a p \<noteq> None" "within b p \<noteq> None"
      using hi hj dispatch_down_focus_inside unfolding mev by blast+
    then have pt: "(unat (pos_col p), unat (pos_row p)) \<in> cells a \<inter> cells b"
      by (simp add: within_cells [symmetric])
    have "i \<noteq> j \<longrightarrow> cells a \<inter> cells b = {}"
      using lay ia jb unfolding layout_disjoint_def by fastforce
    then show ?thesis using pt by blast
  next
    case False
    then have "holds_focus (st i)" "holds_focus (st j)"
      using hi hj dispatch_focus_mono by blast+
    then show ?thesis using sf i j unfolding single_focus_def by blast
  qed
qed

lemma single_focus_update:
  assumes "single_focus wbs st" and "holds_focus b \<Longrightarrow> holds_focus (st i)"
  shows "single_focus wbs (st(i := b))"
  using assms by (auto simp: single_focus_def)

lemma holds_focus_enable_disable:
  "holds_focus (button_enable b) \<Longrightarrow> holds_focus b" "\<not> holds_focus (button_disable b)"
  by (cases "state b"; simp add: holds_focus_def button_enable_def button_disable_def)+

text \<open>C29: on a layout of buttons whose boxes do not overlap, at most one button holds the
  focus (is focused or pressed) in every state reachable from all buttons enabled by any
  sequence of mouse events and calls of \<open>enable\<close> and \<open>disable\<close> (key and resize
  events leave the widgets untouched).\<close>

lemma ui_reach_single_focus:
  assumes "layout_disjoint wbs" and "ui_reach wbs st"
  shows "single_focus wbs st"
  using assms(2)
proof (induction rule: ui_reach.induct)
  case (start st)
  then show ?case by (simp add: single_focus_def holds_focus_def)
next
  case (mouse st mev mods p)
  then show ?case using assms(1) by (rule_tac single_focus_mouse) auto
next
  case (disable st i)
  then show ?case by (intro single_focus_update) (simp_all add: holds_focus_enable_disable)
next
  case (enable st i)
  then show ?case by (intro single_focus_update) (simp_all add: holds_focus_enable_disable)
qed

lemma ui_reach_single_focus_witness:
  "single_focus [(0, area_new 0 0 5 1), (1, area_new 5 0 5 1)]
     (fst (mouse_action button_ops (ButtonDown Left_Button) no_mods \<lparr>pos_col = 2, pos_row = 0\<rparr>
        [(0, area_new 0 0 5 1), (1, area_new 5 0 5 1)] (\<lambda>_. button_new ''OK'')))"
proof -
  have lay: "layout_disjoint [(0, area_new 0 0 5 1), (1, area_new 5 0 5 1)]"
    by (simp add: layout_disjoint_def cells_def Times_Int_Times)
  have r: "ui_reach [(0, area_new 0 0 5 1), (1, area_new 5 0 5 1)] (\<lambda>_. button_new ''OK'')"
    by (rule ui_reach.start) (simp add: button_new_def)
  have "ui_reach [(0, area_new 0 0 5 1), (1, area_new 5 0 5 1)]
     (fst (mouse_action button_ops (ButtonDown Left_Button) no_mods \<lparr>pos_col = 2, pos_row = 0\<rparr>
        [(0, area_new 0 0 5 1), (1, area_new 5 0 5 1)] (\<lambda>_. button_new ''OK'')))"
    by (rule ui_reach.mouse [OF r])
  then show ?thesis by (rule ui_reach_single_focus [OF lay])
qed

end
