(* ===== verification/Lifecycle.thy ===== *)
theory Lifecycle
  imports Screen
begin

text \<open>
  The life of a \<open>Screen\<close> on the terminal (src/screen.rs: \<open>Screen::new\<close>, \<open>cleanup\<close>
  and the \<open>Drop\<close> impl) and the conversions of src/error.rs that its \<open>?\<close> operators
  apply. The terminal is a record \<open>tty\<close> of its modes (raw mode, alternate screen, cursor
  visibility, line wrap, mouse capture), its size, and a fault table saying which driver
  calls fail and with which code, so that every \<open>?\<close> of the code is a branch of the
  model. Commands queued with \<open>queue!\<close> go to the screen's output log (\<open>scr_out\<close>) and
  reach the terminal only when it is flushed: \<open>tty_sent\<close> counts the commands of the log
  already delivered. Queueing into the buffer is taken not to fail (crossterm writes the
  escape sequences into \<open>Stdout\<close>'s buffer); \<open>terminal::size\<close>, the raw-mode switches and
  \<open>flush\<close> can fail. A failed flush delivers nothing.

  The lemmas show that a screen created and dropped without faults leaves the terminal as
  it found it, whatever was drawn in between; that a failing \<open>terminal::size\<close> or
  \<open>enable_raw_mode\<close> leaves the terminal untouched; and that a failing flush in
  \<open>cleanup\<close> returns before \<open>disable_raw_mode\<close>, so dropping the screen leaves the
  terminal in raw mode.
\<close>

section \<open>Error conversions (src/error.rs)\<close>

text \<open>The wrapped error that \<open>Error::source\<close> returns, the two \<open>From\<close> impls that \<open>?\<close>
  applies, and \<open>Display\<close>, which delegates to the wrapped error's formatting.\<close>

datatype error_cause = Cause_Crossterm nat | Cause_Io nat

definition error_from_crossterm :: "nat \<Rightarrow> error" where
  "error_from_crossterm e = Crossterm e"

definition error_from_io :: "nat \<Rightarrow> error" where
  "error_from_io e = Io e"

definition error_source :: "error \<Rightarrow> error_cause option" where
  "error_source err = (case err of Crossterm e \<Rightarrow> Some (Cause_Crossterm e) | Io e \<Rightarrow> Some (Cause_Io e))"

definition error_fmt :: "(nat \<Rightarrow> string) \<Rightarrow> (nat \<Rightarrow> string) \<Rightarrow> error \<Rightarrow> string" where
  "error_fmt fmt_ct fmt_io err = (case err of Crossterm e \<Rightarrow> fmt_ct e | Io e \<Rightarrow> fmt_io e)"

section \<open>The terminal\<close>

datatype io_op = Op_Size | Op_EnableRaw | Op_Flush | Op_DisableRaw

record tty =
  tty_size :: "u16 \<times> u16"
  tty_raw :: bool
  tty_alt :: bool
  tty_cursor :: bool
  tty_wrap :: bool
  tty_mouse :: bool
  tty_sent :: nat
  tty_fault :: "io_op \<Rightarrow> nat option"

text \<open>The state a terminal is in outside any application: cooked mode, main screen,
  visible cursor, line wrap on, no mouse capture.\<close>

definition tty_normal :: "tty \<Rightarrow> bool" where
  "tty_normal t \<longleftrightarrow> \<not> tty_raw t \<and> \<not> tty_alt t \<and> tty_cursor t \<and> tty_wrap t \<and> \<not> tty_mouse t"

text \<open>What a delivered command does to the terminal's modes.\<close>

fun mode_apply :: "command \<Rightarrow> tty \<Rightarrow> tty" where
  "mode_apply Cmd_EnterAlternateScreen t = t\<lparr>tty_alt := True\<rparr>"
| "mode_apply Cmd_LeaveAlternateScreen t = t\<lparr>tty_alt := False\<rparr>"
| "mode_apply Cmd_HideCursor t = t\<lparr>tty_cursor := False\<rparr>"
| "mode_apply Cmd_ShowCursor t = t\<lparr>tty_cursor := True\<rparr>"
| "mode_apply Cmd_DisableLineWrap t = t\<lparr>tty_wrap := False\<rparr>"
| "mode_apply Cmd_EnableLineWrap t = t\<lparr>tty_wrap := True\<rparr>"
| "mode_apply Cmd_EnableMouseCapture t = t\<lparr>tty_mouse := True\<rparr>"
| "mode_apply Cmd_DisableMouseCapture t = t\<lparr>tty_mouse := False\<rparr>"
| "mode_apply _ t = t"

text \<open>Commands that draw: everything but the mode switches.\<close>

definition draws :: "command \<Rightarrow> bool" where
  "draws c \<longleftrightarrow> c \<notin> {Cmd_EnterAlternateScreen, Cmd_LeaveAlternateScreen, Cmd_HideCursor, Cmd_ShowCursor,
     Cmd_DisableLineWrap, Cmd_EnableLineWrap, Cmd_EnableMouseCapture, Cmd_DisableMouseCapture}"

section \<open>Driver calls\<close>

definition terminal_size :: "tty \<Rightarrow> error + u16 \<times> u16" where
  "terminal_size t = (case tty_fault t Op_Size of Some e \<Rightarrow> Inl (error_from_crossterm e) | None \<Rightarrow> Inr (tty_size t))"

definition enable_raw_mode :: "tty \<Rightarrow> error + tty" where
  "enable_raw_mode t =
     (case tty_fault t Op_EnableRaw of Some e \<Rightarrow> Inl (error_from_crossterm e) | None \<Rightarrow> Inr (t\<lparr>tty_raw := True\<rparr>))"

definition disable_raw_mode :: "tty \<Rightarrow> error + tty" where
  "disable_raw_mode t =
     (case tty_fault t Op_DisableRaw of Some e \<Rightarrow> Inl (error_from_crossterm e) | None \<Rightarrow> Inr (t\<lparr>tty_raw := False\<rparr>))"

text \<open>\<open>Write::flush\<close> on the screen's output: deliver the commands not yet sent.\<close>

definition flush :: "screen \<Rightarrow> tty \<Rightarrow> error + tty" where
  "flush scr t =
     (case tty_fault t Op_Flush of
        Some e \<Rightarrow> Inl (error_from_io e)
      | None \<Rightarrow> Inr ((fold mode_apply (drop (tty_sent t) (scr_out scr)) t)\<lparr>tty_sent := length (scr_out scr)\<rparr>))"

text \<open>One \<open>queue!\<close> with several commands.\<close>

definition queue_all :: "screen \<Rightarrow> command list \<Rightarrow> screen" where
  "queue_all scr cs = fold (\<lambda>c s. queue s c) cs scr"

section \<open>Screen::new, cleanup and drop\<close>

text \<open>\<open>Screen::new\<close>: read the size, enable raw mode, queue the mode switches. The theme
  starts as \<open>Theme::default()\<close>, the parameter \<open>th0\<close> (text/theme.rs is not among the
  sources); the event stream is not part of the model's screen; the key map starts empty
  (\<open>KeyMap::default\<close>) and the output log starts empty, nothing of it sent.\<close>

definition screen_new :: "theme \<Rightarrow> tty \<Rightarrow> (error + screen) \<times> tty" where
  "screen_new th0 t =
     (case terminal_size t of
        Inl e \<Rightarrow> (Inl e, t)
      | Inr (w, h) \<Rightarrow>
          (case enable_raw_mode t of
             Inl e \<Rightarrow> (Inl e, t)
           | Inr t1 \<Rightarrow>
               (Inr (queue_all \<lparr>scr_dim = dim_new w h, scr_theme = th0, scr_style = None, scr_keymap = Map.empty, scr_out = []\<rparr>
                       [Cmd_EnterAlternateScreen, Cmd_HideCursor, Cmd_DisableLineWrap, Cmd_Clear,
                        Cmd_EnableMouseCapture]),
                t1\<lparr>tty_sent := 0\<rparr>)))"

text \<open>\<open>Screen::cleanup\<close>: queue the switches back, flush, leave raw mode; each \<open>?\<close>
  returns early.\<close>

definition cleanup :: "screen \<Rightarrow> tty \<Rightarrow> (error + unit) \<times> screen \<times> tty" where
  "cleanup scr t =
     (let scr1 = queue_all scr [Cmd_DisableMouseCapture, Cmd_LeaveAlternateScreen, Cmd_EnableLineWrap,
                                Cmd_ShowCursor, Cmd_ResetColor]
      in case flush scr1 t of
           Inl e \<Rightarrow> (Inl e, scr1, t)
         | Inr t1 \<Rightarrow>
             (case disable_raw_mode t1 of
                Inl e \<Rightarrow> (Inl e, scr1, t1)
              | Inr t2 \<Rightarrow> (Inr (), scr1, t2)))"

text \<open>\<open>Drop for Screen\<close>: run \<open>cleanup\<close> and only print its error (\<open>dbg!\<close>, not
  modelled).\<close>

definition screen_drop :: "screen \<Rightarrow> tty \<Rightarrow> tty" where
  "screen_drop scr t = (case cleanup scr t of (_, _, t') \<Rightarrow> t')"

section \<open>Lemmas\<close>

lemma mode_apply_draws: "draws c \<Longrightarrow> mode_apply c t = t"
  by (cases c) (simp_all add: draws_def)

lemma fold_mode_apply_draws: "list_all draws cs \<Longrightarrow> fold mode_apply cs t = t"
  by (induction cs arbitrary: t) (simp_all add: mode_apply_draws)

lemma queue_all_sel [simp]:
  "scr_out (queue_all scr cs) = scr_out scr @ cs"
  by (induction cs arbitrary: scr) (simp_all add: queue_all_def queue_def)

lemma mode_apply_sel [simp]:
  "tty_fault (mode_apply c t) = tty_fault t" "tty_sent (mode_apply c t) = tty_sent t"
  "tty_raw (mode_apply c t) = tty_raw t"
  by (cases c; simp)+

lemma fold_mode_apply_sel [simp]:
  "tty_fault (fold mode_apply cs t) = tty_fault t" "tty_sent (fold mode_apply cs t) = tty_sent t"
  "tty_raw (fold mode_apply cs t) = tty_raw t"
  by (induction cs arbitrary: t) simp_all

text \<open>\<open>Screen::new\<close> on every branch. A failing \<open>terminal::size\<close> or
  \<open>enable_raw_mode\<close> returns the crossterm error and leaves the terminal untouched;
  otherwise the screen has the terminal's size, no cached style, an empty key map and the
  five mode switches queued, and the terminal is in raw mode.\<close>

lemma screen_new_cases:
  "tty_fault t Op_Size = Some e \<Longrightarrow> screen_new th0 t = (Inl (Crossterm e), t)"
  "tty_fault t Op_Size = None \<Longrightarrow> tty_fault t Op_EnableRaw = Some e \<Longrightarrow> screen_new th0 t = (Inl (Crossterm e), t)"
  "tty_fault t Op_Size = None \<Longrightarrow> tty_fault t Op_EnableRaw = None \<Longrightarrow>
     screen_new th0 t = (Inr \<lparr>scr_dim = dim_new (fst (tty_size t)) (snd (tty_size t)), scr_theme = th0, scr_style = None,
                           scr_keymap = Map.empty,
                           scr_out = [Cmd_EnterAlternateScreen, Cmd_HideCursor, Cmd_DisableLineWrap, Cmd_Clear,
                                      Cmd_EnableMouseCapture]\<rparr>,
                     t\<lparr>tty_raw := True, tty_sent := 0\<rparr>)"
  by (auto simp: screen_new_def terminal_size_def enable_raw_mode_def error_from_crossterm_def
      queue_all_def queue_def split: prod.splits)

text \<open>C33: a screen created and dropped without driver faults leaves a terminal that was
  in its normal state back in its normal state (cooked mode, main screen, cursor shown,
  line wrap on, no mouse capture), whatever drawing output was queued in between.\<close>

lemma new_drop_restores:
  assumes "tty_normal t" and "\<forall>op. tty_fault t op = None" and "screen_new th0 t = (Inr scr, t1)"
    and "list_all draws cs"
  shows "tty_normal (screen_drop (scr\<lparr>scr_out := scr_out scr @ cs\<rparr>) t1)"
proof -
  have scr: "scr_out scr = [Cmd_EnterAlternateScreen, Cmd_HideCursor, Cmd_DisableLineWrap, Cmd_Clear,
      Cmd_EnableMouseCapture]"
    and t1: "t1 = t\<lparr>tty_raw := True, tty_sent := 0\<rparr>"
    using assms(2,3) screen_new_cases(3) [of t] by auto
  have "fold mode_apply cs t' = t'" for t' using assms(4) by (rule fold_mode_apply_draws)
  then show ?thesis
    using assms(1,2)
    by (simp add: screen_drop_def cleanup_def flush_def disable_raw_mode_def scr t1 tty_normal_def
        Let_def draws_def)
qed

text \<open>C34: if the flush in \<open>cleanup\<close> fails, \<open>cleanup\<close> returns the I/O error before it
  calls \<open>disable_raw_mode\<close>, and dropping the screen leaves the terminal exactly as it was:
  in raw mode, on the alternate screen, cursor hidden, if the screen had put it there.\<close>

lemma cleanup_flush_fault:
  assumes "tty_fault t Op_Flush = Some e"
  shows "fst (cleanup scr t) = Inl (Io e) \<and> screen_drop scr t = t"
  using assms by (simp add: screen_drop_def cleanup_def flush_def error_from_io_def Let_def)


section \<open>Witnesses\<close>

lemma new_drop_restores_witness:
  "tty_normal (screen_drop
     (\<lparr>scr_dim = dim_new 80 24, scr_theme = \<lparr>th_background = Black Normal_Intensity, th_foreground = White Bright,
        th_dark_shadow = Black Bright, th_secondary = Cyan Normal_Intensity, th_tertiary = Yellow Bright\<rparr>,
        scr_style = None, scr_keymap = Map.empty,
       scr_out = [Cmd_EnterAlternateScreen, Cmd_HideCursor, Cmd_DisableLineWrap, Cmd_Clear, Cmd_EnableMouseCapture]\<rparr>
       \<lparr>scr_out := [Cmd_EnterAlternateScreen, Cmd_HideCursor, Cmd_DisableLineWrap, Cmd_Clear, Cmd_EnableMouseCapture]
                   @ [Cmd_PrintStr ''hello'']\<rparr>)
     \<lparr>tty_size = (80, 24), tty_raw = True, tty_alt = False, tty_cursor = True, tty_wrap = True,
      tty_mouse = False, tty_sent = 0, tty_fault = (\<lambda>_. None)\<rparr>)"
proof -
  let ?t = "\<lparr>tty_size = (80, 24), tty_raw = False, tty_alt = False, tty_cursor = True, tty_wrap = True,
             tty_mouse = False, tty_sent = 0, tty_fault = (\<lambda>_. None)\<rparr>"
  have n: "tty_normal ?t" by (simp add: tty_normal_def)
  have f: "\<forall>op. tty_fault ?t op = None" by simp
  have s: "screen_new \<lparr>th_background = Black Normal_Intensity, th_foreground = White Bright,
        th_dark_shadow = Black Bright, th_secondary = Cyan Normal_Intensity, th_tertiary = Yellow Bright\<rparr>
      ?t = (Inr \<lparr>scr_dim = dim_new 80 24, scr_theme = \<lparr>th_background = Black Normal_Intensity, th_foreground = White Bright,
        th_dark_shadow = Black Bright, th_secondary = Cyan Normal_Intensity, th_tertiary = Yellow Bright\<rparr>,
        scr_style = None, scr_keymap = Map.empty,
       scr_out = [Cmd_EnterAlternateScreen, Cmd_HideCursor, Cmd_DisableLineWrap, Cmd_Clear, Cmd_EnableMouseCapture]\<rparr>,
     \<lparr>tty_size = (80, 24), tty_raw = True, tty_alt = False, tty_cursor = True, tty_wrap = True,
      tty_mouse = False, tty_sent = 0, tty_fault = (\<lambda>_. None)\<rparr>)"
    by (simp add: screen_new_cases(3))
  have d: "list_all draws [Cmd_PrintStr ''hello'']" by (simp add: draws_def)
  show ?thesis using new_drop_restores [OF n f s d] by simp
qed

lemma cleanup_flush_fault_witness:
  "fst (cleanup \<lparr>scr_dim = dim_new 80 24, scr_theme = \<lparr>th_background = Black Normal_Intensity, th_foreground = White Bright,
        th_dark_shadow = Black Bright, th_secondary = Cyan Normal_Intensity, th_tertiary = Yellow Bright\<rparr>,
        scr_style = None, scr_keymap = Map.empty, scr_out = []\<rparr>
          \<lparr>tty_size = (80, 24), tty_raw = True, tty_alt = True, tty_cursor = False, tty_wrap = False,
           tty_mouse = True, tty_sent = 0, tty_fault = (\<lambda>op. if op = Op_Flush then Some 5 else None)\<rparr>) = Inl (Io 5)
   \<and> tty_raw (screen_drop \<lparr>scr_dim = dim_new 80 24, scr_theme = \<lparr>th_background = Black Normal_Intensity, th_foreground = White Bright,
        th_dark_shadow = Black Bright, th_secondary = Cyan Normal_Intensity, th_tertiary = Yellow Bright\<rparr>,
        scr_style = None, scr_keymap = Map.empty, scr_out = []\<rparr>
          \<lparr>tty_size = (80, 24), tty_raw = True, tty_alt = True, tty_cursor = False, tty_wrap = False,
           tty_mouse = True, tty_sent = 0, tty_fault = (\<lambda>op. if op = Op_Flush then Some 5 else None)\<rparr>)"
  using cleanup_flush_fault [of "\<lparr>tty_size = (80, 24), tty_raw = True, tty_alt = True, tty_cursor = False, tty_wrap = False,
           tty_mouse = True, tty_sent = 0, tty_fault = (\<lambda>op. if op = Op_Flush then Some 5 else None)\<rparr>" 5
      "\<lparr>scr_dim = dim_new 80 24, scr_theme = \<lparr>th_background = Black Normal_Intensity, th_foreground = White Bright,
        th_dark_shadow = Black Bright, th_secondary = Cyan Normal_Intensity, th_tertiary = Yellow Bright\<rparr>,
        scr_style = None, scr_keymap = Map.empty, scr_out = []\<rparr>"]
  by simp

end
