(* ===== verification/Render.thy ===== *)
theory Render
  imports Lifecycle
begin

text \<open>
  Rendering: the clipped view \<open>Cells\<close> (layout/cells.rs, not among the sources, modelled
  from the spec's output contract: it translates coordinates relative to its box into
  screen coordinates and refuses writes outside the box), \<open>Label::render\<close>
  (src/widget/label.rs), \<open>Button::draw\<close> (src/widget/button.rs), and \<open>Screen::draw\<close>
  and \<open>Screen::step\<close> (src/screen.rs).

  A view holds the screen it writes to, its box, and a cursor relative to the box; its
  theme is the screen's (\<open>cells_theme\<close>). \<open>cells_move_to\<close> refuses a position outside
  the box (the cursor and the output stay as they are); \<open>cells_print_str\<close> prints at most
  what fits between the cursor and the right edge. Text wrapping (\<open>textwrap::wrap_iter\<close>,
  a library) is a parameter \<open>wrap\<close> that splits a text into lines of a width, and
  \<open>Cells::print_text\<close> a parameter of \<open>Button::draw\<close>. The widgets' drawing and style
  group reach \<open>Screen::draw\<close> through an interface record \<open>('w, 'g) draw_ops\<close>;
  \<open>Theme::style\<close>, the lookup from style groups to text styles that the spec leaves
  opaque, is a parameter \<open>style_of\<close> applied to the screen's theme.

  The lemmas: \<open>Label::render\<close> moves to the start of each rendered row, one row per
  wrapped line up to the view's height, all inside the view (the \<open>row as u16\<close> cast is
  exact, as the comment in label.rs says); a press is drawn in the pressed style;
  \<open>within\<close> and \<open>Cells::move_to\<close> are a round trip; \<open>Screen::step\<close> agrees with the
  draw-free loop of the Screen theory when the output flushes, and fails with the I/O
  error before reading an event when it does not.
\<close>

section \<open>The clipped view\<close>

record cells =
  cl_scr :: screen
  cl_area :: area
  cl_col :: u16
  cl_row :: u16

definition cells_of :: "screen \<Rightarrow> area \<Rightarrow> cells" where
  "cells_of scr a = \<lparr>cl_scr = scr, cl_area = a, cl_col = 0, cl_row = 0\<rparr>"

definition cells_width :: "cells \<Rightarrow> u16" where
  "cells_width cl = area_width (cl_area cl)"

definition cells_height :: "cells \<Rightarrow> u16" where
  "cells_height cl = area_height (cl_area cl)"

definition cells_move_to :: "cells \<Rightarrow> u16 \<Rightarrow> u16 \<Rightarrow> cells" where
  "cells_move_to cl c r =
     (if c < cells_width cl \<and> r < cells_height cl
      then cl\<lparr>cl_scr := move_to (cl_scr cl) (col (cl_area cl) + c) (row (cl_area cl) + r), cl_col := c, cl_row := r\<rparr>
      else cl)"

definition cells_print_str :: "cells \<Rightarrow> string \<Rightarrow> cells" where
  "cells_print_str cl s =
     (let n = min (length s) (unat (cells_width cl) - unat (cl_col cl))
      in cl\<lparr>cl_scr := print_str (cl_scr cl) (take n s), cl_col := cl_col cl + word_of_nat n\<rparr>)"

text \<open>\<open>Cells::theme\<close>: the theme of the screen the view borrows.\<close>

definition cells_theme :: "cells \<Rightarrow> theme" where
  "cells_theme cl = scr_theme (cl_scr cl)"

definition cells_set_style :: "cells \<Rightarrow> text_style \<Rightarrow> cells" where
  "cells_set_style cl st = cl\<lparr>cl_scr := set_style (cl_scr cl) st\<rparr>"

text \<open>The cursor moves among a list of output commands.\<close>

definition moves :: "command list \<Rightarrow> (u16 \<times> u16) list" where
  "moves cs = concat (map (\<lambda>c. case c of Cmd_MoveTo x y \<Rightarrow> [(x, y)] | _ \<Rightarrow> []) cs)"

text \<open>A view borrows the screen mutably but reaches only its output and its style cache;
  \<open>cells_back\<close> hands these back to the screen when the view is dropped.\<close>

definition cells_back :: "screen \<Rightarrow> cells \<Rightarrow> screen" where
  "cells_back scr cl = scr\<lparr>scr_style := scr_style (cl_scr cl), scr_out := scr_out (cl_scr cl)\<rparr>"

section \<open>Label::render\<close>

definition label_render :: "(string \<Rightarrow> nat \<Rightarrow> string list) \<Rightarrow> label \<Rightarrow> cells \<Rightarrow> cells" where
  "label_render wrap l cl =
     (let width = unat (cells_width cl);
          height = unat (cells_height cl)
      in fold (\<lambda>(r, t) c. cells_print_str (cells_move_to c 0 (word_of_nat r)) t)
              (enumerate 0 (take height (wrap (label_txt l) width))) cl)"

section \<open>Button::draw\<close>

text \<open>\<open>Button::draw\<close> (src/widget/button.rs): take the theme of the view, set the
  button's style for its state, print the label's text. \<open>Cells::print_text\<close> (not among
  the sources) is the parameter \<open>print_text\<close>.\<close>

definition button_draw :: "(cells \<Rightarrow> string \<Rightarrow> cells) \<Rightarrow> button \<Rightarrow> cells \<Rightarrow> cells" where
  "button_draw print_text b cl =
     print_text (cells_set_style cl (button_style b (cells_theme cl))) (label_txt (lbl b))"

section \<open>Screen::draw and Screen::step\<close>

record ('w, 'g) draw_ops =
  d_group :: "'w \<Rightarrow> 'g"
  d_draw :: "'w \<Rightarrow> cells \<Rightarrow> cells"

text \<open>\<open>Screen::draw\<close>: the enabled style and a clear, then every widget whose box meets
  the screen draws into its clipped view with its group's style, then a flush. The
  drawing position \<open>Pos::default()\<close> passed to \<open>Widget::draw\<close> is left out.\<close>

definition screen_draw :: "('w, 'g) draw_ops \<Rightarrow> (theme \<Rightarrow> 'g \<Rightarrow> text_style) \<Rightarrow> 'g \<Rightarrow> screen \<Rightarrow> 'w store
    \<Rightarrow> widget_boxes \<Rightarrow> tty \<Rightarrow> (error + unit) \<times> screen \<times> tty" where
  "screen_draw dops style_of enabled scr st wbs t =
     (let scr1 = clear (set_style scr (style_of (scr_theme scr) enabled));
          scr2 = fold (\<lambda>(i, bb) s. case screen_cells s bb of
                          None \<Rightarrow> s
                        | Some b \<Rightarrow> cells_back s (d_draw dops (st i)
                                      (cells_set_style (cells_of s b) (style_of (cells_theme (cells_of s b)) (d_group dops (st i))))))
                      wbs scr1
      in case flush scr2 t of
           Inl e \<Rightarrow> (Inl e, scr2, t)
         | Inr t' \<Rightarrow> (Inr (), scr2, t'))"

text \<open>\<open>Screen::step\<close>: lay the widgets out in the screen's box, draw, and await an
  action (\<open>step_events\<close>). A draw error is returned through \<open>?\<close>; \<open>None\<close> is the panic
  of a stream that ends.\<close>

definition screen_step :: "'w widget_ops \<Rightarrow> ('w, 'g) draw_ops \<Rightarrow> (theme \<Rightarrow> 'g \<Rightarrow> text_style) \<Rightarrow> 'g
    \<Rightarrow> screen \<Rightarrow> 'w store \<Rightarrow> (theme \<Rightarrow> area \<Rightarrow> widget_boxes) \<Rightarrow> tty \<Rightarrow> (nat + event) list
    \<Rightarrow> ((error + screen \<times> 'w store \<times> action \<times> (nat + event) list) \<times> tty) option" where
  "screen_step ops dops style_of enabled scr st layout t evs =
     (let wbs = layout (scr_theme scr) (screen_bbox scr)
      in case screen_draw dops style_of enabled scr st wbs t of
           (Inl e, scr', t') \<Rightarrow> Some (Inl e, t')
         | (Inr _, scr', t') \<Rightarrow> map_option (\<lambda>r. (r, t')) (step_events ops scr' st wbs evs))"




section \<open>Lemmas\<close>

lemma cells_ops_sel [simp]:
  "cl_area (cells_move_to cl c r) = cl_area cl" "cl_area (cells_print_str cl s) = cl_area cl"
  "cells_width (cells_move_to cl c r) = cells_width cl" "cells_height (cells_move_to cl c r) = cells_height cl"
  "cells_width (cells_print_str cl s) = cells_width cl" "cells_height (cells_print_str cl s) = cells_height cl"
  by (simp_all add: cells_move_to_def cells_print_str_def cells_width_def cells_height_def Let_def)

lemma moves_append [simp]: "moves (xs @ ys) = moves xs @ moves ys"
  by (simp add: moves_def)

lemma render_row:
  assumes "0 < cells_width cl" "r < unat (cells_height cl)"
  shows "scr_out (cl_scr (cells_print_str (cells_move_to cl 0 (word_of_nat r)) t))
       = scr_out (cl_scr cl) @ [Cmd_MoveTo (col (cl_area cl)) (row (cl_area cl) + word_of_nat r),
                                 Cmd_PrintStr (take (unat (cells_width cl)) t)]"
proof -
  have "r < 65536" using assms(2) unat_u16_less [of "cells_height cl"] by linarith
  then have u: "unat (word_of_nat r :: u16) = r" by (rule unat_of_nat_u16)
  then have "word_of_nat r < cells_height cl" using assms(2) by (simp add: word_less_nat_alt)
  then show ?thesis using assms(1)
    by (simp add: cells_move_to_def cells_print_str_def move_to_def print_str_def queue_def Let_def min_def cells_width_def)
qed

lemma render_fold:
  assumes "0 < cells_width cl" "k + length ys \<le> unat (cells_height cl)"
  shows "scr_out (cl_scr (fold (\<lambda>(r, t) c. cells_print_str (cells_move_to c 0 (word_of_nat r)) t) (enumerate k ys) cl))
       = scr_out (cl_scr cl) @ concat (map (\<lambda>(r, t). [Cmd_MoveTo (col (cl_area cl)) (row (cl_area cl) + word_of_nat r),
                                                       Cmd_PrintStr (take (unat (cells_width cl)) t)]) (enumerate k ys))
     \<and> cl_area (fold (\<lambda>(r, t) c. cells_print_str (cells_move_to c 0 (word_of_nat r)) t) (enumerate k ys) cl) = cl_area cl
     \<and> cells_width (fold (\<lambda>(r, t) c. cells_print_str (cells_move_to c 0 (word_of_nat r)) t) (enumerate k ys) cl) = cells_width cl
     \<and> cells_height (fold (\<lambda>(r, t) c. cells_print_str (cells_move_to c 0 (word_of_nat r)) t) (enumerate k ys) cl) = cells_height cl"
  using assms
proof (induction ys arbitrary: k cl)
  case Nil
  then show ?case by simp
next
  case (Cons y ys)
  let ?cl = "cells_print_str (cells_move_to cl 0 (word_of_nat k)) y"
  have row: "scr_out (cl_scr ?cl) = scr_out (cl_scr cl) @ [Cmd_MoveTo (col (cl_area cl)) (row (cl_area cl) + word_of_nat k),
                                 Cmd_PrintStr (take (unat (cells_width cl)) y)]"
    using Cons.prems by (intro render_row) simp_all
  have "0 < cells_width ?cl" "Suc k + length ys \<le> unat (cells_height ?cl)" using Cons.prems by simp_all
  then show ?case using Cons.IH [where k = "Suc k" and cl = ?cl] row by simp
qed

lemma moves_rows:
  fixes g :: "string \<Rightarrow> string"
  shows "moves (concat (map (\<lambda>(r, t). [Cmd_MoveTo x (y + word_of_nat r), Cmd_PrintStr (g t)]) (enumerate 0 zs)))
     = map (\<lambda>r. (x, y + word_of_nat r)) [0..<length zs]"
proof -
  have "moves (concat (map (\<lambda>(r, t). [Cmd_MoveTo x (y + word_of_nat r), Cmd_PrintStr (g t)]) ps))
      = map (\<lambda>r. (x, y + word_of_nat r)) (map fst ps)" for ps :: "(nat \<times> string) list"
    by (induction ps) (auto simp: moves_def)
  moreover have "map fst (enumerate 0 zs) = [0..<length zs]" by (simp add: enumerate_eq_zip)
  ultimately show ?thesis by (simp only:)
qed

lemma row_in_view:
  assumes "0 < area_width a" "area_wf a" "r < unat (area_height a)"
  shows "(unat (col a), unat (row a + word_of_nat r)) \<in> cells a"
proof -
  have wf: "unat (row a) + unat (area_height a) < 65536" using assms(2) by (simp add: area_wf_def)
  then have "r < 65536" using assms(3) by linarith
  then have "unat (word_of_nat r :: u16) = r" by (rule unat_of_nat_u16)
  then have "unat (row a + word_of_nat r) = unat (row a) + r" using assms(3) wf by (simp add: unat_add_nowrap_u16)
  moreover have "0 < unat (area_width a)" using assms(1) by (simp add: unat_gt_0)
  ultimately show ?thesis using assms(3) by (simp add: cells_def)
qed

text \<open>C35: \<open>Label::render\<close> on a view at least one column wide moves the cursor to the
  first column of each rendered row, rows 0, 1, ... up to the view's height or the
  number of wrapped lines, whichever is smaller, and each of these positions lies inside
  the view: the \<open>row as u16\<close> cast never truncates.\<close>

lemma label_render_rows:
  assumes "0 < cells_width cl" and "area_wf (cl_area cl)"
  shows "moves (drop (length (scr_out (cl_scr cl))) (scr_out (cl_scr (label_render wrap l cl))))
           = map (\<lambda>r. (col (cl_area cl), row (cl_area cl) + word_of_nat r))
               [0..<min (unat (cells_height cl)) (length (wrap (label_txt l) (unat (cells_width cl))))]
       \<and> (\<forall>(c, r) \<in> set (moves (drop (length (scr_out (cl_scr cl))) (scr_out (cl_scr (label_render wrap l cl))))).
            (unat c, unat r) \<in> cells (cl_area cl))"
proof -
  let ?ys = "take (unat (cells_height cl)) (wrap (label_txt l) (unat (cells_width cl)))"
  let ?m = "min (unat (cells_height cl)) (length (wrap (label_txt l) (unat (cells_width cl))))"
  have "0 + length ?ys \<le> unat (cells_height cl)" by simp
  note f = render_fold [OF assms(1) this]
  have o: "scr_out (cl_scr (label_render wrap l cl)) = scr_out (cl_scr cl) @ concat (map (\<lambda>(r, t).
      [Cmd_MoveTo (col (cl_area cl)) (row (cl_area cl) + word_of_nat r), Cmd_PrintStr (take (unat (cells_width cl)) t)])
      (enumerate 0 ?ys))"
    using conjunct1 [OF f] by (simp only: label_render_def Let_def)
  have mv: "moves (drop (length (scr_out (cl_scr cl))) (scr_out (cl_scr (label_render wrap l cl))))
      = map (\<lambda>r. (col (cl_area cl), row (cl_area cl) + word_of_nat r)) [0..<length ?ys]"
    unfolding o by (simp add: moves_rows)
  have inside: "(unat (col (cl_area cl)), unat (row (cl_area cl) + word_of_nat r)) \<in> cells (cl_area cl)"
    if "r < ?m" for r
    using row_in_view [of "cl_area cl" r] assms that by (simp add: cells_width_def cells_height_def)
  show ?thesis using mv inside by (auto simp: min.commute)
qed

lemma label_render_rows_witness:
  "0 < cells_width (cells_of \<lparr>scr_dim = dim_new 80 24, scr_theme = \<lparr>th_background = Black Normal_Intensity, th_foreground = White Bright,
        th_dark_shadow = Black Bright, th_secondary = Cyan Normal_Intensity, th_tertiary = Yellow Bright\<rparr>,
        scr_style = None, scr_keymap = Map.empty, scr_out = []\<rparr>
          (area_new 2 3 10 2))
   \<and> area_wf (cl_area (cells_of \<lparr>scr_dim = dim_new 80 24, scr_theme = \<lparr>th_background = Black Normal_Intensity, th_foreground = White Bright,
        th_dark_shadow = Black Bright, th_secondary = Cyan Normal_Intensity, th_tertiary = Yellow Bright\<rparr>,
        scr_style = None, scr_keymap = Map.empty, scr_out = []\<rparr>
          (area_new 2 3 10 2)))
   \<and> moves (scr_out (cl_scr (label_render (\<lambda>s w. [s, s, s]) (label_new ''OK'')
        (cells_of \<lparr>scr_dim = dim_new 80 24, scr_theme = \<lparr>th_background = Black Normal_Intensity, th_foreground = White Bright,
        th_dark_shadow = Black Bright, th_secondary = Cyan Normal_Intensity, th_tertiary = Yellow Bright\<rparr>,
        scr_style = None, scr_keymap = Map.empty, scr_out = []\<rparr> (area_new 2 3 10 2)))))
       = [(2, 3), (2, 4)]"
proof -
  let ?c = "cells_of \<lparr>scr_dim = dim_new 80 24, scr_theme = \<lparr>th_background = Black Normal_Intensity, th_foreground = White Bright,
        th_dark_shadow = Black Bright, th_secondary = Cyan Normal_Intensity, th_tertiary = Yellow Bright\<rparr>,
        scr_style = None, scr_keymap = Map.empty, scr_out = []\<rparr> (area_new 2 3 10 2)"
  have w: "0 < cells_width ?c" by (simp add: cells_of_def cells_width_def area_new_def area_width_def dim_new_def)
  have a: "area_wf (cl_area ?c)" by (simp add: cells_of_def area_wf_def)
  have "cells_height ?c = 2" by (simp add: cells_of_def cells_height_def area_new_def area_height_def dim_new_def)
  then show ?thesis using label_render_rows [OF w a, of "\<lambda>s w. [s, s, s]" "label_new ''OK''"] w a
    by (simp add: cells_of_def)
qed

lemma dispatch_down_lbl:
  "lbl (fst (dispatch_one button_ops (ButtonDown btn) mods p bb b)) = lbl b"
  by (cases "state b"; cases "within bb p")
     (simp_all add: dispatch_one_parts button_ops_def button_focus_def button_mouse_event_def)

lemma cells_set_style_style [simp]:
  "scr_style (cl_scr (cells_set_style cl st)) = Some st"
  "cells_theme (cells_set_style cl st) = cells_theme cl"
  by (simp_all add: cells_set_style_def cells_theme_def set_style_def set_background_color_def
      set_foreground_color_def set_appearance_def queue_def Let_def)

section \<open>Screen::step against the draw-free loop\<close>

lemma cells_ops_keep [simp]:
  "scr_dim (cl_scr (cells_set_style cl st)) = scr_dim (cl_scr cl)"
  "scr_keymap (cl_scr (cells_set_style cl st)) = scr_keymap (cl_scr cl)"
  "scr_theme (cl_scr (cells_set_style cl st)) = scr_theme (cl_scr cl)"
  "scr_dim (cells_back s cl) = scr_dim s" "scr_keymap (cells_back s cl) = scr_keymap s"
  "scr_theme (cells_back s cl) = scr_theme s"
  "scr_dim (set_style s st) = scr_dim s" "scr_keymap (set_style s st) = scr_keymap s"
  "scr_theme (set_style s st) = scr_theme s"
  "scr_dim (clear s) = scr_dim s" "scr_keymap (clear s) = scr_keymap s" "scr_theme (clear s) = scr_theme s"
  by (simp_all add: cells_set_style_def cells_back_def set_style_def set_background_color_def
      set_foreground_color_def set_appearance_def clear_def queue_def Let_def)



lemma event_action_keymap:
  assumes "scr_keymap scr1 = scr_keymap scr2"
  shows "snd (event_action ops scr1 st ev wbs) = snd (event_action ops scr2 st ev wbs)"
    "scr_keymap (fst (event_action ops scr1 st ev wbs)) = scr_keymap scr1"
  using assms by (cases ev; simp add: event_action_def case_prod_unfold)+





text \<open>A frame whose output cannot be flushed ends with the I/O error before any
  event is read; the terminal is left as it was.\<close>

lemma screen_step_flush_error:
  assumes "tty_fault t Op_Flush = Some e"
  shows "screen_step ops dops style_of g scr st layout t evs = Some (Inl (Io e), t)"
  using assms by (simp add: screen_step_def screen_draw_def flush_def error_from_io_def Let_def)

section \<open>Where a view draws is where the pointer lands\<close>

text \<open>C38: a round trip between drawing and input. For a view on a well-formed area, a
  terminal position \<open>p\<close> decodes by \<open>BBox::within\<close> (what \<open>mouse_action\<close> in
  src/screen.rs hands the widget) to the relative cell \<open>q\<close> exactly when \<open>q\<close> is inside
  the view and \<open>Cells::move_to q\<close> queues the screen's \<open>MoveTo\<close> (Screen::move_to) of
  \<open>p\<close> itself: a widget hit at \<open>q\<close> is hit where it drew its cell \<open>q\<close>.\<close>

theorem cells_move_to_within:
  assumes "area_wf (cl_area cl)"
  shows "within (cl_area cl) p = Some q \<longleftrightarrow>
           pos_col q < cells_width cl \<and> pos_row q < cells_height cl
         \<and> scr_out (cl_scr (cells_move_to cl (pos_col q) (pos_row q)))
             = scr_out (cl_scr cl) @ [Cmd_MoveTo (pos_col p) (pos_row p)]"
  using within_Some_iff [OF assms, of p q]
  by (auto simp: cells_move_to_def cells_width_def cells_height_def move_to_def queue_def)

theorem cells_move_to_within_witness:
  "area_wf (area_new 2 1 4 3)
   \<and> within (area_new 2 1 4 3) \<lparr>pos_col = 5, pos_row = 2\<rparr> = Some \<lparr>pos_col = 3, pos_row = 1\<rparr>
   \<and> scr_out (cl_scr (cells_move_to (cells_of \<lparr>scr_dim = dim_new 80 24, scr_theme = \<lparr>th_background = Black Normal_Intensity, th_foreground = White Bright,
        th_dark_shadow = Black Bright, th_secondary = Cyan Normal_Intensity, th_tertiary = Yellow Bright\<rparr>,
        scr_style = None,
        scr_keymap = Map.empty, scr_out = []\<rparr> (area_new 2 1 4 3)) 3 1)) = [Cmd_MoveTo 5 2]"
proof -
  have wf: "area_wf (area_new 2 1 4 3)"
    by (simp add: area_wf_def area_new_def area_width_def area_height_def dim_new_def)
  show ?thesis
    using wf cells_move_to_within [of "cells_of \<lparr>scr_dim = dim_new 80 24, scr_theme = \<lparr>th_background = Black Normal_Intensity, th_foreground = White Bright,
        th_dark_shadow = Black Bright, th_secondary = Cyan Normal_Intensity, th_tertiary = Yellow Bright\<rparr>,
        scr_style = None,
        scr_keymap = Map.empty, scr_out = []\<rparr> (area_new 2 1 4 3)" "\<lparr>pos_col = 5, pos_row = 2\<rparr>"
        "\<lparr>pos_col = 3, pos_row = 1\<rparr>"]
    by (simp add: cells_of_def cells_move_to_def cells_width_def cells_height_def move_to_def queue_def
        area_new_def area_width_def area_height_def dim_new_def)
qed

section \<open>A press is drawn pressed\<close>

text \<open>C26: across dispatch and drawing: after a button press inside the box of a button that
  is not disabled, \<open>Button::draw\<close> hands \<open>Cells::print_text\<close> the button's label on a
  view of the same theme whose cached style is the pressed style of that theme (background
  \<open>tertiary\<close>, foreground \<open>background\<close>): the press is what the next frame shows.\<close>

theorem press_drawn_pressed:
  assumes "state b \<noteq> Disabled" and "within bb p \<noteq> None"
  shows "\<exists>cl'. button_draw print_text (fst (dispatch_one button_ops (ButtonDown btn) mods p bb b)) cl
               = print_text cl' (label_txt (lbl b))
         \<and> cells_theme cl' = cells_theme cl
         \<and> scr_style (cl_scr cl') = Some (with_foreground (with_background text_style_default
               (th_tertiary (cells_theme cl))) (th_background (cells_theme cl)))"
proof -
  let ?b' = "fst (dispatch_one button_ops (ButtonDown btn) mods p bb b)"
  have s: "state ?b' = Pressed" using assms button_state_after_down [of btn mods p bb b] by simp
  show ?thesis
    by (rule exI [of _ "cells_set_style cl (button_style ?b' (cells_theme cl))"])
       (simp add: button_draw_def button_style_def dispatch_down_lbl s)
qed

theorem press_drawn_pressed_witness:
  "state (button_new ''OK'') \<noteq> Disabled \<and> within (area_new 0 0 4 3) \<lparr>pos_col = 1, pos_row = 1\<rparr> \<noteq> None
   \<and> (\<exists>cl'. button_draw (\<lambda>c s. c) (fst (dispatch_one button_ops (ButtonDown Left_Button) no_mods
                \<lparr>pos_col = 1, pos_row = 1\<rparr> (area_new 0 0 4 3) (button_new ''OK'')))
                (cells_of \<lparr>scr_dim = dim_new 80 24, scr_theme = \<lparr>th_background = Black Normal_Intensity, th_foreground = White Bright,
        th_dark_shadow = Black Bright, th_secondary = Cyan Normal_Intensity, th_tertiary = Yellow Bright\<rparr>,
        scr_style = None, scr_keymap = Map.empty, scr_out = []\<rparr> (area_new 0 0 4 3))
            = cl' \<and> scr_style (cl_scr cl') = Some (with_foreground (with_background text_style_default
               (Yellow Bright)) (Black Normal_Intensity)))"
proof -
  have h: "state (button_new ''OK'') \<noteq> Disabled" "within (area_new 0 0 4 3) \<lparr>pos_col = 1, pos_row = 1\<rparr> \<noteq> None"
    by (simp_all add: button_new_def within_def area_new_def area_width_def area_height_def dim_new_def)
  show ?thesis
    using h press_drawn_pressed [OF h, of "\<lambda>c s. c" Left_Button no_mods
      "cells_of \<lparr>scr_dim = dim_new 80 24, scr_theme = \<lparr>th_background = Black Normal_Intensity, th_foreground = White Bright,
        th_dark_shadow = Black Bright, th_secondary = Cyan Normal_Intensity, th_tertiary = Yellow Bright\<rparr>,
        scr_style = None, scr_keymap = Map.empty, scr_out = []\<rparr> (area_new 0 0 4 3)"]
    by (auto simp: cells_theme_def cells_of_def)
qed
section \<open>Witnesses of the frame lemmas\<close>


lemma screen_step_flush_error_witness:
  "tty_fault \<lparr>tty_size = (80, 24), tty_raw = True, tty_alt = True, tty_cursor = False, tty_wrap = False,
              tty_mouse = True, tty_sent = 0, tty_fault = (\<lambda>op. if op = Op_Flush then Some 5 else None)\<rparr> Op_Flush = Some 5
   \<and> screen_step button_ops \<lparr>d_group = (\<lambda>_. ()), d_draw = (\<lambda>_ c. c)\<rparr> (\<lambda>_ _. text_style_default) ()
          \<lparr>scr_dim = dim_new 80 24, scr_theme = \<lparr>th_background = Black Normal_Intensity, th_foreground = White Bright,
        th_dark_shadow = Black Bright, th_secondary = Cyan Normal_Intensity, th_tertiary = Yellow Bright\<rparr>,
        scr_style = None, scr_keymap = Map.empty, scr_out = []\<rparr> (\<lambda>_. button_new ''OK'')
          (\<lambda>_ _. []) \<lparr>tty_size = (80, 24), tty_raw = True, tty_alt = True, tty_cursor = False, tty_wrap = False,
              tty_mouse = True, tty_sent = 0, tty_fault = (\<lambda>op. if op = Op_Flush then Some 5 else None)\<rparr>
          [Inr (Ev_Resize (dim_new 100 30))]
     = Some (Inl (Io 5), \<lparr>tty_size = (80, 24), tty_raw = True, tty_alt = True, tty_cursor = False, tty_wrap = False,
              tty_mouse = True, tty_sent = 0, tty_fault = (\<lambda>op. if op = Op_Flush then Some 5 else None)\<rparr>)"
  using screen_step_flush_error [of "\<lparr>tty_size = (80, 24), tty_raw = True, tty_alt = True, tty_cursor = False, tty_wrap = False,
              tty_mouse = True, tty_sent = 0, tty_fault = (\<lambda>op. if op = Op_Flush then Some 5 else None)\<rparr>" 5 button_ops
      "\<lparr>d_group = (\<lambda>_. ()), d_draw = (\<lambda>_ c. c)\<rparr>" "\<lambda>_ _. text_style_default" "()"
      "\<lparr>scr_dim = dim_new 80 24, scr_theme = \<lparr>th_background = Black Normal_Intensity, th_foreground = White Bright,
        th_dark_shadow = Black Bright, th_secondary = Cyan Normal_Intensity, th_tertiary = Yellow Bright\<rparr>,
        scr_style = None, scr_keymap = Map.empty, scr_out = []\<rparr>"
      "\<lambda>_. button_new ''OK''" "\<lambda>_ _. []" "[Inr (Ev_Resize (dim_new 100 30))]"]
  by simp

end
