(* ===== verification/EventStream.thy ===== *)
theory EventStream
  imports Render "HOL-Library.Stream"
begin

text \<open>
  The event stream of src/screen.rs. \<open>Screen\<close> owns an \<open>EvStreamFut\<close>, a future over
  crossterm's \<open>EventStream\<close>; awaiting it yields the stream's next item, an
  \<open>Option<crossterm::Result<Event>>\<close>: \<open>None\<close> once the stream has ended, otherwise an
  error or an event. \<open>Screen::step\<close> awaits it in a loop, \<open>unwrap\<close>s the option (a panic
  at the end of the stream), returns an error through \<open>?\<close>, and returns the first action
  an event produces.

  Here the stream is an infinite \<open>stream\<close> of such items (an ended stream yields
  \<open>None\<close> for ever), \<open>ev_poll\<close> is one await, and the loop is \<open>await_loop\<close>, a
  \<open>partial_function (option)\<close>: \<open>None\<close> is a loop that never returns, \<open>Some Panic\<close>
  the panic of \<open>unwrap\<close>, \<open>Some (Returned r)\<close> a result of \<open>step\<close>. The Screen
  theory's \<open>step_events\<close> runs the same loop over a finite list, where the end of the
  list is the end of the stream; the first theorem says the two agree on every finite
  stream, so every lemma about \<open>step_events\<close> is a lemma about the loop of the code. The
  other two say when the loop returns (some item ends the wait: the end of the stream, an
  error, a resize, or a key the key map holds) and that a stream of keys the key map does
  not hold keeps it waiting for ever.
\<close>

type_synonym ev_item = "(nat + event) option"

text \<open>\<open>EvStreamFut\<close> and its \<open>Future::poll\<close>: a poll that is ready yields the next item
  of the stream and leaves the rest.\<close>

definition ev_poll :: "ev_item stream \<Rightarrow> ev_item \<times> ev_item stream" where
  "ev_poll s = (shd s, stl s)"

text \<open>What awaiting in \<open>Screen::step\<close> can come to besides a result: the panic of
  \<open>unwrap\<close> at the end of the stream.\<close>

datatype 'a outcome = Panic | Returned 'a

text \<open>The loop of \<open>Screen::step\<close>: \<open>(&mut self.ev_stream).await.unwrap()?\<close>, then
  \<open>event_action\<close>; an event without an action awaits the next item.\<close>

partial_function (option) await_loop :: "'w widget_ops \<Rightarrow> screen \<Rightarrow> 'w store \<Rightarrow> widget_boxes
    \<Rightarrow> ev_item stream \<Rightarrow> (error + screen \<times> 'w store \<times> action \<times> ev_item stream) outcome option" where
  "await_loop ops scr st wbs s =
     (case ev_poll s of
        (None, _) \<Rightarrow> Some Panic
      | (Some (Inl e), _) \<Rightarrow> Some (Returned (Inl (Crossterm e)))
      | (Some (Inr ev), s') \<Rightarrow>
          (case event_action ops scr st ev wbs of
             (scr', st', Some a) \<Rightarrow> Some (Returned (Inr (scr', st', a, s')))
           | (scr', st', None) \<Rightarrow> await_loop ops scr' st' wbs s'))"

text \<open>A finite list of items as the stream that ends after them; the items that end the
  wait whatever the widgets do; keys the key map does not hold.\<close>

definition of_list :: "(nat + event) list \<Rightarrow> ev_item stream" where
  "of_list xs = map Some xs @- sconst None"

definition ends_wait :: "keymap \<Rightarrow> ev_item \<Rightarrow> bool" where
  "ends_wait km x =
     (case x of
        None \<Rightarrow> True
      | Some (Inl _) \<Rightarrow> True
      | Some (Inr (Ev_Resize _)) \<Rightarrow> True
      | Some (Inr (Ev_Key k m)) \<Rightarrow> keymap_lookup km k m \<noteq> None
      | Some (Inr (Ev_Mouse _ _ _)) \<Rightarrow> False)"

definition quiet_key :: "keymap \<Rightarrow> ev_item \<Rightarrow> bool" where
  "quiet_key km x =
     (case x of Some (Inr (Ev_Key k m)) \<Rightarrow> keymap_lookup km k m = None | _ \<Rightarrow> False)"


section \<open>Lemmas\<close>

lemma await_loop_Cons:
  "await_loop ops scr st wbs (x ## s) =
     (case x of
        None \<Rightarrow> Some Panic
      | Some (Inl e) \<Rightarrow> Some (Returned (Inl (Crossterm e)))
      | Some (Inr ev) \<Rightarrow>
          (case event_action ops scr st ev wbs of
             (scr', st', Some a) \<Rightarrow> Some (Returned (Inr (scr', st', a, s)))
           | (scr', st', None) \<Rightarrow> await_loop ops scr' st' wbs s))"
  by (subst await_loop.simps) (simp add: ev_poll_def split: option.split sum.split)

lemma option_admissible_None: "option.admissible (\<lambda>f. \<forall>x. Q x \<longrightarrow> f x = None)"
proof -
  have eq: "(\<lambda>f. \<forall>x y. f x = Some y \<longrightarrow> \<not> Q x) = (\<lambda>f. \<forall>x. Q x \<longrightarrow> f x = None)"
    by (auto simp: fun_eq_iff)
  show ?thesis unfolding eq [symmetric] by (rule option_admissible)
qed

lemma await_loop_quiet:
  "\<forall>ops scr st wbs s. scr_keymap scr = km \<and> (\<forall>n. quiet_key km (s !! n))
     \<longrightarrow> await_loop ops scr st wbs s = None"
proof (rule await_loop.fixp_induct)
  show "option.admissible (\<lambda>f. \<forall>ops scr st wbs s. scr_keymap scr = km \<and> (\<forall>n. quiet_key km (s !! n))
     \<longrightarrow> curry (curry (curry (curry f))) ops scr st wbs s = None)"
    using option_admissible_None [of "\<lambda>((((ops, scr), st), wbs), s). scr_keymap scr = km \<and> (\<forall>n. quiet_key km (s !! n))"]
    by (simp add: split_paired_All)
next
  fix f :: "'a widget_ops \<Rightarrow> screen \<Rightarrow> 'a store \<Rightarrow> widget_boxes \<Rightarrow> ev_item stream
    \<Rightarrow> (error + screen \<times> 'a store \<times> action \<times> ev_item stream) outcome option"
  assume IH: "\<forall>ops scr st wbs s. scr_keymap scr = km \<and> (\<forall>n. quiet_key km (s !! n))
     \<longrightarrow> f ops scr st wbs s = None"
  show "\<forall>ops scr st wbs s. scr_keymap scr = km \<and> (\<forall>n. quiet_key km (s !! n)) \<longrightarrow>
     (case ev_poll s of (None, x) \<Rightarrow> Some Panic
      | (Some (Inl e), x) \<Rightarrow> Some (Returned (Inl (Crossterm e)))
      | (Some (Inr ev), x) \<Rightarrow>
          (case event_action ops scr st ev wbs of
             (scr', st', None) \<Rightarrow> f ops scr' st' wbs x
           | (scr', st', Some a) \<Rightarrow> Some (Returned (Inr (scr', st', a, x))))) = None"
  proof (intro allI impI)
    fix ops :: "'a widget_ops" and scr :: screen and st :: "'a store" and wbs :: widget_boxes
      and s :: "ev_item stream"
    assume a: "scr_keymap scr = km \<and> (\<forall>n. quiet_key km (s !! n))"
    obtain k m where h: "shd s = Some (Inr (Ev_Key k m))" "keymap_lookup km k m = None"
      using a [THEN conjunct2, rule_format, of 0]
      by (auto simp: quiet_key_def split: option.splits sum.splits event.splits)
    have t: "\<forall>n. quiet_key km (stl s !! n)" using a by (metis snth.simps(2))
    show "(case ev_poll s of (None, x) \<Rightarrow> Some Panic
      | (Some (Inl e), x) \<Rightarrow> Some (Returned (Inl (Crossterm e)))
      | (Some (Inr ev), x) \<Rightarrow>
          (case event_action ops scr st ev wbs of
             (scr', st', None) \<Rightarrow> f ops scr' st' wbs x
           | (scr', st', Some a) \<Rightarrow> Some (Returned (Inr (scr', st', a, x))))) = None"
      using IH h t a by (simp add: ev_poll_def event_action_def)
  qed
qed simp

section \<open>The loop over the stream\<close>

text \<open>On a stream that ends after finitely many items, the loop of \<open>Screen::step\<close>
  returns what the list model \<open>step_events\<close> returns (the same error, or the same screen,
  widgets, action and remaining items), and panics exactly where the list model does: the
  list model is an exact refinement of the stream loop.\<close>

theorem await_loop_of_list:
  "await_loop ops scr st wbs (of_list xs) =
     Some (case step_events ops scr st wbs xs of
             None \<Rightarrow> Panic
           | Some r \<Rightarrow> Returned (map_sum id (\<lambda>(s, w, a, rest). (s, w, a, of_list rest)) r))"
proof (induction xs arbitrary: scr st)
  case Nil
  show ?case by (subst await_loop.simps) (simp add: of_list_def ev_poll_def)
next
  case (Cons x xs)
  show ?case
  proof (cases x)
    case (Inl e) then show ?thesis by (simp add: of_list_def await_loop_Cons)
  next
    case (Inr ev)
    obtain s1 t1 a1 where ea: "event_action ops scr st ev wbs = (s1, t1, a1)" by (metis prod_cases3)
    show ?thesis using Cons.IH [of s1 t1] Inr ea
      by (cases a1) (simp_all add: of_list_def await_loop_Cons)
  qed
qed

text \<open>C22: the loop returns (a result or the panic) whenever some item of the stream ends
  the wait: the end of the stream, a stream error, a resize, or a key that the key map
  holds. Mouse events and unmapped keys before it are consumed; they never change the key
  map.\<close>

theorem await_loop_returns:
  assumes "ends_wait (scr_keymap scr) (s !! n)"
  shows "\<exists>y. await_loop ops scr st wbs s = Some y"
  using assms
proof (induction n arbitrary: scr st s)
  case 0
  then show ?case
    by (cases s; cases "shd s")
       (auto simp: await_loop_Cons ends_wait_def event_action_def split: sum.splits event.splits)
next
  case (Suc n)
  obtain x s' where s: "s = x ## s'" by (cases s)
  show ?case
  proof (cases x)
    case None then show ?thesis by (simp add: s await_loop_Cons)
  next
    case (Some y)
    show ?thesis
    proof (cases y)
      case (Inl e) then show ?thesis by (simp add: s Some await_loop_Cons)
    next
      case (Inr ev)
      obtain s1 t1 a1 where ea: "event_action ops scr st ev wbs = (s1, t1, a1)" by (metis prod_cases3)
      have km: "scr_keymap s1 = scr_keymap scr"
        using event_action_keymap(2) [of scr scr ops st ev wbs] ea by simp
      have "ends_wait (scr_keymap s1) (s' !! n)" using Suc.prems km s by simp
      then have "\<exists>y. await_loop ops s1 t1 wbs s' = Some y" by (rule Suc.IH)
      then show ?thesis using ea by (cases a1) (simp_all add: s Some Inr await_loop_Cons)
    qed
  qed
qed

theorem await_loop_returns_witness:
  "ends_wait Map.empty ((Some (Inr (Ev_Key (Key_Char CHR ''x'') no_mods)) ## Some (Inr (Ev_Resize (dim_new 100 30)))
       ## sconst None) !! 1)
   \<and> (\<exists>y. await_loop button_ops \<lparr>scr_dim = dim_new 80 24, scr_theme = \<lparr>th_background = Black Normal_Intensity,
        th_foreground = White Bright, th_dark_shadow = Black Bright, th_secondary = Cyan Normal_Intensity,
        th_tertiary = Yellow Bright\<rparr>, scr_style = None, scr_keymap = Map.empty, scr_out = []\<rparr>
       (\<lambda>_. button_new ''OK'') []
       (Some (Inr (Ev_Key (Key_Char CHR ''x'') no_mods)) ## Some (Inr (Ev_Resize (dim_new 100 30))) ## sconst None)
       = Some y)"
proof -
  have e: "ends_wait Map.empty ((Some (Inr (Ev_Key (Key_Char CHR ''x'') no_mods)) ## Some (Inr (Ev_Resize (dim_new 100 30)))
       ## sconst None) !! 1)"
    by (simp add: ends_wait_def)
  show ?thesis using e await_loop_returns [of "\<lparr>scr_dim = dim_new 80 24, scr_theme = \<lparr>th_background = Black Normal_Intensity,
        th_foreground = White Bright, th_dark_shadow = Black Bright, th_secondary = Cyan Normal_Intensity,
        th_tertiary = Yellow Bright\<rparr>, scr_style = None, scr_keymap = Map.empty, scr_out = []\<rparr>"
      "Some (Inr (Ev_Key (Key_Char CHR ''x'') no_mods)) ## Some (Inr (Ev_Resize (dim_new 100 30))) ## sconst None"
      1 button_ops "\<lambda>_. button_new ''OK''" "[]"]
    by simp
qed

text \<open>C37: a stream whose every item is a key the key map does not hold keeps
  \<open>Screen::step\<close> waiting for ever: the loop does not return (\<open>None\<close>), where the list
  model can only show reaching the end.\<close>

theorem await_loop_diverges:
  assumes "\<forall>n. quiet_key (scr_keymap scr) (s !! n)"
  shows "await_loop ops scr st wbs s = None"
  using await_loop_quiet assms by blast

theorem await_loop_diverges_witness:
  "(\<forall>n. quiet_key Map.empty (sconst (Some (Inr (Ev_Key (Key_Char CHR ''x'') no_mods))) !! n))
   \<and> await_loop button_ops \<lparr>scr_dim = dim_new 80 24, scr_theme = \<lparr>th_background = Black Normal_Intensity,
        th_foreground = White Bright, th_dark_shadow = Black Bright, th_secondary = Cyan Normal_Intensity,
        th_tertiary = Yellow Bright\<rparr>, scr_style = None, scr_keymap = Map.empty, scr_out = []\<rparr>
       (\<lambda>_. button_new ''OK'') [] (sconst (Some (Inr (Ev_Key (Key_Char CHR ''x'') no_mods)))) = None"
proof -
  have q: "\<forall>n. quiet_key Map.empty (sconst (Some (Inr (Ev_Key (Key_Char CHR ''x'') no_mods))) !! n)"
    by (simp add: quiet_key_def keymap_lookup_def)
  show ?thesis using q await_loop_diverges [of "\<lparr>scr_dim = dim_new 80 24, scr_theme = \<lparr>th_background = Black Normal_Intensity,
        th_foreground = White Bright, th_dark_shadow = Black Bright, th_secondary = Cyan Normal_Intensity,
        th_tertiary = Yellow Bright\<rparr>, scr_style = None, scr_keymap = Map.empty, scr_out = []\<rparr>"
      "sconst (Some (Inr (Ev_Key (Key_Char CHR ''x'') no_mods)))" button_ops "\<lambda>_. button_new ''OK''" "[]"]
    by simp
qed

end
