(* ===== verification/Spec2Isabelle.thy ===== *)
theory Spec2Isabelle
  imports Solver EventStream
begin

text \<open>
  \<^bold>\<open>A verification development of semtext, a terminal user-interface toolkit.\<close>

  \<^bold>\<open>The program.\<close> semtext places widgets in a rectangular character grid, renders them
  and routes input back to them. The sources (src/src/) are: area.rs (the geometry of
  rectangles of text cells: \<open>Edge\<close>, \<open>Dim\<close>, \<open>Area\<close> with \<open>split\<close> and \<open>trim\<close>);
  text/style.rs (\<open>Weight\<close>, \<open>Appearance\<close>, \<open>TextStyle\<close> and the attribute diff
  \<open>Appearance::changed\<close>); widget/label.rs and widget/button.rs (two widgets: their size
  preference, and the button's focus/press state machine); screen.rs (\<open>Screen\<close>: the
  per-frame loop that lays widgets out, draws them, awaits one input event and routes it:
  resize to the screen, keys to the key map, mouse events to every widget by hit test);
  error.rs (the error type). The files come from different revisions of the crate:
  screen.rs uses layout and input modules (\<open>BBox\<close>, \<open>GridArea\<close>, \<open>Action\<close>,
  \<open>FocusEvent\<close>) that are not among the sources, and calls \<open>mouse_event\<close> with one
  argument more than button.rs declares.

  \<^bold>\<open>The theories.\<close>
  \<^item> Prelude: \<open>u8\<close>/\<open>u16\<close> as words, Rust's \<open>Option::or\<close> (\<open>opt_or\<close>) and
    \<open>first_some\<close>, the \<open>u16_nat\<close> collection moving non-wrapping word arithmetic to
    \<open>nat\<close>.
  \<^item> Area (area.rs): one definition per method, \<open>u16\<close> arithmetic as \<open>16 word\<close> (wrapping
    as a release build; a debug build would panic instead), \<open>split\<close>'s panic as \<open>None\<close>.
    The abstract view is the set of cells an area covers (\<open>cells\<close>); \<open>area_wf\<close> says the
    area stays inside the 65536 addressable columns and rows. Lemmas: \<open>split\<close> partitions
    the cells (a refinement of the set view), its exact left split and halving, the panic
    condition, \<open>trim\<close> saturating and staying inside, the crate's unit test, and the
    wrap-around of the right part's column for every area (modulo 65536, before the area
    exactly when the sum passes column 65535).
  \<^item> Style (style.rs): the appearance builders and \<open>changed\<close>, and an SGR terminal model
    (\<open>sgr_apply\<close>, \<open>apply_attrs\<close> in an emission order) that states what \<open>changed\<close>
    must achieve. Lemmas: correct under reset-first emission; contradictory attribute pairs;
    under crossterm's order (sets before resets) every attribute kept by both appearances is
    turned off, for all appearances.
  \<^item> Label (label.rs): \<open>Label::bounds\<close> with its \<open>as u16\<close> cast; \<open>AreaBound\<close> from the
    spec. Lemmas: the bounds as functions of the width modulo 65536 (the cast); the label
    asks for room for its text exactly when the text is narrower than 65536 columns.
  \<^item> Input (spec-modelled: input/*, layout/bbox.rs): mouse, focus and key events,
    \<open>Action\<close>, \<open>Event\<close>, the key map and \<open>BBox::within\<close> (with \<open>within_cells\<close>
    relating it to the cell view, \<open>within_Some_iff\<close> inverting the translation).
  \<^item> Button (button.rs): the state record and the two transition functions
    \<open>button_focus\<close>, \<open>button_mouse_event\<close> (with \<open>mouse_target\<close>, the match before the
    \<open>and_then\<close>), \<open>enable\<close>, \<open>disable\<close>, style and border. Lemmas: \<open>Redraw\<close> exactly on
    a state change, disabled buttons inert, \<open>Take\<close> releases, every state recovers.
  \<^item> Screen (screen.rs): the \<open>Widget\<close> trait as an interface record \<open>'w widget_ops\<close>,
    widget state in a store indexed by widget identity (the interior-mutable \<open>Cell\<close>s),
    the layout as a list of (identity, box) pairs. \<open>mouse_action\<close> is the Rust loop,
    entry by entry (\<open>dispatch_one\<close>); \<open>event_action\<close> routes one event;
    \<open>step_events\<close> is the await loop of \<open>Screen::step\<close> over a finite event stream
    (the stream's end is the panic of \<open>unwrap\<close>, a stream error is \<open>Error::Crossterm\<close>);
    \<open>button_ops\<close> plugs buttons into the interface. The screen record holds the
    dimension, the theme (\<open>set_theme\<close>), the style cache and the key map. The style cache
    (\<open>set_background_color\<close>, \<open>set_foreground_color\<close>, \<open>set_appearance\<close>,
    \<open>set_style\<close>) queues commands to the output (\<open>scr_out\<close>), and a terminal model
    (\<open>term_run\<close>) says what they show; \<open>screen_cells\<close> clips a box to the screen.
    Runs of a button layout are the inductive \<open>ui_reach\<close> (mouse events, enable,
    disable). Lemmas: which widget receives what (for any widget type), which action wins,
    the button states after a press and the uniqueness of the pressed button on
    non-overlapping layouts, the loop's routing, liveness, and that it returns exactly the
    events after the one that decided,
    the style cache refining the terminal state on a terminal that applies resets before
    sets (crossterm does not: see Style), clipping, and by rule induction over
    \<open>ui_reach\<close> that at most one button ever holds the focus.

  \<^item> Grid (spec-modelled: layout/grid, spec 4.3): the grid template scanned in one pass
    into bounding rectangles per label (\<open>grid_scan\<close>), validated (a label must fill its
    rectangle, rows must have one length: \<open>grid_error\<close>) and resolved to widgets
    (\<open>grid_template\<close>). Lemmas: an accepted template places each label on exactly its
    cells, the places are disjoint rectangles with distinct widgets, and the printed
    rectangles parse back to the same template.
  \<^item> Solver (spec-modelled: spec 4.2, 4.4): per-track minimums from the widgets spanning
    them (a spanning minimum shared with the remainder to the first tracks), flexible tracks,
    shrinking when the box is too small and growing the flexible tracks when it is larger
    (\<open>solve_axis\<close>), offsets as prefix sums, and \<open>solve_layout\<close>/\<open>layout\<close> placing each
    widget. Lemmas: every area lies in the box, the tracks fill the box, widget minimums
    are met when the box holds them, disjoint rectangles give disjoint areas, and the
    spec's three scenarios evaluate as stated.
  \<^item> Lifecycle (screen.rs, error.rs): the \<open>Error\<close> conversions, a terminal model \<open>tty\<close>
    (raw mode, alternate screen, cursor, line wrap, mouse capture, what was sent, and a
    fault table saying which driver call fails), \<open>Screen::new\<close> (\<open>screen_new\<close>, with the
    default theme as a parameter), \<open>cleanup\<close> and \<open>Drop\<close>. Lemmas: a screen created and
    dropped without faults restores a normal terminal, whatever was drawn in between; a
    failed flush in \<open>cleanup\<close> returns before \<open>disable_raw_mode\<close>.
  \<^item> Render (screen.rs, label.rs, button.rs; the view \<open>Cells\<close> spec-modelled): a view
    translating relative coordinates and clipping to its box, \<open>Label::render\<close> with text
    wrapping as a parameter, \<open>Button::draw\<close> with \<open>Cells::print_text\<close> as a parameter,
    \<open>Screen::draw\<close> (the screen's theme gives each widget's style group a style) and
    \<open>Screen::step\<close> (layout from the screen's box and theme, draw, await). Lemmas: a label
    moves to the start of each rendered row inside its view; a press is drawn in the
    theme's pressed style; \<open>within\<close> and \<open>Cells::move_to\<close> form a round trip between
    where a widget draws and where the pointer hits it; \<open>Screen::step\<close> decides as the
    draw-free loop when the output flushes, down to the screen's dimension, key map and
    theme (\<open>scr_frame\<close>), and returns the I/O error before reading an
    event when it does not.
  \<^item> EventStream (screen.rs): \<open>EvStreamFut\<close> as an infinite \<open>stream\<close> of
    \<open>Option<Result<Event>>\<close> items (\<open>ev_poll\<close>) and the await loop of \<open>Screen::step\<close> as
    the \<open>partial_function (option)\<close> \<open>await_loop\<close>, where \<open>None\<close> is waiting for ever
    and \<open>Panic\<close> the \<open>unwrap\<close> at the end of the stream. Lemmas: on a stream that ends,
    the list model \<open>step_events\<close> is an exact refinement of the loop; the loop returns
    once an item ends the wait (by induction on its position); a stream of unmapped keys
    keeps it waiting for ever (by fixpoint induction, \<open>await_loop.fixp_induct\<close>).
  \<^item> This theory: the solver's layouts meet the hypothesis of the dispatch invariant, so
    on every layout solved from an accepted template of distinct buttons at most one button
    holds the focus in every reachable state.

  \<^bold>\<open>How the parts meet.\<close> Widgets reach the screen through two interface records: \<open>'w
  widget_ops\<close> (focus and mouse handling, Screen theory) and \<open>('w, 'g) draw_ops\<close>
  (style group and drawing, Render theory); \<open>button_ops\<close> instantiates the first for
  buttons. The layout is a parameter of \<open>step\<close> and \<open>screen_step\<close> (a function of the
  theme and the screen box); the Solver's \<open>layout\<close> is one such function, and this theory
  composes the two. Terminal output is a command log (\<open>scr_out\<close>) read by two models:
  \<open>term_run\<close> for colours and attributes, \<open>tty\<close> for the modes that \<open>new\<close> and
  \<open>cleanup\<close> switch.

  \<^bold>\<open>Bounds and fuel.\<close> No fuel is used. Every loop over data is structural recursion
  over a finite list (the widget boxes, the template's cells and tracks). The one loop that
  may not end, awaiting the event stream, is \<open>await_loop\<close>, a partial function whose
  \<open>None\<close> is the wait that never ends; that it returns is proved as such (\<open>\<exists>y. \<dots> =
  Some y\<close>) and that it does not as \<open>\<dots> = None\<close>. The Screen theory's \<open>step_events\<close>
  runs the same loop over a finite list (the end of the list is the end of the stream)
  and is proved equal to \<open>await_loop\<close> on every stream that ends. The \<open>u16\<close> width matters for \<open>Area\<close>,
  \<open>Label::bounds\<close> and the view's coordinates and is kept; the solver works in \<open>nat\<close>
  and converts to \<open>u16\<close> inside a well-formed box, where nothing wraps.

  \<^bold>\<open>Not modelled.\<close> The \<open>Pending\<close> polls of \<open>EvStreamFut\<close> and the executor (a
  poll is modelled once it is ready: cooperative suspension does not change what
  \<open>step\<close> returns); the byte-level encoding of the terminal commands and crossterm itself; the
  palette behind \<open>Theme::default\<close> and \<open>Theme::style\<close> (parameters: the spec makes the
  theme an opaque style lookup); \<open>textwrap\<close> and \<open>Cells::print_text\<close> (parameters);
  the \<open>dbg!\<close> printing in \<open>Drop\<close>. lib.rs, text/mod.rs and the two example programs
  hold module wiring and programs written against another revision of the API (they call
  \<open>Screen::render\<close>, \<open>Screen::event\<close> and \<open>step_future\<close>, which screen.rs does not
  define), and are not modelled.
\<close>

section \<open>Layouts from the solver meet the dispatch invariant\<close>

text \<open>The layout that \<open>Screen::step\<close> dispatches over comes from the grid template and the
  solver. For an accepted template whose labels map to distinct widgets, the resolved boxes
  have distinct widgets and do not overlap, which is the hypothesis of the single-focus
  invariant of the dispatch loop.\<close>

lemma solved_layout_disjoint:
  assumes lay: "layout m lookup bounds bb = Inr wbs" and bw: "area_wf bb"
    and inj: "\<forall>l l' w. lookup l = Some w \<longrightarrow> lookup l' = Some w \<longrightarrow> l = l'"
  shows "layout_disjoint wbs"
proof -
  obtain t where t: "grid_template m lookup = Inr t" and w: "wbs = solve_layout bounds bb t"
    using lay by (auto simp: layout_def split: sum.splits)
  have wf: "tpl_wf t" using t by (rule grid_template_wf)
  have "map fst wbs = map fst (tpl_places t)" by (simp add: w solve_layout_def case_prod_unfold)
  then have d: "distinct (map fst wbs)" using grid_template_ids [OF t inj] by simp
  have disj: "cells a \<inter> cells b = {}" if ia: "(i, a) \<in> set wbs" and jb: "(j, b) \<in> set wbs" and ij: "i \<noteq> j" for i j a b
  proof -
    obtain rc where p: "(i, rc) \<in> set (tpl_places t)"
      and a: "a = place_area (col_offsets bounds bb t) (row_offsets bounds bb t) bb rc"
      using ia unfolding w by (rule solve_layout_mem)
    obtain rc' where p': "(j, rc') \<in> set (tpl_places t)"
      and b: "b = place_area (col_offsets bounds bb t) (row_offsets bounds bb t) bb rc'"
      using jb unfolding w by (rule solve_layout_mem)
    have "rect_cells rc \<inter> rect_cells rc' = {}"
      using grid_template_disjoint [OF t p p'] ij by simp
    then show ?thesis unfolding a b by (rule solve_layout_disjoint [OF wf bw p p'])
  qed
  show ?thesis unfolding layout_disjoint_def using d disj by fastforce
qed

text \<open>C32: end to end. On any layout the solver resolves from an accepted grid template
  whose labels name distinct buttons, at most one button holds the focus in every state
  reachable from all buttons enabled by mouse events and \<open>enable\<close>/\<open>disable\<close> calls.\<close>

theorem layout_single_focus:
  assumes "layout m lookup bounds bb = Inr wbs" and "area_wf bb"
    and "\<forall>l l' w. lookup l = Some w \<longrightarrow> lookup l' = Some w \<longrightarrow> l = l'"
    and "ui_reach wbs st"
  shows "single_focus wbs st"
proof -
  have lay: "layout_disjoint wbs" using assms(1-3) by (rule solved_layout_disjoint)
  show ?thesis using assms(4)
  proof (induction rule: ui_reach.induct)
    case (start st)
    then show ?case by (simp add: single_focus_def holds_focus_def)
  next
    case (mouse st mev mods p)
    then show ?case using lay by (rule_tac single_focus_mouse) auto
  next
    case (disable st i)
    then show ?case by (intro single_focus_update) (simp_all add: holds_focus_enable_disable)
  next
    case (enable st i)
    then show ?case by (intro single_focus_update) (simp_all add: holds_focus_enable_disable)
  qed
qed

theorem layout_single_focus_witness:
  "single_focus [(0, area_new 0 0 3 1), (1, area_new 3 0 3 1)]
     (fst (mouse_action button_ops (ButtonDown Left_Button) no_mods \<lparr>pos_col = 4, pos_row = 0\<rparr>
        [(0, area_new 0 0 3 1), (1, area_new 3 0 3 1)] (\<lambda>_. button_new ''OK'')))"
proof -
  let ?lk = "\<lambda>l. if l = ''a'' then Some (0 :: nat) else if l = ''b'' then Some 1 else None"
  let ?wbs = "[(0 :: nat, area_new 0 0 3 1), (1, area_new 3 0 3 1)]"
  have lay: "layout [[''a'', ''b'']] ?lk (\<lambda>_. button_bounds (button_new ''OK'')) (area_new 0 0 20 1) = Inr ?wbs"
    by code_simp
  have bw: "area_wf (area_new 0 0 20 1)" by (simp add: area_wf_def)
  have inj: "\<forall>l l' w. ?lk l = Some w \<longrightarrow> ?lk l' = Some w \<longrightarrow> l = l'" by auto
  have r: "ui_reach ?wbs (\<lambda>_. button_new ''OK'')" by (rule ui_reach.start) (simp add: button_new_def)
  have "ui_reach ?wbs (fst (mouse_action button_ops (ButtonDown Left_Button) no_mods \<lparr>pos_col = 4, pos_row = 0\<rparr>
        ?wbs (\<lambda>_. button_new ''OK'')))"
    by (rule ui_reach.mouse [OF r])
  then show ?thesis by (rule layout_single_focus [OF lay bw inj])
qed

end
